(* ===== verification/Sysak_Prelude.thy ===== *)
theory Sysak_Prelude
  imports Main "HOL-Library.Word"
begin

text \<open>
  Shared vocabulary of the development: the C integer types as machine words, the errno
  values the sources return, little-endian byte sequences (the on-disk layout of C structs),
  and the generic list, option and word lemmas the component theories rely on.
\<close>

section \<open>C integer types\<close>

type_synonym byte = "8 word"
type_synonym u16 = "16 word"
type_synonym u32 = "32 word"
type_synonym u64 = "64 word"

text \<open>
  A C \<open>int\<close> or \<open>off_t\<close> that the code keeps in range is an \<open>int\<close>; where the code narrows a
  wider value into an \<open>int\<close>, the narrowing is written \<open>to_c_int\<close>, and a conversion to
  \<open>size_t\<close> is written \<open>to_size\<close>.
\<close>

definition to_c_int :: "int \<Rightarrow> int" where
  "to_c_int i = sint (word_of_int i :: u32)"

definition to_size :: "int \<Rightarrow> u64" where
  "to_size i = word_of_int i"

definition to_short :: "int \<Rightarrow> int" where
  "to_short i = sint (word_of_int i :: u16)"

definition to_char :: "int \<Rightarrow> int" where
  "to_char i = sint (word_of_int i :: byte)"

named_theorems c_arith \<open>conversions between C integer types on values in range\<close>

lemma to_c_int_in_range [c_arith]:
  assumes "- (2 ^ 31) \<le> i" and "i < 2 ^ 31"
  shows "to_c_int i = i"
  using assms
  by (simp add: to_c_int_def sint_sbintrunc' signed_take_bit_int_eq_self)

lemma to_short_in_range [c_arith]:
  "- (2 ^ 15) \<le> i \<Longrightarrow> i < 2 ^ 15 \<Longrightarrow> to_short i = i"
  by (simp add: to_short_def sint_sbintrunc' signed_take_bit_int_eq_self)

lemma to_char_in_range [c_arith]:
  "- (2 ^ 7) \<le> i \<Longrightarrow> i < 2 ^ 7 \<Longrightarrow> to_char i = i"
  by (simp add: to_char_def sint_sbintrunc' signed_take_bit_int_eq_self)

lemma to_c_int_nonneg [c_arith]:
  "0 \<le> i \<Longrightarrow> i < 2 ^ 31 \<Longrightarrow> to_c_int i = i"
  by (simp add: to_c_int_in_range)

lemma to_c_int_high_neg:
  assumes "2 ^ 31 \<le> i" and "i < 2 ^ 32"
  shows "to_c_int i = i - 2 ^ 32"
proof -
  have "to_c_int i = signed_take_bit 31 i"
    by (simp add: to_c_int_def sint_sbintrunc')
  also have "\<dots> = (i + 2 ^ 31) mod 2 ^ 32 - 2 ^ 31"
    by (simp add: signed_take_bit_eq_take_bit_shift take_bit_eq_mod)
  also have "(i + 2 ^ 31) mod 2 ^ 32 = i + 2 ^ 31 - 2 ^ 32"
    using assms by (simp add: mod_pos_geq)
  finally show ?thesis by simp
qed

lemma uint_to_size [c_arith]:
  "0 \<le> i \<Longrightarrow> i < 2 ^ 64 \<Longrightarrow> uint (to_size i) = i"
  by (simp add: to_size_def uint_word_of_int)

lemma to_size_eq_iff [c_arith]:
  assumes "0 \<le> i" "i < 2 ^ 64" "0 \<le> j" "j < 2 ^ 64"
  shows "to_size i = to_size j \<longleftrightarrow> i = j"
  using assms by (metis uint_to_size)

lemma to_size_less_iff [c_arith]:
  assumes "0 \<le> i" "i < 2 ^ 64" "0 \<le> j" "j < 2 ^ 64"
  shows "to_size i < to_size j \<longleftrightarrow> i < j"
  using assms by (simp add: word_less_def uint_to_size)

lemma unat_of_nat_small [c_arith]:
  "n < 2 ^ LENGTH('a::len) \<Longrightarrow> unat (word_of_nat n :: 'a word) = n"
  by (simp add: unsigned_of_nat take_bit_nat_eq_self)

lemma uint_of_nat_small [c_arith]:
  "n < 2 ^ LENGTH('a::len) \<Longrightarrow> uint (word_of_nat n :: 'a word) = int n"
  by (simp add: unsigned_of_nat take_bit_nat_eq_self)

lemma unat_bound: "unat (x :: 'a::len word) < 2 ^ LENGTH('a)"
  by (rule unsigned_less)

section \<open>errno values\<close>

abbreviation (input) ENOENT :: int where "ENOENT \<equiv> 2"
abbreviation (input) ENOMEM :: int where "ENOMEM \<equiv> 12"
abbreviation (input) EACCES :: int where "EACCES \<equiv> 13"
abbreviation (input) EINVAL :: int where "EINVAL \<equiv> 22"
abbreviation (input) ERANGE :: int where "ERANGE \<equiv> 34"

section \<open>Little-endian byte sequences\<close>

fun le_bytes :: "nat \<Rightarrow> nat \<Rightarrow> byte list" where
  "le_bytes 0 v = []"
| "le_bytes (Suc n) v = word_of_nat v # le_bytes n (v div 256)"

fun le_val :: "byte list \<Rightarrow> nat" where
  "le_val [] = 0"
| "le_val (b # bs) = unat b + 256 * le_val bs"

named_theorems bytes_simps \<open>lengths and inverses of the byte encodings\<close>

lemma length_le_bytes [simp, bytes_simps]: "length (le_bytes n v) = n"
  by (induction n arbitrary: v) auto

lemma le_val_le_bytes [bytes_simps]: "le_val (le_bytes n v) = v mod 256 ^ n"
proof (induction n arbitrary: v)
  case 0
  then show ?case by simp
next
  case (Suc n)
  have "le_val (le_bytes (Suc n) v) = v mod 256 + 256 * (v div 256 mod 256 ^ n)"
    using Suc by (simp add: unat_of_nat)
  also have "\<dots> = v mod (256 * 256 ^ n)"
    by (simp add: mod_mult2_eq)
  finally show ?case by simp
qed

lemma le_val_bound: "le_val bs < 256 ^ length bs"
proof (induction bs)
  case Nil
  then show ?case by simp
next
  case (Cons b bs)
  have "unat b < 256" using unsigned_less [where w = b] by simp
  with Cons show ?case by simp
qed

lemma le_bytes_le_val: "le_bytes (length bs) (le_val bs) = bs"
proof (induction bs)
  case Nil
  then show ?case by simp
next
  case (Cons b bs)
  have b: "unat b < 256" using unsigned_less [of b] by simp
  then have "(unat b + 256 * le_val bs) div 256 = le_val bs" by simp
  moreover have "(word_of_nat (unat b + 256 * le_val bs) :: byte) = b"
  proof -
    have eq: "(256 :: byte) = 0" by simp
    have "(256 :: byte) * w = 0" for w
      unfolding eq by simp
    then show ?thesis by simp
  qed
  ultimately show ?case using Cons by simp
qed

section \<open>Slices of byte sequences\<close>

definition bslice :: "nat \<Rightarrow> nat \<Rightarrow> 'a list \<Rightarrow> 'a list" where
  "bslice off n xs = take n (drop off xs)"

lemma length_bslice: "length (bslice off n xs) = min n (length xs - off)"
  by (simp add: bslice_def min.commute)

lemma bslice_append_middle [simp]:
  "bslice (length xs) (length ys) (xs @ ys @ zs) = ys"
  by (simp add: bslice_def)

lemma bslice_middleI:
  "off = length xs \<Longrightarrow> n = length ys \<Longrightarrow> bslice off n (xs @ ys @ zs) = ys"
  by simp

lemma bslice_end [simp]: "length xs \<le> off \<Longrightarrow> bslice off n xs = []"
  by (simp add: bslice_def)

section \<open>Decimal formatting\<close>

fun dec :: "nat \<Rightarrow> string" where
  "dec n = (if n < 10 then [char_of (48 + n)] else dec (n div 10) @ [char_of (48 + n mod 10)])"

text \<open>\<open>fmt_0d w i\<close> is \<open>printf\<close>'s conversion \<open>%0wd\<close>.\<close>

definition fmt_0d :: "nat \<Rightarrow> int \<Rightarrow> string" where
  "fmt_0d w i =
     (let sgn = (if i < 0 then ''-'' else []); ds = dec (nat \<bar>i\<bar>)
      in sgn @ replicate (w - length sgn - length ds) CHR ''0'' @ ds)"

declare dec.simps [simp del]

end
