(* ===== verification/Posix_File.thy ===== *)
theory Posix_File
  imports Sysak_Prelude
begin

text \<open>
  The part of the POSIX file interface the C sources call: open files with an offset,
  \<open>lseek\<close> with \<open>SEEK_SET\<close>, \<open>read\<close>, \<open>write\<close> on an \<open>O_APPEND\<close> descriptor, \<open>fstat\<close>'s size,
  \<open>open\<close> and \<open>close\<close>. A world holds the files by name and the descriptor table. Calls whose
  outcome is decided outside the program (the descriptor \<open>open\<close> returns, the byte count
  \<open>write\<close> reports) take that outcome as an argument.
\<close>

record world =
  files :: "string \<Rightarrow> byte list option"
  fds :: "int \<Rightarrow> (string \<times> nat) option"

definition fd_content :: "world \<Rightarrow> int \<Rightarrow> byte list option" where
  "fd_content w fd = (case fds w fd of None \<Rightarrow> None | Some (f, _) \<Rightarrow> files w f)"

definition sys_lseek :: "int \<Rightarrow> int \<Rightarrow> world \<Rightarrow> int \<times> world" where
  "sys_lseek fd off w =
     (case fds w fd of
        None \<Rightarrow> (- 1, w)
      | Some (f, _) \<Rightarrow>
          if off < 0 then (- 1, w)
          else (off, w\<lparr>fds := (fds w)(fd \<mapsto> (f, nat off))\<rparr>))"

definition sys_read :: "int \<Rightarrow> nat \<Rightarrow> world \<Rightarrow> int \<times> byte list \<times> world" where
  "sys_read fd n w =
     (case fds w fd of
        None \<Rightarrow> (- 1, [], w)
      | Some (f, off) \<Rightarrow>
          (case files w f of
             None \<Rightarrow> (- 1, [], w)
           | Some bs \<Rightarrow>
               (let got = bslice off n bs
                in (int (length got), got,
                    w\<lparr>fds := (fds w)(fd \<mapsto> (f, off + length got))\<rparr>))))"

definition sys_write :: "int \<Rightarrow> byte list \<Rightarrow> int \<Rightarrow> world \<Rightarrow> int \<times> world" where
  "sys_write fd bs r w =
     (case fds w fd of
        None \<Rightarrow> (- 1, w)
      | Some (f, off) \<Rightarrow>
          (case files w f of
             None \<Rightarrow> (- 1, w)
           | Some old \<Rightarrow>
               if r < 0 then (- 1, w)
               else
                 (let put = take (nat r) bs
                  in (int (length put),
                      w\<lparr>files := (files w)(f \<mapsto> old @ put),
                        fds := (fds w)(fd \<mapsto> (f, length old + length put))\<rparr>))))"

definition sys_open_rdonly :: "string \<Rightarrow> int \<Rightarrow> world \<Rightarrow> int \<times> world" where
  "sys_open_rdonly f r w =
     (if r < 0 \<or> files w f = None then (- 1, w)
      else (r, w\<lparr>fds := (fds w)(r \<mapsto> (f, 0))\<rparr>))"

definition sys_open_append :: "string \<Rightarrow> int \<Rightarrow> world \<Rightarrow> int \<times> world" where
  "sys_open_append f r w =
     (if r < 0 then (- 1, w)
      else (r, w\<lparr>files := (case files w f of None \<Rightarrow> (files w)(f \<mapsto> []) | Some _ \<Rightarrow> files w),
                 fds := (fds w)(r \<mapsto> (f, 0))\<rparr>))"

definition sys_close :: "int \<Rightarrow> world \<Rightarrow> world" where
  "sys_close fd w = w\<lparr>fds := (fds w)(fd := None)\<rparr>"

section \<open>Facts the clients use\<close>

named_theorems posix_simps \<open>behaviour of the file calls on an open descriptor\<close>

text \<open>An open descriptor on a file with known content, at some offset.\<close>

definition opened :: "world \<Rightarrow> int \<Rightarrow> string \<Rightarrow> byte list \<Rightarrow> bool" where
  "opened w fd f bs \<longleftrightarrow> (\<exists>off. fds w fd = Some (f, off)) \<and> files w f = Some bs"

lemma opened_content [posix_simps]: "opened w fd f bs \<Longrightarrow> fd_content w fd = Some bs"
  by (auto simp: opened_def fd_content_def)

text \<open>The world with a descriptor moved to another offset of its file.\<close>

definition at_off :: "world \<Rightarrow> int \<Rightarrow> string \<Rightarrow> nat \<Rightarrow> world" where
  "at_off w fd f n = w\<lparr>fds := (fds w)(fd \<mapsto> (f, n))\<rparr>"

lemma at_off_simps [simp]:
  "files (at_off w fd f n) = files w"
  "fds (at_off w fd f n) fd = Some (f, n)"
  "at_off (at_off w fd f m) fd f n = at_off w fd f n"
  by (simp_all add: at_off_def)

lemma at_off_idem [simp]: "fds w fd = Some (f, n) \<Longrightarrow> at_off w fd f n = w"
  by (simp add: at_off_def fun_upd_idem)

lemma opened_at_off [simp]: "opened (at_off w fd f n) fd f bs \<longleftrightarrow> files w f = Some bs"
  by (simp add: opened_def)

lemma lseek_at [posix_simps]:
  "fds w fd = Some (f, n) \<Longrightarrow> 0 \<le> off \<Longrightarrow> sys_lseek fd off w = (off, at_off w fd f (nat off))"
  by (simp add: sys_lseek_def at_off_def)

lemma read_at [posix_simps]:
  "files w f = Some bs \<Longrightarrow> sys_read fd n (at_off w fd f off) =
    (int (length (bslice off n bs)), bslice off n bs, at_off w fd f (off + length (bslice off n bs)))"
  by (simp add: sys_read_def Let_def at_off_def)

lemma write_opened:
  assumes "opened w fd f bs" and "r = int (length ds)"
  shows "sys_write fd ds r w =
    (r, w\<lparr>files := (files w)(f \<mapsto> bs @ ds), fds := (fds w)(fd \<mapsto> (f, length bs + length ds))\<rparr>)"
  using assms by (auto simp: opened_def sys_write_def Let_def)

lemma opened_files: "opened w fd f bs \<Longrightarrow> files w f = Some bs"
  by (simp add: opened_def)

end
