(* ===== verification/Fox_Time.thy ===== *)
theory Fox_Time
  imports Sysak_Prelude
begin

text \<open>
  The time functions of the time-series store (source/tools/monitor/unity/tsdb/native/foxTSDB.c):
  microsecond stamps, calendar dates and the conversion between them. \<open>gmtime\<close> and \<open>mktime\<close>
  of the C library are written out over the proleptic Gregorian calendar; \<open>mktime\<close> reads the
  date in the process's local zone, given as its offset from UTC in seconds.
\<close>

section \<open>The calendar of the C library\<close>

record tm =
  tm_year :: int
  tm_mon :: int
  tm_mday :: int
  tm_hour :: int
  tm_min :: int
  tm_sec :: int

definition leap :: "int \<Rightarrow> bool" where
  "leap y \<longleftrightarrow> y mod 4 = 0 \<and> (y mod 100 \<noteq> 0 \<or> y mod 400 = 0)"

definition year_len :: "int \<Rightarrow> nat" where
  "year_len y = (if leap y then 366 else 365)"

definition month_lens :: "int \<Rightarrow> nat list" where
  "month_lens y = [31, if leap y then 29 else 28, 31, 30, 31, 30, 31, 31, 30, 31, 30, 31]"

text \<open>Splitting a day count into the year and the day of the year, from year \<open>y\<close> on.\<close>

function year_of :: "int \<Rightarrow> nat \<Rightarrow> int \<times> nat" where
  "year_of y d = (if d < year_len y then (y, d) else year_of (y + 1) (d - year_len y))"
  by pat_completeness auto
termination
  by (relation "measure snd") (auto simp: year_len_def split: if_splits)

fun month_of :: "nat list \<Rightarrow> int \<Rightarrow> nat \<Rightarrow> int \<times> nat" where
  "month_of [] m d = (m, d)"
| "month_of (l # ls) m d = (if d < l then (m, d) else month_of ls (m + 1) (d - l))"

definition gmtime :: "nat \<Rightarrow> tm" where
  "gmtime t =
     (let (y, yd) = year_of 1970 (t div 86400);
          (m, md) = month_of (month_lens y) 0 yd;
          s = t mod 86400
      in \<lparr>tm_year = y - 1900, tm_mon = m, tm_mday = int md + 1,
          tm_hour = int (s div 3600), tm_min = int (s mod 3600 div 60), tm_sec = int (s mod 60)\<rparr>)"

text \<open>Days from 1970-01-01 to the first day of a year, for any year.\<close>

definition leaps_before :: "int \<Rightarrow> int" where
  "leaps_before y = (y - 1) div 4 - (y - 1) div 100 + (y - 1) div 400"

definition days_before_year :: "int \<Rightarrow> int" where
  "days_before_year y = 365 * (y - 1970) + (leaps_before y - leaps_before 1970)"

definition mktime :: "int \<Rightarrow> tm \<Rightarrow> int" where
  "mktime tz p =
     (let y = 1900 + tm_year p + tm_mon p div 12;
          m = nat (tm_mon p mod 12);
          days = days_before_year y + int (sum_list (take m (month_lens y))) + (tm_mday p - 1)
      in days * 86400 + tm_hour p * 3600 + tm_min p * 60 + tm_sec p - tz)"

section \<open>The source's time functions\<close>

type_synonym fox_time_t = u64

record foxDate =
  d_year :: int
  d_mon :: int
  d_mday :: int
  d_hour :: int
  d_min :: int
  d_sec :: int

abbreviation MICRO_UNIT :: u64 where "MICRO_UNIT \<equiv> 1000000"

definition get_us :: "(nat \<times> nat) option \<Rightarrow> fox_time_t" where
  "get_us tv = (case tv of None \<Rightarrow> 0 | Some (sec, usec) \<Rightarrow> word_of_nat sec * MICRO_UNIT + word_of_nat usec)"

definition tm2date :: "tm \<Rightarrow> foxDate" where
  "tm2date p = \<lparr>d_year = to_short (tm_year p), d_mon = to_char (tm_mon p), d_mday = to_char (tm_mday p),
     d_hour = to_char (tm_hour p), d_min = to_char (tm_min p), d_sec = to_char (tm_sec p)\<rparr>"

definition date2tm :: "foxDate \<Rightarrow> tm" where
  "date2tm p = \<lparr>tm_year = d_year p, tm_mon = d_mon p, tm_mday = d_mday p,
     tm_hour = d_hour p, tm_min = d_min p, tm_sec = d_sec p\<rparr>"

definition get_date_from_us :: "fox_time_t \<Rightarrow> int \<times> foxDate" where
  "get_date_from_us us = (0, tm2date (gmtime (unat (us div MICRO_UNIT))))"

definition get_date :: "(nat \<times> nat) option \<Rightarrow> foxDate \<Rightarrow> int \<times> foxDate" where
  "get_date tv p = (case tv of Some (sec, _) \<Rightarrow> (0, tm2date (gmtime sec)) | None \<Rightarrow> (1, p))"

definition make_stamp :: "int \<Rightarrow> foxDate \<Rightarrow> fox_time_t" where
  "make_stamp tz p = word_of_int (mktime tz (date2tm p)) * MICRO_UNIT"

definition check_foxdate :: "foxDate \<Rightarrow> foxDate \<Rightarrow> bool" where
  "check_foxdate d1 d2 \<longleftrightarrow> d_year d1 = d_year d2 \<and> d_mon d1 = d_mon d2 \<and> d_mday d1 = d_mday d2"

section \<open>Calendar lemmas\<close>

declare year_of.simps [simp del]

lemma days_before_year_1970 [simp]: "days_before_year 1970 = 0"
  by (simp add: days_before_year_def)

lemma div_pred_step:
  fixes y n :: int
  assumes "0 < n"
  shows "y div n = (y - 1) div n + (if y mod n = 0 then 1 else 0)"
proof (cases "y mod n = 0")
  case True
  then have "y - 1 = (n - 1) + (y div n - 1) * n"
    using div_mult_mod_eq [of y n] by (simp add: algebra_simps)
  then have "(y - 1) div n = (n - 1) div n + (y div n - 1)"
    using assms by (metis div_mult_self1 less_irrefl add.commute)
  with True assms show ?thesis by simp
next
  case False
  then have r: "0 \<le> y mod n - 1" "y mod n - 1 < n"
    using assms pos_mod_sign [of n y] pos_mod_bound [of n y] by linarith+
  have "y - 1 = (y mod n - 1) + (y div n) * n"
    using div_mult_mod_eq [of y n] by simp
  then have "(y - 1) div n = (y mod n - 1) div n + y div n"
    using assms by (metis div_mult_self1 less_irrefl add.commute)
  with False r show ?thesis by simp
qed

lemma leap_rule_count:
  fixes a b c a' b' c' :: int
  assumes "P100 \<Longrightarrow> P4" and "P400 \<Longrightarrow> P100"
    and "a = a' + (if P4 then 1 else 0)" and "b = b' + (if P100 then 1 else 0)"
    and "c = c' + (if P400 then 1 else 0)"
  shows "a - b + c = a' - b' + c' + (if P4 \<and> (\<not> P100 \<or> P400) then 1 else 0)"
  using assms(1,2) unfolding assms(3-5) by (cases P4; cases P100; cases P400) simp_all

lemma leaps_before_step: "leaps_before (y + 1) = leaps_before y + (if leap y then 1 else 0)"
  unfolding leaps_before_def leap_def add_diff_cancel_right'
proof (rule leap_rule_count)
  show "y mod 4 = 0" if "y mod 100 = 0"
    using that dvd_trans [of 4 100 y] by (simp add: mod_eq_0_iff_dvd)
  show "y mod 100 = 0" if "y mod 400 = 0"
    using that dvd_trans [of 100 400 y] by (simp add: mod_eq_0_iff_dvd)
qed (rule div_pred_step, simp)+

lemma days_before_year_step: "days_before_year (y + 1) = days_before_year y + int (year_len y)"
  by (simp add: days_before_year_def year_len_def leaps_before_step)

lemma sum_month_lens: "sum_list (month_lens y) = year_len y"
  by (simp add: month_lens_def year_len_def)

lemma length_month_lens [simp]: "length (month_lens y) = 12"
  by (simp add: month_lens_def)

lemma year_of_sound:
  "year_of y d = (y', d') \<Longrightarrow>
     d' < year_len y' \<and> days_before_year y' + int d' = days_before_year y + int d \<and> y \<le> y'"
proof (induction y d rule: year_of.induct)
  case (1 y d)
  show ?case
  proof (cases "d < year_len y")
    case True
    with 1 show ?thesis by (simp add: year_of.simps [of y d])
  next
    case False
    with 1 show ?thesis
      by (auto simp: year_of.simps [of y d] days_before_year_step)
  qed
qed

lemma year_of_bound:
  "year_of y d = (y', d') \<Longrightarrow> 365 * (y' - y) \<le> int d"
proof (induction y d rule: year_of.induct)
  case (1 y d)
  show ?case
  proof (cases "d < year_len y")
    case True
    with 1 show ?thesis by (simp add: year_of.simps [of y d])
  next
    case False
    then have "365 * (y' - (y + 1)) \<le> int (d - year_len y)"
      using 1 by (simp add: year_of.simps [of y d])
    moreover have "365 \<le> year_len y" by (simp add: year_len_def)
    ultimately show ?thesis using False by simp
  qed
qed

lemma month_of_sound:
  "month_of ls m d = (m', d') \<Longrightarrow> d < sum_list ls \<Longrightarrow>
     \<exists>k < length ls. m' = m + int k \<and> d' < ls ! k \<and> d = sum_list (take k ls) + d'"
proof (induction ls m d rule: month_of.induct)
  case (1 m d)
  then show ?case by simp
next
  case (2 l ls m d)
  show ?case
  proof (cases "d < l")
    case True
    with 2 show ?thesis by (intro exI [of _ 0]) simp
  next
    case False
    with 2(3) have "d - l < sum_list ls" by simp
    with False 2 obtain k where "k < length ls" "m' = m + 1 + int k" "d' < ls ! k"
      "d - l = sum_list (take k ls) + d'"
      by auto
    with False show ?thesis by (intro exI [of _ "Suc k"]) auto
  qed
qed

lemma month_len_le: "k < 12 \<Longrightarrow> month_lens y ! k \<le> 31"
proof -
  assume "k < 12"
  then have "month_lens y ! k \<in> set (month_lens y)" by (intro nth_mem) simp
  moreover have "\<forall>l \<in> set (month_lens y). l \<le> 31" by (simp add: month_lens_def)
  ultimately show ?thesis by blast
qed

lemma seconds_split:
  "int s = int (s div 3600) * 3600 + int (s mod 3600 div 60) * 60 + int (s mod 60)"
proof -
  have "s mod 3600 mod 60 = s mod 60" by (simp add: mod_mod_cancel)
  then have "s = s div 3600 * 3600 + (s mod 3600 div 60 * 60 + s mod 60)"
    by (metis div_mult_mod_eq)
  then show ?thesis
    by (metis (no_types, lifting) add.assoc of_nat_add of_nat_mult of_nat_numeral)
qed

text \<open>What \<open>gmtime\<close> returns: fields in range, and the second count they stand for.\<close>

lemma gmtime_fields:
  fixes t :: nat
  defines "p \<equiv> gmtime t"
  shows "0 \<le> tm_mon p" "tm_mon p < 12" "1 \<le> tm_mday p" "tm_mday p \<le> 31"
    "0 \<le> tm_hour p" "tm_hour p < 24" "0 \<le> tm_min p" "tm_min p < 60" "0 \<le> tm_sec p" "tm_sec p < 60"
    "70 \<le> tm_year p" "365 * (tm_year p - 70) \<le> int (t div 86400)"
    "mktime tz p = int t - tz"
proof -
  obtain y yd where y: "year_of 1970 (t div 86400) = (y, yd)" by fastforce
  obtain m md where m: "month_of (month_lens y) 0 yd = (m, md)" by fastforce
  from year_of_sound [OF y] have yd: "yd < sum_list (month_lens y)"
    "days_before_year y + int yd = int (t div 86400)" "1970 \<le> y"
    by (simp_all add: sum_month_lens)
  from month_of_sound [OF m yd(1)] obtain k where k: "k < 12" "m = int k" "md < month_lens y ! k"
    "yd = sum_list (take k (month_lens y)) + md"
    by auto
  have p: "p = \<lparr>tm_year = y - 1900, tm_mon = m, tm_mday = int md + 1,
      tm_hour = int (t mod 86400 div 3600), tm_min = int (t mod 86400 mod 3600 div 60),
      tm_sec = int (t mod 86400 mod 60)\<rparr>"
    by (simp add: p_def gmtime_def y m Let_def)
  show "0 \<le> tm_mon p" "tm_mon p < 12" "1 \<le> tm_mday p" "tm_mday p \<le> 31"
    using k month_len_le [of k y] by (simp_all add: p)
  show "0 \<le> tm_hour p" "0 \<le> tm_min p" "0 \<le> tm_sec p" "tm_sec p < 60"
    by (simp_all add: p)
  show "tm_hour p < 24"
    by (simp add: p div_less_iff_less_mult)
  show "tm_min p < 60"
    by (simp add: p div_less_iff_less_mult)
  show "70 \<le> tm_year p" using yd by (simp add: p)
  show "365 * (tm_year p - 70) \<le> int (t div 86400)"
    using year_of_bound [OF y] by (simp add: p)
  have secs: "int t = int (t div 86400) * 86400 + int (t mod 86400)"
    using div_mult_mod_eq [of t 86400] by (metis of_nat_add of_nat_mult of_nat_numeral)
  have sod: "int (t mod 86400) = int (t mod 86400 div 3600) * 3600
      + int (t mod 86400 mod 3600 div 60) * 60 + int (t mod 86400 mod 60)"
    by (rule seconds_split)
  have md: "tm_mon p div 12 = 0" "nat (tm_mon p mod 12) = k"
    using k by (simp_all add: p)
  have "mktime tz p = (days_before_year y + int yd) * 86400 + int (t mod 86400) - tz"
    unfolding mktime_def Let_def md sod using k by (simp add: p algebra_simps)
  with secs yd show "mktime tz p = int t - tz" by simp
qed

text \<open>
  Dates before the year 34667 survive the narrowing to \<open>short\<close> and \<open>char\<close>.
\<close>

lemma date2tm_tm2date_gmtime:
  assumes "t < 10 ^ 12"
  shows "date2tm (tm2date (gmtime t)) = gmtime t"
proof -
  note f = gmtime_fields(1-12) [where t = t]
  have "t div 86400 < 11574075" using assms by (simp add: div_less_iff_less_mult)
  then have "365 * (tm_year (gmtime t) - 70) < 11574075" using f(12) by linarith
  then have "tm_year (gmtime t) < 2 ^ 15" by simp
  with f show ?thesis
    by (simp add: date2tm_def tm2date_def to_short_in_range to_char_in_range)
qed

lemma make_stamp_of_us:
  assumes "us < 10 ^ 18"
  shows "make_stamp tz (snd (get_date_from_us us)) = word_of_int (int (unat us div 10 ^ 6) - tz) * MICRO_UNIT"
proof -
  have u: "unat (us div MICRO_UNIT) = unat us div 10 ^ 6"
    by (simp add: unat_div)
  have "unat us < 10 ^ 18"
    using assms by (simp add: word_less_nat_alt)
  then have "unat us div 10 ^ 6 < 10 ^ 12" by (simp add: div_less_iff_less_mult)
  then show ?thesis
    using gmtime_fields(13) [where tz = tz and t = "unat us div 10 ^ 6"]
    by (simp add: make_stamp_def get_date_from_us_def u date2tm_tm2date_gmtime del: of_int_diff)
qed

end
