(* ===== verification/Fox_TSDB.thy ===== *)
theory Fox_TSDB
  imports Posix_File Fox_Time
begin

text \<open>
  The model of the time-series store (source/tools/monitor/unity/tsdb/native/foxTSDB.c), one
  definition per C function, in the source's order. A day file is a sequence of records: a
  24-byte \<open>struct fox_head\<close> with 32-bit offsets of the previous and the next record, then the
  payload. The manager is the source's \<open>struct fox_manager\<close>; every function takes and returns
  it together with the world of files and descriptors.

  A \<open>struct fox_head\<close> on the C stack is a buffer of 24 bytes: \<open>read\<close> overwrites a prefix of it,
  and the fields are read from the buffer wherever the source reads them, also when the buffer
  was not filled. Loops that a corrupt file can keep running are \<open>partial_function (option)\<close>:
  \<open>None\<close> is a run that does not end.
\<close>

section \<open>Data\<close>

abbreviation FOX_MAGIC :: u16 where "FOX_MAGIC \<equiv> 0xf030"
abbreviation HEAD_SIZE :: nat where "HEAD_SIZE \<equiv> 24"

record fox_head =
  h_prev :: u32
  h_next :: u32
  h_t_us :: fox_time_t
  h_magic :: u16
  h_flag :: u16

definition head_bytes :: "byte list \<Rightarrow> fox_head \<Rightarrow> byte list" where
  "head_bytes pad h = le_bytes 4 (unat (h_prev h)) @ le_bytes 4 (unat (h_next h)) @
     le_bytes 8 (unat (h_t_us h)) @ le_bytes 2 (unat (h_magic h)) @ le_bytes 2 (unat (h_flag h)) @
     pad"

definition head_of :: "byte list \<Rightarrow> fox_head" where
  "head_of bs =
     \<lparr>h_prev = word_of_nat (le_val (bslice 0 4 bs)), h_next = word_of_nat (le_val (bslice 4 4 bs)),
      h_t_us = word_of_nat (le_val (bslice 8 8 bs)), h_magic = word_of_nat (le_val (bslice 16 2 bs)),
      h_flag = word_of_nat (le_val (bslice 18 2 bs))\<rparr>"

record fox_manager =
  pm_now :: fox_time_t
  pm_pos :: int
  pm_last_pos :: int
  pm_fsize :: u64
  pm_fd :: int
  pm_new_day :: int
  pm_year :: int
  pm_mon :: int
  pm_mday :: int

text \<open>
  What the environment decides during one call: the descriptor \<open>open\<close> hands out, the results
  of \<open>lockf\<close> and \<open>write\<close>, whether \<open>malloc\<close> succeeds, the bytes of uninitialised stack and heap
  memory, and the zone offset \<open>mktime\<close> applies.
\<close>

record fox_env =
  ev_open :: int
  ev_lock :: int
  ev_ulock :: int
  ev_wr_head :: int
  ev_wr_data :: int
  ev_malloc :: bool
  ev_stack :: "byte list"
  ev_heap :: "nat \<Rightarrow> byte"
  ev_tz :: int

section \<open>Helpers\<close>

definition day_start :: "fox_manager \<Rightarrow> foxDate" where
  "day_start pman = \<lparr>d_year = pm_year pman, d_mon = pm_mon pman, d_mday = pm_mday pman,
     d_hour = 0, d_min = 0, d_sec = 0\<rparr>"

definition fox_read_init_now :: "fox_env \<Rightarrow> fox_manager \<Rightarrow> fox_time_t" where
  "fox_read_init_now ev pman = make_stamp (ev_tz ev) (day_start pman)"

definition fox_read_day_max :: "fox_env \<Rightarrow> fox_manager \<Rightarrow> fox_time_t" where
  "fox_read_day_max ev pman = make_stamp (ev_tz ev) (day_start pman) + 24 * 60 * 60 * MICRO_UNIT"

definition fd_size :: "int \<Rightarrow> world \<Rightarrow> u64" where
  "fd_size fd w = (case fd_content w fd of Some bs \<Rightarrow> word_of_nat (length bs) | None \<Rightarrow> word_of_int (- EACCES))"

definition pack_fname :: "foxDate \<Rightarrow> string" where
  "pack_fname p = take 15 (fmt_0d 4 (d_year p) @ fmt_0d 2 (d_mon p) @ fmt_0d 2 (d_mday p) @ ''.fox'')"

definition fox_read_head :: "int \<Rightarrow> byte list \<Rightarrow> world \<Rightarrow> int \<times> byte list \<times> world" where
  "fox_read_head fd hb w =
     (case sys_read fd HEAD_SIZE w of (sz, got, w') \<Rightarrow>
        (let hb' = got @ drop (length got) hb
         in if sz = int HEAD_SIZE
            then (if h_magic (head_of hb') = FOX_MAGIC then (sz, hb', w') else (- EINVAL, hb', w'))
            else if sz = 0 then (0, hb', w')
            else (- EACCES, hb', w')))"

section \<open>Opening a day file for writing\<close>

partial_function (option) fox_check_head_loop ::
  "int \<Rightarrow> int \<Rightarrow> byte list \<Rightarrow> fox_manager \<Rightarrow> world \<Rightarrow> (int \<times> fox_manager \<times> world) option" where
  "fox_check_head_loop fd off hb pman w =
     (case sys_lseek fd off w of (off', w1) \<Rightarrow>
        if off' < 0 then Some (- EACCES, pman, w1)
        else (case fox_read_head fd hb w1 of (ret, hb', w2) \<Rightarrow>
          if ret > 0 then fox_check_head_loop fd (uint (h_next (head_of hb'))) hb' pman w2
          else if ret = 0
          then Some (ret, pman\<lparr>pm_last_pos := uint (h_prev (head_of hb')), pm_pos := off'\<rparr>, w2)
          else Some (ret, pman, w2)))"

text \<open>The source sets \<open>head.prev = 0\<close> before the loop; the other fields are stack garbage.\<close>

definition fox_check_head ::
  "fox_env \<Rightarrow> int \<Rightarrow> fox_manager \<Rightarrow> world \<Rightarrow> (int \<times> fox_manager \<times> world) option" where
  "fox_check_head ev fd pman w =
     fox_check_head_loop fd 0 (le_bytes 4 0 @ drop 4 (ev_stack ev)) pman w"

definition fox_check ::
  "fox_env \<Rightarrow> int \<Rightarrow> fox_manager \<Rightarrow> world \<Rightarrow> (int \<times> fox_manager \<times> world) option" where
  "fox_check ev fd pman w =
     (if ev_lock ev < 0 then Some (ev_lock ev, pman, w)
      else case fox_check_head ev fd pman w of
        None \<Rightarrow> None
      | Some (ret, pman', w') \<Rightarrow>
          if ret < 0 then Some (if ev_ulock ev < 0 then ev_ulock ev else ret, pman', w')
          else Some (ev_ulock ev, pman', w'))"

definition fox_setup_write ::
  "fox_env \<Rightarrow> fox_manager \<Rightarrow> foxDate \<Rightarrow> fox_time_t \<Rightarrow> world \<Rightarrow> (int \<times> fox_manager \<times> world) option" where
  "fox_setup_write ev pman p us w =
     (case sys_open_append (pack_fname p) (ev_open ev) w of (fd, w1) \<Rightarrow>
        (let pman1 = pman\<lparr>pm_fd := fd\<rparr>
         in if fd < 0 then Some (- ENOENT, pman1, w1)
            else case fox_check ev fd pman1 w1 of
              None \<Rightarrow> None
            | Some (ret, pman2, w2) \<Rightarrow>
                if ret < 0 then Some (ret, pman2\<lparr>pm_fd := 0\<rparr>, sys_close fd w2)
                else Some (ret, pman2\<lparr>pm_year := d_year p, pm_mon := d_mon p, pm_mday := d_mday p,
                                       pm_now := us\<rparr>, w2)))"

section \<open>Appending records\<close>

definition check_pman_date :: "fox_manager \<Rightarrow> foxDate \<Rightarrow> bool" where
  "check_pman_date pman d \<longleftrightarrow> pm_year pman = d_year d \<and> pm_mon pman = d_mon d \<and> pm_mday pman = d_mday d"

definition new_head :: "fox_manager \<Rightarrow> fox_time_t \<Rightarrow> int \<Rightarrow> fox_head" where
  "new_head pman us len =
     \<lparr>h_prev = word_of_int (pm_last_pos pman),
      h_next = word_of_int (pm_pos pman + int HEAD_SIZE + len),
      h_t_us = us, h_magic = FOX_MAGIC, h_flag = 0\<rparr>"

definition fox_write_data ::
  "fox_env \<Rightarrow> fox_manager \<Rightarrow> fox_time_t \<Rightarrow> byte list \<Rightarrow> world \<Rightarrow> int \<times> fox_manager \<times> world" where
  "fox_write_data ev pman us data w =
     (let fd = pm_fd pman;
          head = new_head pman us (int (length data));
          unlock_fail = (\<lambda>w'. if ev_ulock ev < 0 then (- EACCES, pman, w') else (ev_ulock ev, pman, w'))
      in if ev_lock ev < 0 then (- EACCES, pman, w)
         else case sys_write fd (head_bytes (drop 20 (ev_stack ev)) head) (ev_wr_head ev) w of (ret, w1) \<Rightarrow>
           if ret < 0 then unlock_fail w1
           else case sys_write fd data (ev_wr_data ev) w1 of (ret, w2) \<Rightarrow>
             if ret < 0 then unlock_fail w2
             else if ev_ulock ev < 0 then (- EACCES, pman, w2)
             else (ev_ulock ev,
                   pman\<lparr>pm_now := us, pm_last_pos := pm_pos pman, pm_pos := uint (h_next head)\<rparr>, w2))"

definition fox_write ::
  "fox_env \<Rightarrow> fox_env \<Rightarrow> fox_manager \<Rightarrow> foxDate \<Rightarrow> fox_time_t \<Rightarrow> byte list \<Rightarrow> world
     \<Rightarrow> (int \<times> fox_manager \<times> world) option" where
  "fox_write ev_setup ev pman pdate us data w =
     (let finish = (\<lambda>res pman w.
            if pm_now pman \<le> us then Some (fox_write_data ev pman us data w) else Some (res, pman, w))
      in if \<not> check_pman_date pman pdate
         then (case fox_setup_write ev_setup pman pdate us (sys_close (pm_fd pman) w) of
                 None \<Rightarrow> None
               | Some (res, pman1, w1) \<Rightarrow>
                   if res < 0 then Some (res, pman1, w1)
                   else finish res (pman1\<lparr>pm_new_day := 1\<rparr>) w1)
         else finish 0 (pman\<lparr>pm_new_day := 0\<rparr>) w)"

section \<open>Moving the read cursor\<close>

partial_function (option) fox_cursor_left_loop ::
  "int \<Rightarrow> int \<Rightarrow> fox_time_t \<Rightarrow> byte list \<Rightarrow> fox_manager \<Rightarrow> fox_time_t \<Rightarrow> world
     \<Rightarrow> (int \<times> fox_manager \<times> world) option" where
  "fox_cursor_left_loop fd pos last_t_us hb pman us w =
     (case sys_lseek fd pos w of (off, w1) \<Rightarrow>
        if to_c_int off < 0 then Some (- EACCES, pman, w1)
        else (case fox_read_head fd hb w1 of (ret, hb', w2) \<Rightarrow>
          if ret < 0 then Some (ret, pman, w2)
          else if h_t_us (head_of hb') < us
          then Some (0, pman\<lparr>pm_pos := uint (h_next (head_of hb')), pm_now := last_t_us, pm_last_pos := pos\<rparr>, w2)
          else if uint (h_prev (head_of hb')) = 0
          then Some (0, pman\<lparr>pm_pos := 0, pm_now := h_t_us (head_of hb'), pm_last_pos := 0\<rparr>, w2)
          else fox_cursor_left_loop fd (uint (h_prev (head_of hb'))) (h_t_us (head_of hb')) hb' pman us w2))"

definition fox_cursor_left ::
  "fox_env \<Rightarrow> int \<Rightarrow> fox_manager \<Rightarrow> fox_time_t \<Rightarrow> world \<Rightarrow> (int \<times> fox_manager \<times> world) option" where
  "fox_cursor_left ev fd pman us w =
     fox_cursor_left_loop fd
       (if to_size (pm_pos pman) = pm_fsize pman then pm_last_pos pman else pm_pos pman)
       (pm_now pman) (ev_stack ev) pman us w"

partial_function (option) fox_cursor_right_loop ::
  "fox_env \<Rightarrow> int \<Rightarrow> int \<Rightarrow> int \<Rightarrow> byte list \<Rightarrow> fox_manager \<Rightarrow> fox_time_t \<Rightarrow> world
     \<Rightarrow> (int \<times> fox_manager \<times> world) option" where
  "fox_cursor_right_loop ev fd last_pos pos hb pman us w =
     (if to_size pos = pm_fsize pman
      then Some (0, pman\<lparr>pm_last_pos := last_pos, pm_pos := pos, pm_now := fox_read_day_max ev pman\<rparr>, w)
      else if to_size pos > pm_fsize pman then Some (- ERANGE, pman, w)
      else case sys_lseek fd pos w of (off, w1) \<Rightarrow>
        if to_c_int off < 0 then Some (- EACCES, pman, w1)
        else (case fox_read_head fd hb w1 of (ret, hb', w2) \<Rightarrow>
          if ret < 0 then Some (ret, pman, w2)
          else if h_t_us (head_of hb') \<ge> us
          then Some (0, pman\<lparr>pm_pos := pos, pm_now := h_t_us (head_of hb'), pm_last_pos := last_pos\<rparr>, w2)
          else fox_cursor_right_loop ev fd pos (uint (h_next (head_of hb'))) hb' pman us w2))"

definition fox_cursor_right ::
  "fox_env \<Rightarrow> int \<Rightarrow> fox_manager \<Rightarrow> fox_time_t \<Rightarrow> world \<Rightarrow> (int \<times> fox_manager \<times> world) option" where
  "fox_cursor_right ev fd pman us w =
     fox_cursor_right_loop ev fd (pm_last_pos pman) (pm_pos pman) (ev_stack ev) pman us w"

definition fox_cursor_work ::
  "fox_env \<Rightarrow> int \<Rightarrow> fox_manager \<Rightarrow> fox_time_t \<Rightarrow> world \<Rightarrow> (int \<times> fox_manager \<times> world) option" where
  "fox_cursor_work ev fd pman us w =
     (if pm_now pman > us then fox_cursor_left ev fd pman us w
      else if pm_now pman < us then fox_cursor_right ev fd pman us w
      else Some (0, pman, w))"

definition fox_cursor ::
  "fox_env \<Rightarrow> int \<Rightarrow> fox_manager \<Rightarrow> fox_time_t \<Rightarrow> world \<Rightarrow> (int \<times> fox_manager \<times> world) option" where
  "fox_cursor ev fd pman us w = fox_cursor_work ev fd pman us w"

definition fox_cur_move ::
  "fox_env \<Rightarrow> fox_manager \<Rightarrow> fox_time_t \<Rightarrow> world \<Rightarrow> (int \<times> fox_manager \<times> world) option" where
  "fox_cur_move ev pman us w = fox_cursor ev (pm_fd pman) pman us w"

definition fox_cur_next :: "fox_env \<Rightarrow> fox_manager \<Rightarrow> fox_head \<Rightarrow> world \<Rightarrow> int \<times> fox_manager \<times> world" where
  "fox_cur_next ev pman head w =
     (let pos = uint (h_next head); fd = pm_fd pman; pman1 = pman\<lparr>pm_pos := pos\<rparr>
      in if to_size pos < pm_fsize pman
         then (case sys_lseek fd pos w of (off, w1) \<Rightarrow>
                 if to_c_int off < 0 then (to_c_int off, pman1, w1)
                 else case fox_read_head fd (ev_stack ev) w1 of (ret, hb', w2) \<Rightarrow>
                   if ret < 0 then (ret, pman1, w2)
                   else (ret, pman1\<lparr>pm_now := h_t_us (head_of hb')\<rparr>, w2))
         else (0, pman1\<lparr>pm_now := fox_read_day_max ev pman1\<rparr>, w))"

definition fox_cur_back :: "fox_env \<Rightarrow> fox_manager \<Rightarrow> world \<Rightarrow> int \<times> fox_manager \<times> world" where
  "fox_cur_back ev pman w =
     (let pos = pm_last_pos pman; fd = pm_fd pman; pman1 = pman\<lparr>pm_pos := pos\<rparr>
      in if pos > 0
         then (case sys_lseek fd pos w of (off, w1) \<Rightarrow>
                 if to_c_int off < 0 then (to_c_int off, pman1, w1)
                 else case fox_read_head fd (ev_stack ev) w1 of (ret, hb', w2) \<Rightarrow>
                   if ret < 0 then (ret, pman1, w2)
                   else (ret, pman1\<lparr>pm_now := h_t_us (head_of hb')\<rparr>, w2))
         else (0, pman1\<lparr>pm_now := fox_read_init_now ev pman1\<rparr>, w))"

section \<open>Opening a day file for reading\<close>

definition fox_setup_read ::
  "fox_env \<Rightarrow> fox_manager \<Rightarrow> foxDate \<Rightarrow> fox_time_t \<Rightarrow> world \<Rightarrow> (int \<times> fox_manager \<times> world) option" where
  "fox_setup_read ev pman p us w =
     (case sys_open_rdonly (pack_fname p) (ev_open ev) w of (fd, w1) \<Rightarrow>
        if fd < 0 then Some (1, pman\<lparr>pm_fd := - 1\<rparr>, w1)
        else
          (let pman1 = pman\<lparr>pm_fd := fd, pm_year := d_year p, pm_mon := d_mon p, pm_mday := d_mday p\<rparr>;
               pman2 = pman1\<lparr>pm_now := fox_read_init_now ev pman1, pm_pos := 0, pm_last_pos := 0,
                             pm_fsize := fd_size fd w1\<rparr>
           in case fox_cursor ev fd pman2 us w1 of
                None \<Rightarrow> None
              | Some (ret, pman3, w2) \<Rightarrow>
                  if ret < 0 then Some (ret, pman3\<lparr>pm_fd := - 1\<rparr>, sys_close fd w2)
                  else Some (ret, pman3, w2)))"

definition fox_read_resize ::
  "fox_env \<Rightarrow> fox_manager \<Rightarrow> world \<Rightarrow> (int \<times> fox_manager \<times> world) option" where
  "fox_read_resize ev pman w =
     (let fsize = fd_size (pm_fd pman) w
      in if fsize > pm_fsize pman
         then (case (if to_size (pm_pos pman) = pm_fsize pman then fox_cur_back ev pman w else (0, pman, w)) of
                 (ret, pman1, w1) \<Rightarrow>
                   if ret < 0 then Some (ret, pman1, w1) else Some (ret, pman1\<lparr>pm_fsize := fsize\<rparr>, w1))
         else (let d = day_start pman
               in case fox_setup_read ev pman d (make_stamp (ev_tz ev) d) w of
                    None \<Rightarrow> None
                  | Some (ret, pman1, w1) \<Rightarrow>
                      if ret \<noteq> 0 then Some (- EACCES, pman1, w1) else Some (ret, pman1, w1)))"

section \<open>Reading records\<close>

definition fox_read_stream :: "int \<Rightarrow> nat \<Rightarrow> world \<Rightarrow> int \<times> byte list \<times> world" where
  "fox_read_stream fd n w = sys_read fd n w"

text \<open>
  The result of a read: the returned code, the payload buffer (\<open>None\<close> where the source stores
  \<open>NULL\<close>), its length, and the stamp written through \<open>us\<close> (\<open>None\<close> where the source leaves the
  caller's variable alone).
\<close>

record fox_read_result =
  rr_ret :: int
  rr_pp :: "byte list option"
  rr_len :: int
  rr_us :: "fox_time_t option"

definition no_data :: "int \<Rightarrow> fox_read_result" where
  "no_data ret = \<lparr>rr_ret = ret, rr_pp = None, rr_len = 0, rr_us = None\<rparr>"

definition fox_read_work ::
  "fox_env \<Rightarrow> int \<Rightarrow> fox_manager \<Rightarrow> fox_time_t \<Rightarrow> world \<Rightarrow> fox_read_result \<times> fox_manager \<times> world" where
  "fox_read_work ev fd pman stop w =
     (if pm_now pman \<le> stop
      then (case sys_lseek fd (pm_pos pman) w of (off, w1) \<Rightarrow>
        if to_c_int off < 0 then (no_data (- EACCES), pman, w1)
        else case fox_read_head fd (ev_stack ev) w1 of (ret, hb, w2) \<Rightarrow>
          if ret < 0 then (no_data ret, pman, w2)
          else
            (let head = head_of hb;
                 sz = to_c_int (uint (h_next head) - pm_pos pman - int HEAD_SIZE)
             in if sz < 0 then (no_data ret, pman, w2)
                else if \<not> ev_malloc ev then (no_data (- ENOMEM), pman, w2)
                else case fox_read_stream fd (nat sz) w2 of (ret, got, w3) \<Rightarrow>
                  if ret < 0 then (no_data ret, pman, w3)
                  else case fox_cur_next ev pman head w3 of (ret, pman', w4) \<Rightarrow>
                    if ret < 0 then (no_data ret, pman', w4)
                    else (\<lparr>rr_ret = ret, rr_pp = Some (got @ map (ev_heap ev) [length got..<nat sz]),
                           rr_len = sz, rr_us = Some (h_t_us head)\<rparr>, pman', w4)))
      else (no_data 0, pman, w))"

definition fox_read ::
  "fox_env \<Rightarrow> fox_manager \<Rightarrow> fox_time_t \<Rightarrow> world \<Rightarrow> int \<times> fox_read_result \<times> fox_manager \<times> world" where
  "fox_read ev pman stop w =
     (case fox_read_work ev (pm_fd pman) pman stop w of (r, pman', w') \<Rightarrow>
        if rr_ret r < 0 then (rr_ret r, r, pman', w') else (rr_len r, r, pman', w'))"

definition fox_del_man :: "fox_manager \<Rightarrow> world \<Rightarrow> fox_manager \<times> world" where
  "fox_del_man pman w =
     (if pm_fd pman > 0 then (pman\<lparr>pm_fd := - 1\<rparr>, sys_close (pm_fd pman) w) else (pman, w))"

end
