(* ===== verification/Store_Interfaces.thy ===== *)
theory Store_Interfaces
  imports Main
begin

text \<open>
  Two interfaces several components of the system share. An append store is a state with an
  abstract sequence of items and an operation that appends one item when it fits. A drain
  source is a state with a sequence of pending items and an operation that hands out the next
  one. The component theories interpret both on their own operations; the lemmas about whole
  runs are proved here once.
\<close>

section \<open>Appending\<close>

locale append_store =
  fixes abs :: "'s \<Rightarrow> 'a list"
    and inv :: "'s \<Rightarrow> bool"
    and fits :: "'s \<Rightarrow> 'a \<Rightarrow> bool"
    and add :: "'a \<Rightarrow> 's \<Rightarrow> 's"
  assumes add_abs: "inv s \<Longrightarrow> fits s x \<Longrightarrow> abs (add x s) = abs s @ [x]"
    and add_inv: "inv s \<Longrightarrow> fits s x \<Longrightarrow> inv (add x s)"
begin

fun all_fit :: "'s \<Rightarrow> 'a list \<Rightarrow> bool" where
  "all_fit s [] \<longleftrightarrow> True"
| "all_fit s (x # xs) \<longleftrightarrow> fits s x \<and> all_fit (add x s) xs"

lemma fold_add:
  "inv s \<Longrightarrow> all_fit s xs \<Longrightarrow> inv (fold add xs s) \<and> abs (fold add xs s) = abs s @ xs"
proof (induction xs arbitrary: s)
  case Nil
  then show ?case by simp
next
  case (Cons x xs)
  then have "inv (add x s)" and "abs (add x s) = abs s @ [x]"
    by (simp_all add: add_abs add_inv)
  with Cons show ?case by simp
qed

lemma fold_add_prefix:
  assumes "inv s" and "all_fit s xs" and "n < length (abs s)"
  shows "abs (fold add xs s) ! n = abs s ! n"
  using fold_add [OF assms(1,2)] assms(3) by (simp add: nth_append)

end

section \<open>Draining\<close>

locale drain_source =
  fixes pending :: "'s \<Rightarrow> 'a list"
    and inv :: "'s \<Rightarrow> bool"
    and get :: "'s \<Rightarrow> ('a \<times> 's) option"
  assumes get_empty: "inv s \<Longrightarrow> pending s = [] \<Longrightarrow> get s = None"
    and get_item: "inv s \<Longrightarrow> pending s = x # xs \<Longrightarrow>
      \<exists>s'. get s = Some (x, s') \<and> pending s' = xs \<and> inv s'"
begin

fun drain :: "nat \<Rightarrow> 's \<Rightarrow> 'a list" where
  "drain 0 s = []"
| "drain (Suc n) s = (case get s of None \<Rightarrow> [] | Some (x, s') \<Rightarrow> x # drain n s')"

lemma drain_take: "inv s \<Longrightarrow> drain n s = take n (pending s)"
proof (induction n arbitrary: s)
  case 0
  then show ?case by simp
next
  case (Suc n)
  show ?case
  proof (cases "pending s")
    case Nil
    with Suc.prems show ?thesis by (simp add: get_empty)
  next
    case (Cons x xs)
    from get_item [OF Suc.prems Cons] obtain s' where
      "get s = Some (x, s')" "pending s' = xs" "inv s'" by blast
    with Suc.IH [of s'] Cons show ?thesis by simp
  qed
qed

lemma drain_all: "inv s \<Longrightarrow> length (pending s) \<le> n \<Longrightarrow> drain n s = pending s"
  by (simp add: drain_take)

end

end
