(* ===== verification/Fox_Log.thy ===== *)
theory Fox_Log
  imports Fox_TSDB Store_Interfaces
begin

text \<open>
  What a day file means: the sequence of entries its bytes encode, and the correctness of the
  writing half of the store against it. The header layout round-trips, opening a file finds
  its end, and each successful write appends exactly one entry.
\<close>

section \<open>Header layout\<close>

lemma length_head_bytes [simp, bytes_simps]: "length (head_bytes pad h) = 20 + length pad"
  by (simp add: head_bytes_def)

lemma word_le_bytes_roundtrip [bytes_simps]:
  fixes x :: "'a::len word"
  assumes "256 ^ n = (2::nat) ^ LENGTH('a)"
  shows "(word_of_nat (le_val (le_bytes n (unat x))) :: 'a word) = x"
  using assms by (simp add: le_val_le_bytes)

lemma head_of_head_bytes [simp, bytes_simps]: "head_of (head_bytes pad h @ rest) = h"
proof -
  let ?p = "le_bytes 4 (unat (h_prev h))" and ?n = "le_bytes 4 (unat (h_next h))"
    and ?t = "le_bytes 8 (unat (h_t_us h))" and ?m = "le_bytes 2 (unat (h_magic h))"
    and ?f = "le_bytes 2 (unat (h_flag h))"
  have "bslice 0 4 (head_bytes pad h @ rest) = ?p"
    and "bslice 4 4 (head_bytes pad h @ rest) = ?n"
    and "bslice 8 8 (head_bytes pad h @ rest) = ?t"
    and "bslice 16 2 (head_bytes pad h @ rest) = ?m"
    and "bslice 18 2 (head_bytes pad h @ rest) = ?f"
    by (simp_all add: head_bytes_def bslice_def)
  then show ?thesis
    by (simp add: head_of_def word_le_bytes_roundtrip)
qed

lemma head_of_append:
  assumes "20 \<le> length bs"
  shows "head_of (bs @ rest) = head_of bs"
  using assms by (simp add: head_of_def bslice_def)

definition head_at :: "byte list \<Rightarrow> nat \<Rightarrow> fox_head" where
  "head_at bs p = head_of (bslice p HEAD_SIZE bs)"

lemma head_of_slice_append [simp]:
  "p + HEAD_SIZE \<le> length bs \<Longrightarrow> head_of (bslice p HEAD_SIZE bs @ rest) = head_at bs p"
  unfolding head_at_def by (rule head_of_append) (simp add: length_bslice)

section \<open>Entries of a day file\<close>

record fox_entry =
  e_prev :: u32
  e_us :: fox_time_t
  e_data :: "byte list"

definition entry_size :: "fox_entry \<Rightarrow> nat" where
  "entry_size e = HEAD_SIZE + length (e_data e)"

definition log_size :: "fox_entry list \<Rightarrow> nat" where
  "log_size es = sum_list (map entry_size es)"

lemma log_size_simps [simp]:
  "log_size [] = 0" "log_size (e # es) = entry_size e + log_size es"
  "log_size (es @ fs) = log_size es + log_size fs"
  by (simp_all add: log_size_def)

text \<open>
  \<open>fox_log base bs es\<close>: the bytes from file offset \<open>base\<close> on are the entries \<open>es\<close>, each header
  naming the offset of its successor. The back references are whatever the entries record.
\<close>

fun fox_log :: "nat \<Rightarrow> byte list \<Rightarrow> fox_entry list \<Rightarrow> bool" where
  "fox_log base bs [] \<longleftrightarrow> bs = []"
| "fox_log base bs (e # es) \<longleftrightarrow>
     entry_size e \<le> length bs \<and>
     head_at bs 0 = \<lparr>h_prev = e_prev e, h_next = word_of_nat (base + entry_size e), h_t_us = e_us e,
                     h_magic = FOX_MAGIC, h_flag = 0\<rparr> \<and>
     bslice HEAD_SIZE (length (e_data e)) bs = e_data e \<and>
     fox_log (base + entry_size e) (drop (entry_size e) bs) es"

lemma fox_log_length: "fox_log base bs es \<Longrightarrow> length bs = log_size es"
proof (induction es arbitrary: base bs)
  case Nil
  then show ?case by simp
next
  case (Cons e es)
  then have "fox_log (base + entry_size e) (drop (entry_size e) bs) es" and n: "entry_size e \<le> length bs"
    by auto
  from Cons.IH [OF this(1)] n show ?case by simp
qed

lemma bslice_take: "off + n \<le> m \<Longrightarrow> bslice off n (take m bs) = bslice off n bs"
  by (simp add: bslice_def drop_take min_def)

lemma head_at_append: "HEAD_SIZE \<le> length bs \<Longrightarrow> head_at (bs @ cs) 0 = head_at bs 0"
  by (simp add: head_at_def bslice_def)

lemma fox_log_appendI:
  "fox_log base bs es \<Longrightarrow> fox_log (base + log_size es) cs fs \<Longrightarrow> fox_log base (bs @ cs) (es @ fs)"
proof (induction es arbitrary: base bs)
  case Nil
  then show ?case by simp
next
  case (Cons e es)
  let ?n = "entry_size e"
  from Cons.prems have n: "?n \<le> length bs" "HEAD_SIZE \<le> length bs" by (auto simp: entry_size_def)
  from Cons.prems have "fox_log (base + ?n) (drop ?n bs @ cs) (es @ fs)"
    by (intro Cons.IH) (simp_all add: add.assoc)
  moreover have "bslice HEAD_SIZE (length (e_data e)) (bs @ cs) = bslice HEAD_SIZE (length (e_data e)) bs"
    using n by (simp add: bslice_def entry_size_def)
  ultimately show ?case using Cons.prems n by (simp add: head_at_append)
qed

lemma fox_log_appendD:
  "fox_log base bs (es @ fs) \<Longrightarrow> fox_log (base + log_size es) (drop (log_size es) bs) fs"
proof (induction es arbitrary: base bs)
  case Nil
  then show ?case by simp
next
  case (Cons e es)
  then have "fox_log (base + entry_size e) (drop (entry_size e) bs) (es @ fs)" by simp
  from Cons.IH [OF this] show ?case by (simp add: ac_simps)
qed

text \<open>Reading an entry of a file at the offset of that entry.\<close>

lemma fox_log_entry:
  assumes "fox_log 0 bs (es @ e # fs)"
  shows "head_at bs (log_size es) = \<lparr>h_prev = e_prev e, h_next = word_of_nat (log_size (es @ [e])),
           h_t_us = e_us e, h_magic = FOX_MAGIC, h_flag = 0\<rparr>"
    and "bslice (log_size es + HEAD_SIZE) (length (e_data e)) bs = e_data e"
    and "log_size es + entry_size e \<le> length bs"
proof -
  from fox_log_appendD [OF assms]
  have l: "fox_log (log_size es) (drop (log_size es) bs) (e # fs)" by simp
  then show "head_at bs (log_size es) = \<lparr>h_prev = e_prev e, h_next = word_of_nat (log_size (es @ [e])),
      h_t_us = e_us e, h_magic = FOX_MAGIC, h_flag = 0\<rparr>"
    by (simp add: head_at_def bslice_def)
  from l show "bslice (log_size es + HEAD_SIZE) (length (e_data e)) bs = e_data e"
    by (simp add: bslice_def add.commute)
  from fox_log_length [OF assms] show "log_size es + entry_size e \<le> length bs" by simp
qed

section \<open>Reading headers through the file interface\<close>

lemma read_head_hit:
  assumes "files w f = Some bs" and "p + HEAD_SIZE \<le> length bs" and "h_magic (head_at bs p) = FOX_MAGIC"
  shows "fox_read_head fd hb (at_off w fd f p) =
    (int HEAD_SIZE, bslice p HEAD_SIZE bs @ drop HEAD_SIZE hb, at_off w fd f (p + HEAD_SIZE))"
  using assms
  by (simp add: fox_read_head_def read_at length_bslice Let_def)

lemma read_head_eof:
  assumes "files w f = Some bs" and "length bs \<le> p"
  shows "fox_read_head fd hb (at_off w fd f p) = (0, hb, at_off w fd f p)"
  using assms
  by (simp add: fox_read_head_def read_at Let_def)

text \<open>Seeking to an entry and reading its header, the step every cursor loop makes.\<close>

lemma read_head_entry:
  assumes "files w f = Some bs" and "fox_log 0 bs (es @ e # fs)"
  shows "\<exists>hb'. fox_read_head fd hb (at_off w fd f (log_size es)) =
      (int HEAD_SIZE, hb', at_off w fd f (log_size es + HEAD_SIZE)) \<and>
    head_of hb' = \<lparr>h_prev = e_prev e, h_next = word_of_nat (log_size (es @ [e])),
      h_t_us = e_us e, h_magic = FOX_MAGIC, h_flag = 0\<rparr>"
proof -
  note e = fox_log_entry [OF assms(2)]
  have le: "log_size es + HEAD_SIZE \<le> length bs" using e(3) by (simp add: entry_size_def)
  show ?thesis
    using read_head_hit [OF assms(1) le] e(1) le by simp
qed

section \<open>Opening a file for writing\<close>

text \<open>
  \<open>env_ok\<close>: every system call of a write succeeds and transfers all its bytes.
\<close>

definition env_ok :: "fox_env \<Rightarrow> byte list \<Rightarrow> bool" where
  "env_ok ev data \<longleftrightarrow> 0 \<le> ev_open ev \<and> 0 \<le> ev_lock ev \<and> 0 \<le> ev_ulock ev \<and> ev_wr_head ev = int HEAD_SIZE
     \<and> ev_wr_data ev = int (length data) \<and> length (ev_stack ev) = HEAD_SIZE"

text \<open>
  The scan of an existing file stops at its end; the back reference it keeps is the one stored
  in the last header it read.
\<close>

lemma check_head_loop_log:
  assumes "fds w fd = Some (f, n)" and "files w f = Some bs" and "fox_log 0 bs (es @ fs)"
    and "length bs < 2 ^ 32"
  shows "fox_check_head_loop fd (int (log_size es)) hb pman w =
    Some (0, pman\<lparr>pm_last_pos := uint (if fs = [] then h_prev (head_of hb) else e_prev (last fs)),
                  pm_pos := int (length bs)\<rparr>, at_off w fd f (length bs))"
  using assms
proof (induction fs arbitrary: es hb w n)
  case Nil
  then have len: "length bs = log_size es" by (simp add: fox_log_length)
  have "fox_read_head fd hb (at_off w fd f (log_size es)) = (0, hb, at_off w fd f (log_size es))"
    using Nil.prems len by (intro read_head_eof) auto
  with Nil.prems show ?case
    by (subst fox_check_head_loop.simps) (simp add: lseek_at len)
next
  case (Cons e fs)
  from read_head_entry [OF Cons.prems(2,3), of fd hb] obtain hb' where
    rd: "fox_read_head fd hb (at_off w fd f (log_size es)) =
      (int HEAD_SIZE, hb', at_off w fd f (log_size es + HEAD_SIZE))"
    and hd: "head_of hb' = \<lparr>h_prev = e_prev e, h_next = word_of_nat (log_size (es @ [e])),
      h_t_us = e_us e, h_magic = FOX_MAGIC, h_flag = 0\<rparr>"
    by blast
  let ?w = "at_off w fd f (log_size es + HEAD_SIZE)"
  have "log_size (es @ [e]) \<le> length bs"
    using fox_log_length [OF Cons.prems(3)] by simp
  then have nx: "uint (h_next (head_of hb')) = int (log_size (es @ [e]))"
    using Cons.prems(4) by (simp add: hd unsigned_of_nat take_bit_nat_eq_self del: of_nat_add log_size_simps)
  have "fox_check_head_loop fd (int (log_size (es @ [e]))) hb' pman ?w =
    Some (0, pman\<lparr>pm_last_pos := uint (if fs = [] then h_prev (head_of hb') else e_prev (last fs)),
                  pm_pos := int (length bs)\<rparr>, at_off ?w fd f (length bs))"
    using Cons.prems by (intro Cons.IH [of _ "log_size es + HEAD_SIZE"]) simp_all
  with Cons.prems(1) rd nx show ?case
    by (subst fox_check_head_loop.simps) (simp add: lseek_at hd)
qed

lemma fox_check_head_log:
  assumes "fds w fd = Some (f, n)" and "files w f = Some bs" and "fox_log 0 bs es"
    and "length bs < 2 ^ 32"
  shows "fox_check_head ev fd pman w =
    Some (0, pman\<lparr>pm_last_pos := (if es = [] then 0 else uint (e_prev (last es))),
                  pm_pos := int (length bs)\<rparr>, at_off w fd f (length bs))"
proof -
  have "h_prev (head_of (le_bytes 4 0 @ x)) = 0" for x
    by (simp add: head_of_def bslice_def le_val_le_bytes)
  with check_head_loop_log [of w fd f n bs "[]" es] assms show ?thesis
    by (simp add: fox_check_head_def)
qed

lemma fox_setup_write_log:
  assumes "files w (pack_fname p) = Some bs \<or> files w (pack_fname p) = None \<and> bs = []"
    and "fox_log 0 bs es" and "length bs < 2 ^ 32"
    and "0 \<le> ev_open ev" and "0 \<le> ev_lock ev" and "0 \<le> ev_ulock ev"
  shows "fox_setup_write ev pman p us w =
    Some (ev_ulock ev,
      pman\<lparr>pm_now := us, pm_pos := int (length bs),
            pm_last_pos := (if es = [] then 0 else uint (e_prev (last es))),
            pm_fd := ev_open ev, pm_year := d_year p, pm_mon := d_mon p, pm_mday := d_mday p\<rparr>,
      w\<lparr>files := (files w)(pack_fname p \<mapsto> bs),
        fds := (fds w)(ev_open ev \<mapsto> (pack_fname p, length bs))\<rparr>)"
proof -
  let ?f = "pack_fname p" and ?fd = "ev_open ev"
  let ?w1 = "w\<lparr>files := (files w)(?f \<mapsto> bs), fds := (fds w)(?fd \<mapsto> (?f, 0))\<rparr>"
  have "(files w)(?f \<mapsto> bs) = files w" if "files w ?f = Some bs"
    using that by auto
  then have op: "sys_open_append ?f ?fd w = (?fd, ?w1)"
    using assms(1,4) by (auto simp: sys_open_append_def)
  have "fox_check_head ev ?fd (pman\<lparr>pm_fd := ?fd\<rparr>) ?w1 =
    Some (0, pman\<lparr>pm_fd := ?fd, pm_last_pos := (if es = [] then 0 else uint (e_prev (last es))),
                  pm_pos := int (length bs)\<rparr>, at_off ?w1 ?fd ?f (length bs))"
    using assms by (subst fox_check_head_log [of _ _ ?f 0 bs es]) auto
  then show ?thesis
    using assms(4-6) by (simp add: fox_setup_write_def op fox_check_def Let_def at_off_def)
qed

section \<open>Appending\<close>

definition entry_of :: "fox_manager \<Rightarrow> fox_time_t \<Rightarrow> byte list \<Rightarrow> fox_entry" where
  "entry_of pman us data = \<lparr>e_prev = word_of_int (pm_last_pos pman), e_us = us, e_data = data\<rparr>"

lemma fox_log_single:
  assumes "h_prev h = e_prev e" "h_next h = word_of_nat (base + entry_size e)" "h_t_us h = e_us e"
    "h_magic h = FOX_MAGIC" "h_flag h = 0" "length pad = 4"
  shows "fox_log base (head_bytes pad h @ e_data e) [e]"
proof -
  have "head_at (head_bytes pad h @ e_data e) 0 = h"
    using assms(6) head_of_head_bytes [of pad h "[]"] by (simp add: head_at_def bslice_def)
  then show ?thesis
    using assms by (simp add: entry_size_def bslice_def fox_head.equality)
qed

lemma fox_write_data_log:
  assumes op: "opened w (pm_fd pman) f bs" and log: "fox_log 0 bs es" and pos: "pm_pos pman = int (length bs)"
    and env: "env_ok ev data" and room: "length bs + HEAD_SIZE + length data < 2 ^ 32"
  shows "\<exists>bs' n. fox_write_data ev pman us data w =
      (ev_ulock ev, pman\<lparr>pm_now := us, pm_last_pos := int (length bs), pm_pos := int (length bs')\<rparr>,
       w\<lparr>files := (files w)(f \<mapsto> bs'), fds := (fds w)(pm_fd pman \<mapsto> (f, n))\<rparr>)
    \<and> fox_log 0 bs' (es @ [entry_of pman us data])
    \<and> length bs' = length bs + HEAD_SIZE + length data"
proof -
  let ?h = "new_head pman us (int (length data))" and ?pad = "drop 20 (ev_stack ev)"
  let ?hb = "head_bytes ?pad ?h" and ?e = "entry_of pman us data"
  have lhb: "length ?hb = HEAD_SIZE" using env by (simp add: env_ok_def)
  have next_nat: "h_next ?h = word_of_nat (length bs + entry_size ?e)"
    using pos by (simp add: new_head_def entry_of_def entry_size_def)
  have next_val: "uint (h_next ?h) = int (length bs + HEAD_SIZE + length data)"
    using room unfolding next_nat
    by (simp add: unsigned_of_nat take_bit_nat_eq_self entry_size_def entry_of_def del: of_nat_add)
  let ?w1 = "w\<lparr>files := (files w)(f \<mapsto> bs @ ?hb), fds := (fds w)(pm_fd pman \<mapsto> (f, length bs + HEAD_SIZE))\<rparr>"
  have w1: "sys_write (pm_fd pman) ?hb 24 w = (24, ?w1)"
    using env write_opened [OF op, of "int HEAD_SIZE" ?hb] lhb by (simp add: env_ok_def)
  have op1: "opened ?w1 (pm_fd pman) f (bs @ ?hb)" by (simp add: opened_def)
  have w2: "sys_write (pm_fd pman) data (int (length data)) ?w1 = (int (length data),
      w\<lparr>files := (files w)(f \<mapsto> bs @ ?hb @ data),
        fds := (fds w)(pm_fd pman \<mapsto> (f, length bs + HEAD_SIZE + length data))\<rparr>)"
    using env write_opened [OF op1, of "int (length data)" data] lhb by (simp add: env_ok_def)
  have "fox_log (0 + log_size es) (?hb @ data) [?e]"
    using fox_log_single [of ?h ?e "log_size es" ?pad] env next_nat fox_log_length [OF log]
    by (simp add: new_head_def entry_of_def env_ok_def)
  then have "fox_log 0 (bs @ ?hb @ data) (es @ [?e])"
    by (rule fox_log_appendI [OF log])
  moreover have "fox_write_data ev pman us data w =
      (ev_ulock ev, pman\<lparr>pm_now := us, pm_last_pos := int (length bs), pm_pos := int (length (bs @ ?hb @ data))\<rparr>,
       w\<lparr>files := (files w)(f \<mapsto> bs @ ?hb @ data),
         fds := (fds w)(pm_fd pman \<mapsto> (f, length bs + HEAD_SIZE + length data))\<rparr>)"
    using env lhb by (simp add: fox_write_data_def Let_def w1 w2 env_ok_def next_val pos)
  ultimately show ?thesis using lhb by (intro exI conjI) auto
qed

end
