(* ===== verification/Fox_Write.thy ===== *)
theory Fox_Write
  imports Fox_Log
begin

text \<open>
  The writer of the time-series store as an append store: an executable decoder gives the
  entries of a day file, and \<open>fox_write\<close> extends that sequence by exactly the record it was
  given, refuses a record older than the last one, and switches files when the day changes.
\<close>

section \<open>Decoding a day file\<close>

fun log_entries :: "nat \<Rightarrow> nat \<Rightarrow> byte list \<Rightarrow> fox_entry list" where
  "log_entries 0 base bs = []"
| "log_entries (Suc n) base bs =
     (if length bs < HEAD_SIZE then []
      else
        (let h = head_at bs 0; sz = unat (h_next h) - base
         in if h_magic h \<noteq> FOX_MAGIC \<or> sz < HEAD_SIZE \<or> length bs < sz then []
            else \<lparr>e_prev = h_prev h, e_us = h_t_us h, e_data = bslice HEAD_SIZE (sz - HEAD_SIZE) bs\<rparr>
                 # log_entries n (base + sz) (drop sz bs)))"

lemma length_entries_le: "fox_log base bs es \<Longrightarrow> length es \<le> length bs"
proof -
  assume "fox_log base bs es"
  moreover have "length es \<le> log_size es"
    by (induction es) (auto simp: entry_size_def)
  ultimately show ?thesis by (simp add: fox_log_length)
qed

lemma log_entries_log:
  "fox_log base bs es \<Longrightarrow> base + length bs < 2 ^ 32 \<Longrightarrow> length es \<le> n \<Longrightarrow> log_entries n base bs = es"
proof (induction es arbitrary: base bs n)
  case Nil
  then show ?case by (cases n) auto
next
  case (Cons e es)
  then obtain m where m: "n = Suc m" "length es \<le> m" by (cases n) auto
  from Cons.prems have sz: "entry_size e \<le> length bs" by simp
  then have nx: "unat (word_of_nat (base + entry_size e) :: u32) - base = entry_size e"
    using Cons.prems(2) by (subst unat_of_nat_small) simp_all
  have "log_entries m (base + entry_size e) (drop (entry_size e) bs) = es"
    using Cons.prems m sz by (intro Cons.IH) auto
  then show ?case
    using Cons.prems(1) m sz nx by (simp add: Let_def entry_size_def del: of_nat_add)
qed

definition file_records :: "byte list \<Rightarrow> (fox_time_t \<times> byte list) list" where
  "file_records bs = map (\<lambda>e. (e_us e, e_data e)) (log_entries (length bs) 0 bs)"

lemma file_records_log:
  assumes "fox_log 0 bs es" and "length bs < 2 ^ 32"
  shows "file_records bs = map (\<lambda>e. (e_us e, e_data e)) es"
  using log_entries_log [OF assms(1) _ length_entries_le [OF assms(1)]] assms(2)
  by (simp add: file_records_def)

section \<open>The writer's invariant\<close>

text \<open>
  The descriptor is open on a well-formed file whose end is the write position, stamps never
  decrease, and the manager's \<open>now\<close> is not before the last stamp.
\<close>

definition writer_inv :: "fox_manager \<Rightarrow> world \<Rightarrow> string \<Rightarrow> byte list \<Rightarrow> fox_entry list \<Rightarrow> bool" where
  "writer_inv pman w f bs es \<longleftrightarrow> opened w (pm_fd pman) f bs \<and> fox_log 0 bs es \<and>
     pm_pos pman = int (length bs) \<and> length bs < 2 ^ 32 \<and>
     sorted (map e_us es) \<and> (\<forall>e \<in> set es. e_us e \<le> pm_now pman)"

text \<open>The back references form a chain: each entry names the offset of the entry before it.\<close>

fun linked :: "nat \<Rightarrow> nat \<Rightarrow> fox_entry list \<Rightarrow> bool" where
  "linked prev base [] \<longleftrightarrow> True"
| "linked prev base (e # es) \<longleftrightarrow> e_prev e = word_of_nat prev \<and> linked base (base + entry_size e) es"

definition last_off :: "fox_entry list \<Rightarrow> nat" where
  "last_off es = log_size (butlast es)"

lemma linked_snoc:
  "linked prev base (es @ [e]) \<longleftrightarrow> linked prev base es \<and>
     e_prev e = word_of_nat (if es = [] then prev else base + last_off es)"
proof (induction es arbitrary: prev base)
  case Nil
  then show ?case by simp
next
  case (Cons x es)
  show ?case
    using Cons [of base "base + entry_size x"]
    by (cases "es = []") (simp_all add: last_off_def ac_simps del: of_nat_add)
qed

lemma write_data_writer_inv:
  assumes "writer_inv pman w f bs es" and "env_ok ev data" and "pm_now pman \<le> us"
    and "length bs + HEAD_SIZE + length data < 2 ^ 32"
  shows "\<exists>pman' w' bs'. fox_write_data ev pman us data w = (ev_ulock ev, pman', w') \<and>
    writer_inv pman' w' f bs' (es @ [entry_of pman us data]) \<and>
    pm_fd pman' = pm_fd pman \<and> pm_last_pos pman' = int (length bs) \<and> pm_now pman' = us \<and>
    (\<forall>g. g \<noteq> f \<longrightarrow> files w' g = files w g) \<and> length bs' = length bs + HEAD_SIZE + length data \<and>
    pm_year pman' = pm_year pman \<and> pm_mon pman' = pm_mon pman \<and> pm_mday pman' = pm_mday pman"
proof -
  from fox_write_data_log [of w pman f bs es ev data us] assms obtain bs' n where
    "fox_write_data ev pman us data w =
      (ev_ulock ev, pman\<lparr>pm_now := us, pm_last_pos := int (length bs), pm_pos := int (length bs')\<rparr>,
       w\<lparr>files := (files w)(f \<mapsto> bs'), fds := (fds w)(pm_fd pman \<mapsto> (f, n))\<rparr>)"
    "fox_log 0 bs' (es @ [entry_of pman us data])"
    "length bs' = length bs + HEAD_SIZE + length data"
    unfolding writer_inv_def by blast
  moreover have "sorted (map e_us (es @ [entry_of pman us data]))"
    "\<forall>e \<in> set (es @ [entry_of pman us data]). e_us e \<le> us"
    using assms unfolding writer_inv_def by (auto simp: entry_of_def sorted_append)
  ultimately show ?thesis
    using assms(4) unfolding writer_inv_def by (auto simp: opened_def)
qed

lemma writer_inv_new_day [simp]:
  "writer_inv (pman\<lparr>pm_new_day := d\<rparr>) = writer_inv pman"
  by (simp add: writer_inv_def fun_eq_iff)

lemma writer_inv_records:
  "writer_inv pman w f bs es \<Longrightarrow> file_records bs = map (\<lambda>e. (e_us e, e_data e)) es"
  by (simp add: writer_inv_def file_records_log)

lemma entry_of_new_day [simp]: "entry_of (pman\<lparr>pm_new_day := d\<rparr>) = entry_of pman"
  by (simp add: entry_of_def fun_eq_iff)

section \<open>Same-day writes\<close>

lemma fox_write_same_day:
  assumes "check_pman_date pman d"
  shows "fox_write ev0 ev pman d us data w =
    Some (if pm_now pman \<le> us then fox_write_data ev (pman\<lparr>pm_new_day := 0\<rparr>) us data w
          else (0, pman\<lparr>pm_new_day := 0\<rparr>, w))"
  using assms by (simp add: fox_write_def Let_def)

lemma fox_write_other_day:
  assumes "\<not> check_pman_date pman d"
    and "fox_setup_write ev0 pman d us (sys_close (pm_fd pman) w) = Some (res, pman1, w1)"
    and "0 \<le> res"
  shows "fox_write ev0 ev pman d us data w =
    Some (if pm_now pman1 \<le> us then fox_write_data ev (pman1\<lparr>pm_new_day := 1\<rparr>) us data w1
          else (res, pman1\<lparr>pm_new_day := 1\<rparr>, w1))"
  using assms by (simp add: fox_write_def Let_def)

section \<open>The writer as an append store\<close>

type_synonym fox_writer = "fox_env \<times> fox_manager \<times> world"

definition full_env :: "fox_env \<Rightarrow> byte list \<Rightarrow> fox_env" where
  "full_env ev data = ev\<lparr>ev_wr_head := int HEAD_SIZE, ev_wr_data := int (length data)\<rparr>"

fun fox_append :: "fox_time_t \<times> byte list \<Rightarrow> fox_writer \<Rightarrow> fox_writer" where
  "fox_append (us, data) (ev, pman, w) =
     (case fox_write ev (full_env ev data) pman (day_start pman) us data w of
        Some (_, pman', w') \<Rightarrow> (ev, pman', w') | None \<Rightarrow> (ev, pman, w))"

fun writer_records :: "fox_writer \<Rightarrow> (fox_time_t \<times> byte list) list" where
  "writer_records (ev, pman, w) = (case fd_content w (pm_fd pman) of Some bs \<Rightarrow> file_records bs | None \<Rightarrow> [])"

fun writer_ok :: "fox_writer \<Rightarrow> bool" where
  "writer_ok (ev, pman, w) \<longleftrightarrow> 0 \<le> ev_open ev \<and> 0 \<le> ev_lock ev \<and> 0 \<le> ev_ulock ev \<and>
     length (ev_stack ev) = HEAD_SIZE \<and> (\<exists>f bs es. writer_inv pman w f bs es)"

fun record_fits :: "fox_writer \<Rightarrow> fox_time_t \<times> byte list \<Rightarrow> bool" where
  "record_fits (ev, pman, w) (us, data) \<longleftrightarrow> pm_now pman \<le> us \<and>
     pm_pos pman + int HEAD_SIZE + int (length data) < 2 ^ 32"

lemma day_start_check [simp]: "check_pman_date pman (day_start pman)"
  by (simp add: check_pman_date_def day_start_def)

lemma writer_records_inv:
  assumes "writer_inv pman w f bs es"
  shows "writer_records (ev, pman, w) = map (\<lambda>e. (e_us e, e_data e)) es"
  using assms by (auto simp: writer_inv_def file_records_log dest: opened_content)

lemma fox_append_step:
  assumes "writer_ok (ev, pman, w)" and "record_fits (ev, pman, w) (us, data)"
  shows "\<exists>pman' w' f bs bs' es. fox_append (us, data) (ev, pman, w) = (ev, pman', w') \<and>
    writer_inv pman w f bs es \<and> writer_inv pman' w' f bs' (es @ [entry_of pman us data]) \<and>
    pm_now pman' = us \<and> pm_pos pman' = pm_pos pman + int HEAD_SIZE + int (length data)"
proof -
  from assms(1) obtain f bs es where inv: "writer_inv pman w f bs es" by auto
  have "env_ok (full_env ev data) data"
    using assms(1) by (simp add: env_ok_def full_env_def)
  moreover have "length bs + HEAD_SIZE + length data < 2 ^ 32"
    using assms(2) inv by (simp add: writer_inv_def)
  ultimately obtain pman' w' bs' where
    "fox_write_data (full_env ev data) (pman\<lparr>pm_new_day := 0\<rparr>) us data w =
       (ev_ulock (full_env ev data), pman', w')"
    "writer_inv pman' w' f bs' (es @ [entry_of pman us data])"
    "pm_now pman' = us" "length bs' = length bs + HEAD_SIZE + length data"
    using write_data_writer_inv [of "pman\<lparr>pm_new_day := 0\<rparr>" w f bs es "full_env ev data" data us]
      inv assms(2) by auto
  then show ?thesis
    using inv assms(2) by (intro exI conjI) (auto simp: fox_write_same_day writer_inv_def)
qed

interpretation fox_writer: append_store writer_records writer_ok record_fits fox_append
proof
  fix s :: fox_writer and x :: "fox_time_t \<times> byte list"
  obtain ev pman w us data where s: "s = (ev, pman, w)" "x = (us, data)" by (metis prod_cases3 surj_pair)
  assume "writer_ok s" and "record_fits s x"
  from fox_append_step [OF this [unfolded s]] obtain pman' w' f bs bs' es where
    st: "fox_append (us, data) (ev, pman, w) = (ev, pman', w')" "writer_inv pman w f bs es"
    "writer_inv pman' w' f bs' (es @ [entry_of pman us data])"
    by blast
  show "writer_records (fox_append x s) = writer_records s @ [x]"
    using st by (simp add: s writer_records_inv entry_of_def del: writer_records.simps fox_append.simps)
  show "writer_ok (fox_append x s)"
    using st \<open>writer_ok s\<close> by (auto simp: s simp del: fox_append.simps)
qed

end
