(* ===== verification/Fox_Read.thy ===== *)
theory Fox_Read
  imports Fox_Write
begin

text \<open>
  The reader of the time-series store against the entries of a day file: where the two cursor
  movements stop, what one \<open>fox_read\<close> returns, and the whole scan as a drain source. All facts
  are for files below 2 GiB, the largest offset the source's \<open>int ret = lseek(...)\<close> can hold.
\<close>

section \<open>Cursor to the right\<close>

abbreviation off_of :: "fox_entry list \<Rightarrow> nat \<Rightarrow> nat" where
  "off_of es k \<equiv> log_size (take k es)"

text \<open>The stamp a cursor at the start of \<open>es\<close> shows: the first entry's, or the end of the day.\<close>

definition cursor_now :: "fox_env \<Rightarrow> fox_manager \<Rightarrow> fox_entry list \<Rightarrow> fox_time_t" where
  "cursor_now ev pman es = (case es of [] \<Rightarrow> fox_read_day_max ev pman | e # _ \<Rightarrow> e_us e)"

lemma day_max_frame [simp]:
  "fox_read_day_max ev (pman\<lparr>pm_pos := a\<rparr>) = fox_read_day_max ev pman"
  "fox_read_day_max ev (pman\<lparr>pm_now := b\<rparr>) = fox_read_day_max ev pman"
  "fox_read_day_max ev (pman\<lparr>pm_last_pos := a\<rparr>) = fox_read_day_max ev pman"
  "fox_read_day_max ev (pman\<lparr>pm_fsize := b\<rparr>) = fox_read_day_max ev pman"
  by (simp_all add: fox_read_day_max_def day_start_def)

lemma cursor_now_frame [simp]:
  "cursor_now ev (pman\<lparr>pm_pos := a\<rparr>) es = cursor_now ev pman es"
  "cursor_now ev (pman\<lparr>pm_now := b\<rparr>) es = cursor_now ev pman es"
  "cursor_now ev (pman\<lparr>pm_last_pos := a\<rparr>) es = cursor_now ev pman es"
  "cursor_now ev (pman\<lparr>pm_fsize := b\<rparr>) es = cursor_now ev pman es"
  by (simp_all add: cursor_now_def split: list.split)

lemma to_size_nat: "to_size (int n) = word_of_nat n"
  by (simp add: to_size_def)

lemma size_eq_nat [c_arith]:
  "m < 2 ^ 64 \<Longrightarrow> n < 2 ^ 64 \<Longrightarrow> (to_size (int m) = word_of_nat n) = (m = n)"
  using to_size_eq_iff [of "int m" "int n"] by (simp add: to_size_nat)

lemma size_less_nat [c_arith]:
  "m < 2 ^ 64 \<Longrightarrow> n < 2 ^ 64 \<Longrightarrow> (to_size (int m) < word_of_nat n) = (m < n)"
  "m < 2 ^ 64 \<Longrightarrow> n < 2 ^ 64 \<Longrightarrow> (word_of_nat n < to_size (int m)) = (n < m)"
  using to_size_less_iff [of "int m" "int n"] to_size_less_iff [of "int n" "int m"]
  by (simp_all add: to_size_nat)

lemma cursor_right_loop_log:
  assumes "fds w fd = Some (f, n)" and "files w f = Some bs" and "fox_log 0 bs (xs @ ys)"
    and "length bs < 2 ^ 31" and "pm_fsize pman = word_of_nat (length bs)"
  shows "\<exists>m. fox_cursor_right_loop ev fd lp (int (log_size xs)) hb pman us w =
    (let zs = takeWhile (\<lambda>e. e_us e < us) ys; rs = dropWhile (\<lambda>e. e_us e < us) ys
     in Some (0, pman\<lparr>pm_pos := int (log_size (xs @ zs)), pm_now := cursor_now ev pman rs,
                pm_last_pos := (if zs = [] then lp else int (log_size (xs @ butlast zs)))\<rparr>,
              at_off w fd f m))"
  using assms
proof (induction ys arbitrary: xs lp hb w n)
  case Nil
  then have len: "length bs = log_size xs" by (simp add: fox_log_length)
  show ?case
    using Nil.prems len
    by (subst fox_cursor_right_loop.simps)
      (auto simp: to_size_nat cursor_now_def intro!: exI [of _ n])
next
  case (Cons e ys)
  from read_head_entry [OF Cons.prems(2,3), of fd hb] obtain hb' where
    rd: "fox_read_head fd hb (at_off w fd f (log_size xs)) =
      (int HEAD_SIZE, hb', at_off w fd f (log_size xs + HEAD_SIZE))"
    and hd: "head_of hb' = \<lparr>h_prev = e_prev e, h_next = word_of_nat (log_size (xs @ [e])),
      h_t_us = e_us e, h_magic = FOX_MAGIC, h_flag = 0\<rparr>"
    by blast
  let ?w = "at_off w fd f (log_size xs + HEAD_SIZE)"
  from fox_log_entry(3) [OF Cons.prems(3)] have le: "log_size (xs @ [e]) \<le> length bs" by simp
  then have lt: "log_size xs < length bs" by (simp add: entry_size_def)
  have nx: "uint (h_next (head_of hb')) = int (log_size (xs @ [e]))"
    unfolding hd using le Cons.prems(4) by (simp add: uint_of_nat_small del: of_nat_add log_size_simps)
  have cmp: "to_size (int (log_size xs)) \<noteq> pm_fsize pman" "\<not> pm_fsize pman < to_size (int (log_size xs))"
    "to_c_int (int (log_size xs)) = int (log_size xs)"
    using lt Cons.prems(4,5) by (simp_all add: size_eq_nat size_less_nat to_c_int_nonneg)
  show ?case
  proof (cases "e_us e < us")
    case False
    then show ?thesis
      using Cons.prems(1) cmp rd
      by (subst fox_cursor_right_loop.simps)
        (auto simp: lseek_at hd cursor_now_def not_less intro!: exI [of _ "log_size xs + HEAD_SIZE"])
  next
    case True
    then have nle: "(us \<le> e_us e) = False" by simp
    have "\<exists>m. fox_cursor_right_loop ev fd (int (log_size xs)) (int (log_size (xs @ [e]))) hb' pman us ?w =
      (let zs = takeWhile (\<lambda>e. e_us e < us) ys; rs = dropWhile (\<lambda>e. e_us e < us) ys
       in Some (0, pman\<lparr>pm_pos := int (log_size ((xs @ [e]) @ zs)), pm_now := cursor_now ev pman rs,
                  pm_last_pos := (if zs = [] then int (log_size xs)
                                  else int (log_size ((xs @ [e]) @ butlast zs)))\<rparr>,
                at_off ?w fd f m))"
      using Cons.prems by (intro Cons.IH) simp_all
    then obtain m where
      rec: "fox_cursor_right_loop ev fd (int (log_size xs)) (int (log_size (xs @ [e]))) hb' pman us ?w =
      (let zs = takeWhile (\<lambda>e. e_us e < us) ys; rs = dropWhile (\<lambda>e. e_us e < us) ys
       in Some (0, pman\<lparr>pm_pos := int (log_size ((xs @ [e]) @ zs)), pm_now := cursor_now ev pman rs,
                  pm_last_pos := (if zs = [] then int (log_size xs)
                                  else int (log_size ((xs @ [e]) @ butlast zs)))\<rparr>,
                at_off ?w fd f m))"
      by blast
    have "fox_cursor_right_loop ev fd lp (int (log_size xs)) hb pman us w =
        fox_cursor_right_loop ev fd (int (log_size xs)) (int (log_size (xs @ [e]))) hb' pman us ?w"
      using Cons.prems(1) cmp rd nx
      by (subst fox_cursor_right_loop.simps) (simp add: lseek_at hd nle)
    with rec True show ?thesis
      by (intro exI [of _ m]) (simp add: Let_def ac_simps)
  qed
qed

section \<open>Cursor to the left\<close>

lemma linked_nth:
  "linked prev base es \<Longrightarrow> i < length es \<Longrightarrow>
     e_prev (es ! i) = word_of_nat (if i = 0 then prev else base + off_of es (i - 1))"
proof (induction es arbitrary: prev base i)
  case Nil
  then show ?case by simp
next
  case (Cons e es)
  show ?case
  proof (cases i)
    case 0
    with Cons.prems show ?thesis by simp
  next
    case (Suc k)
    have "e_prev (es ! k) = word_of_nat (if k = 0 then base else base + entry_size e + off_of es (k - 1))"
      using Cons.prems Suc Cons.IH [of base "base + entry_size e" k] by simp
    then show ?thesis
      using Suc by (cases k) (simp_all add: ac_simps del: of_nat_add)
  qed
qed

lemma off_of_Suc: "k < length es \<Longrightarrow> off_of es (Suc k) = off_of es k + entry_size (es ! k)"
  by (simp add: take_Suc_conv_app_nth)

lemma off_of_mono: "i \<le> j \<Longrightarrow> off_of es i \<le> off_of es j"
proof -
  assume "i \<le> j"
  then have "take j es = take i es @ take (j - i) (drop i es)"
    by (metis le_add_diff_inverse take_add)
  then show ?thesis by simp
qed

lemma off_of_pos: "0 < k \<Longrightarrow> es \<noteq> [] \<Longrightarrow> 0 < off_of es k"
  by (cases k; cases es) (auto simp: entry_size_def)

lemma off_of_le: "fox_log 0 bs es \<Longrightarrow> off_of es k \<le> length bs"
  using off_of_mono [of k "max k (length es)" es] by (simp add: fox_log_length)

text \<open>Reading the header of entry \<open>k\<close>.\<close>

lemma read_head_nth:
  assumes "files w f = Some bs" and "fox_log 0 bs es" and "k < length es" and "length bs < 2 ^ 31"
  shows "\<exists>hb'. fox_read_head fd hb (at_off w fd f (off_of es k)) =
      (int HEAD_SIZE, hb', at_off w fd f (off_of es k + HEAD_SIZE)) \<and>
    h_prev (head_of hb') = e_prev (es ! k) \<and> uint (h_next (head_of hb')) = int (off_of es (Suc k)) \<and>
    h_t_us (head_of hb') = e_us (es ! k)"
proof -
  have split: "es = take k es @ es ! k # drop (Suc k) es"
    using assms(3) by (rule id_take_nth_drop)
  with assms(2) have log: "fox_log 0 bs (take k es @ es ! k # drop (Suc k) es)" by simp
  have sz: "log_size (take k es @ [es ! k]) = off_of es (Suc k)"
    using assms(3) by (simp add: take_Suc_conv_app_nth)
  have "off_of es (Suc k) < 2 ^ 32"
    using off_of_le [OF assms(2), of "Suc k"] assms(4) by simp
  then show ?thesis
    using read_head_entry [OF assms(1) log, of fd hb] unfolding sz
    by (auto simp: uint_of_nat_small simp del: of_nat_add)
qed

lemma cursor_left_step:
  assumes "fds w fd = Some (f, n)" and "files w f = Some bs" and "fox_log 0 bs es"
    and "linked 0 0 es" and "k < length es" and "length bs < 2 ^ 31"
  shows "\<exists>hb' m. fox_cursor_left_loop fd (int (off_of es k)) lt hb pman us w =
    (if e_us (es ! k) < us
     then Some (0, pman\<lparr>pm_pos := int (off_of es (Suc k)), pm_now := lt, pm_last_pos := int (off_of es k)\<rparr>,
                at_off w fd f m)
     else if k \<le> 1
     then Some (0, pman\<lparr>pm_pos := 0, pm_now := e_us (es ! k), pm_last_pos := 0\<rparr>, at_off w fd f m)
     else fox_cursor_left_loop fd (int (off_of es (k - 1))) (e_us (es ! k)) hb' pman us (at_off w fd f m))"
proof -
  from read_head_nth [OF assms(2,3,5,6), of fd hb] obtain hb' where
    rd: "fox_read_head fd hb (at_off w fd f (off_of es k)) =
      (int HEAD_SIZE, hb', at_off w fd f (off_of es k + HEAD_SIZE))"
    and hd: "h_prev (head_of hb') = e_prev (es ! k)" "uint (h_next (head_of hb')) = int (off_of es (Suc k))"
      "h_t_us (head_of hb') = e_us (es ! k)"
    by blast
  have bnd: "off_of es j < 2 ^ 31" for j
    using off_of_le [OF assms(3), of j] assms(6) by simp
  have pv: "uint (e_prev (es ! k)) = (if k = 0 then 0 else int (off_of es (k - 1)))"
    using linked_nth [OF assms(4,5)] bnd [of "k - 1"] by (simp add: uint_of_nat_small)
  have zero: "uint (e_prev (es ! k)) = 0 \<longleftrightarrow> k \<le> 1"
  proof (cases "k \<le> 1")
    case True
    then show ?thesis unfolding pv by (cases k) auto
  next
    case False
    then have "0 < off_of es (k - 1)" using assms(5) by (intro off_of_pos) auto
    with False pv show ?thesis by simp
  qed
  have c: "to_c_int (int (off_of es k)) = int (off_of es k)"
    using bnd by (simp add: to_c_int_nonneg)
  show ?thesis
    using assms(1) rd hd c pv zero
    by (intro exI [of _ hb'] exI [of _ "off_of es k + HEAD_SIZE"], subst fox_cursor_left_loop.simps)
      (simp add: lseek_at)
qed

text \<open>
  Moving left from entry \<open>i\<close> stops behind the last earlier entry that is before \<open>us\<close>, provided
  that entry is not the first one of the file.
\<close>

lemma cursor_left_finds:
  assumes "fds w fd = Some (f, n)" and "files w f = Some bs" and "fox_log 0 bs es"
    and "linked 0 0 es" and "length bs < 2 ^ 31"
    and "1 \<le> j" and "j < i" and "i < length es"
    and "e_us (es ! j) < us" and "\<forall>k. j < k \<and> k \<le> i \<longrightarrow> us \<le> e_us (es ! k)"
  shows "\<exists>m. fox_cursor_left_loop fd (int (off_of es i)) lt hb pman us w =
    Some (0, pman\<lparr>pm_pos := int (off_of es (Suc j)), pm_now := e_us (es ! Suc j),
                  pm_last_pos := int (off_of es j)\<rparr>, at_off w fd f m)"
  using assms
proof (induction i arbitrary: lt hb w n)
  case 0
  then show ?case by simp
next
  case (Suc i)
  from cursor_left_step [OF Suc.prems(1-4) Suc.prems(8,5), of lt hb pman us] obtain hb' m where
    st: "fox_cursor_left_loop fd (int (off_of es (Suc i))) lt hb pman us w =
      (if e_us (es ! Suc i) < us
       then Some (0, pman\<lparr>pm_pos := int (off_of es (Suc (Suc i))), pm_now := lt,
                          pm_last_pos := int (off_of es (Suc i))\<rparr>, at_off w fd f m)
       else if Suc i \<le> 1
       then Some (0, pman\<lparr>pm_pos := 0, pm_now := e_us (es ! Suc i), pm_last_pos := 0\<rparr>, at_off w fd f m)
       else fox_cursor_left_loop fd (int (off_of es (Suc i - 1))) (e_us (es ! Suc i)) hb' pman us
              (at_off w fd f m))"
    by blast
  have ge: "\<not> e_us (es ! Suc i) < us" using Suc.prems by (simp add: not_less)
  have i: "1 \<le> i" using Suc.prems by simp
  let ?w = "at_off w fd f m"
  have red: "fox_cursor_left_loop fd (int (off_of es (Suc i))) lt hb pman us w =
      fox_cursor_left_loop fd (int (off_of es i)) (e_us (es ! Suc i)) hb' pman us ?w"
    using st ge i by simp
  show ?case
  proof (cases "j = i")
    case True
    from cursor_left_step [of ?w fd f m bs es i "e_us (es ! Suc i)" hb' pman us] Suc.prems True
    obtain m' where "fox_cursor_left_loop fd (int (off_of es i)) (e_us (es ! Suc i)) hb' pman us ?w =
      Some (0, pman\<lparr>pm_pos := int (off_of es (Suc i)), pm_now := e_us (es ! Suc i),
                    pm_last_pos := int (off_of es i)\<rparr>, at_off ?w fd f m')"
      by auto
    with red True show ?thesis by (intro exI [of _ m']) simp
  next
    case False
    with Suc.prems have "\<exists>m'. fox_cursor_left_loop fd (int (off_of es i)) (e_us (es ! Suc i)) hb' pman us ?w =
      Some (0, pman\<lparr>pm_pos := int (off_of es (Suc j)), pm_now := e_us (es ! Suc j),
                    pm_last_pos := int (off_of es j)\<rparr>, at_off ?w fd f m')"
      by (intro Suc.IH) simp_all
    with red show ?thesis by auto
  qed
qed

text \<open>
  When no entry after the first is before \<open>us\<close>, the walk ends at offset 0 whatever the first
  entry's stamp is, and the manager shows the stamp of the second entry.
\<close>

lemma cursor_left_start:
  assumes "fds w fd = Some (f, n)" and "files w f = Some bs" and "fox_log 0 bs es"
    and "linked 0 0 es" and "length bs < 2 ^ 31"
    and "1 \<le> i" and "i < length es" and "\<forall>k. 1 \<le> k \<and> k \<le> i \<longrightarrow> us \<le> e_us (es ! k)"
  shows "\<exists>m. fox_cursor_left_loop fd (int (off_of es i)) lt hb pman us w =
    Some (0, pman\<lparr>pm_pos := 0, pm_now := e_us (es ! 1), pm_last_pos := 0\<rparr>, at_off w fd f m)"
  using assms
proof (induction i arbitrary: lt hb w n)
  case 0
  then show ?case by simp
next
  case (Suc i)
  from cursor_left_step [OF Suc.prems(1-4) Suc.prems(7,5), of lt hb pman us] obtain hb' m where
    st: "fox_cursor_left_loop fd (int (off_of es (Suc i))) lt hb pman us w =
      (if e_us (es ! Suc i) < us
       then Some (0, pman\<lparr>pm_pos := int (off_of es (Suc (Suc i))), pm_now := lt,
                          pm_last_pos := int (off_of es (Suc i))\<rparr>, at_off w fd f m)
       else if Suc i \<le> 1
       then Some (0, pman\<lparr>pm_pos := 0, pm_now := e_us (es ! Suc i), pm_last_pos := 0\<rparr>, at_off w fd f m)
       else fox_cursor_left_loop fd (int (off_of es (Suc i - 1))) (e_us (es ! Suc i)) hb' pman us
              (at_off w fd f m))"
    by blast
  have ge: "\<not> e_us (es ! Suc i) < us" using Suc.prems by (simp add: not_less)
  let ?w = "at_off w fd f m"
  show ?case
  proof (cases "i = 0")
    case True
    with st ge show ?thesis by auto
  next
    case False
    with Suc.prems have "\<exists>m'. fox_cursor_left_loop fd (int (off_of es i)) (e_us (es ! Suc i)) hb' pman us ?w =
      Some (0, pman\<lparr>pm_pos := 0, pm_now := e_us (es ! 1), pm_last_pos := 0\<rparr>, at_off ?w fd f m')"
      by (intro Suc.IH) simp_all
    with st ge False show ?thesis by auto
  qed
qed

section \<open>Reading one record\<close>

definition reader_on :: "fox_manager \<Rightarrow> world \<Rightarrow> string \<Rightarrow> byte list \<Rightarrow> fox_entry list \<Rightarrow> nat \<Rightarrow> bool" where
  "reader_on pman w f bs es k \<longleftrightarrow> opened w (pm_fd pman) f bs \<and> fox_log 0 bs es \<and> length bs < 2 ^ 31 \<and>
     pm_fsize pman = word_of_nat (length bs) \<and> k \<le> length es \<and> pm_pos pman = int (off_of es k)"

lemma reader_on_frame:
  "reader_on pman w f bs es k \<Longrightarrow> j \<le> length es \<Longrightarrow>
     reader_on (pman\<lparr>pm_pos := int (off_of es j), pm_now := t\<rparr>) (at_off w (pm_fd pman) f n) f bs es j"
  by (simp add: reader_on_def opened_def)

lemma cur_next_log:
  assumes "fds w (pm_fd pman) = Some (f, n)" and "files w f = Some bs" and "fox_log 0 bs es"
    and "length bs < 2 ^ 31" and "pm_fsize pman = word_of_nat (length bs)"
    and "j \<le> length es" and "uint (h_next head) = int (off_of es j)"
  shows "\<exists>m. fox_cur_next ev pman head w =
    (if j < length es then int HEAD_SIZE else 0,
     pman\<lparr>pm_pos := int (off_of es j), pm_now := cursor_now ev pman (drop j es)\<rparr>,
     at_off w (pm_fd pman) f m)"
proof -
  have bnd: "off_of es j \<le> length bs" using off_of_le [OF assms(3)] .
  show ?thesis
  proof (cases "j < length es")
    case True
    from read_head_nth [OF assms(2,3) True assms(4), of "pm_fd pman" "ev_stack ev"] obtain hb' where
      rd: "fox_read_head (pm_fd pman) (ev_stack ev) (at_off w (pm_fd pman) f (off_of es j)) =
        (int HEAD_SIZE, hb', at_off w (pm_fd pman) f (off_of es j + HEAD_SIZE))"
      and t: "h_t_us (head_of hb') = e_us (es ! j)"
      by blast
    have "off_of es j < off_of es (Suc j)" using True by (simp add: off_of_Suc entry_size_def)
    then have "off_of es j < length bs" using off_of_le [OF assms(3), of "Suc j"] by linarith
    then have "to_size (int (off_of es j)) < pm_fsize pman" "to_c_int (int (off_of es j)) = int (off_of es j)"
      using assms(4,5) by (simp_all add: size_less_nat to_c_int_nonneg)
    moreover have "drop j es = es ! j # drop (Suc j) es"
      using True by (simp add: Cons_nth_drop_Suc)
    ultimately show ?thesis
      using True rd t assms(1,7)
      by (intro exI [of _ "off_of es j + HEAD_SIZE"])
        (simp add: fox_cur_next_def Let_def lseek_at cursor_now_def)
  next
    case False
    with assms(6) have "off_of es j = length bs" by (simp add: fox_log_length [OF assms(3)])
    then have "\<not> to_size (int (off_of es j)) < pm_fsize pman"
      using assms(5) by (simp add: to_size_nat)
    with False assms(1,6,7) show ?thesis
      by (intro exI [of _ n]) (simp add: fox_cur_next_def Let_def cursor_now_def)
  qed
qed

lemma fox_read_hit:
  assumes "reader_on pman w f bs es k" and "k < length es" and "pm_now pman \<le> stop" and "ev_malloc ev"
  shows "\<exists>ret m. fox_read ev pman stop w =
    (int (length (e_data (es ! k))),
     \<lparr>rr_ret = ret, rr_pp = Some (e_data (es ! k)), rr_len = int (length (e_data (es ! k))),
      rr_us = Some (e_us (es ! k))\<rparr>,
     pman\<lparr>pm_pos := int (off_of es (Suc k)), pm_now := cursor_now ev pman (drop (Suc k) es)\<rparr>,
     at_off w (pm_fd pman) f m)"
proof -
  let ?fd = "pm_fd pman" and ?d = "e_data (es ! k)"
  from assms(1) obtain n where o: "fds w ?fd = Some (f, n)" "files w f = Some bs" and log: "fox_log 0 bs es"
    and len: "length bs < 2 ^ 31" and fsz: "pm_fsize pman = word_of_nat (length bs)"
    and pos: "pm_pos pman = int (off_of es k)"
    by (auto simp: reader_on_def opened_def)
  from read_head_nth [OF o(2) log assms(2) len, of ?fd "ev_stack ev"] obtain hb' where
    rd: "fox_read_head ?fd (ev_stack ev) (at_off w ?fd f (off_of es k)) =
      (int HEAD_SIZE, hb', at_off w ?fd f (off_of es k + HEAD_SIZE))"
    and nx: "uint (h_next (head_of hb')) = int (off_of es (Suc k))" and t: "h_t_us (head_of hb') = e_us (es ! k)"
    by blast
  have sz: "off_of es (Suc k) = off_of es k + HEAD_SIZE + length ?d"
    using assms(2) by (simp add: off_of_Suc entry_size_def)
  have le: "off_of es (Suc k) \<le> length bs" using off_of_le [OF log] .
  have cpos: "to_c_int (int (off_of es k)) = int (off_of es k)"
    "to_c_int (int (off_of es (Suc k)) - int (off_of es k) - int HEAD_SIZE) = int (length ?d)"
    using le len sz by (simp_all add: to_c_int_nonneg)
  have "fox_log 0 bs (take k es @ es ! k # drop (Suc k) es)"
    using log id_take_nth_drop [OF assms(2)] by simp
  from fox_log_entry(2) [OF this]
  have data: "bslice (off_of es k + HEAD_SIZE) (length ?d) bs = ?d" .
  let ?w3 = "at_off w ?fd f (off_of es k + HEAD_SIZE + length ?d)"
  have st: "fox_read_stream ?fd (length ?d) (at_off w ?fd f (off_of es k + HEAD_SIZE)) =
      (int (length ?d), ?d, ?w3)"
    unfolding fox_read_stream_def read_at [of w f bs, OF o(2)] data ..
  obtain m where nxt: "fox_cur_next ev pman (head_of hb') ?w3 =
    (if Suc k < length es then int HEAD_SIZE else 0,
     pman\<lparr>pm_pos := int (off_of es (Suc k)), pm_now := cursor_now ev pman (drop (Suc k) es)\<rparr>,
     at_off w ?fd f m)"
    using cur_next_log [of ?w3 pman f "off_of es k + HEAD_SIZE + length ?d" bs es "Suc k" "head_of hb'" ev]
      o log len fsz nx assms(2) by auto
  have "fox_read_work ev ?fd pman stop w =
    (\<lparr>rr_ret = (if Suc k < length es then int HEAD_SIZE else 0), rr_pp = Some ?d, rr_len = int (length ?d),
      rr_us = Some (e_us (es ! k))\<rparr>,
     pman\<lparr>pm_pos := int (off_of es (Suc k)), pm_now := cursor_now ev pman (drop (Suc k) es)\<rparr>,
     at_off w ?fd f m)"
    using assms(3,4) o rd nxt cpos st
    by (simp add: fox_read_work_def pos lseek_at nx t Let_def)
  then show ?thesis
    by (auto simp: fox_read_def)
qed

lemma fox_read_past:
  assumes "stop < pm_now pman"
  shows "fox_read ev pman stop w = (0, no_data 0, pman, w)"
proof -
  have "(pm_now pman \<le> stop) = False" using assms by simp
  then show ?thesis by (simp add: fox_read_def fox_read_work_def no_data_def)
qed

section \<open>Opening a day file for reading\<close>

lemma sorted_dropWhile_eq:
  "sorted (map f xs) \<Longrightarrow> dropWhile (\<lambda>x. f x < (a :: 'a::linorder)) xs = filter (\<lambda>x. a \<le> f x) xs"
proof (induction xs)
  case Nil
  then show ?case by simp
next
  case (Cons x xs)
  show ?case
  proof (cases "f x < a")
    case True
    with Cons show ?thesis by simp
  next
    case False
    with Cons.prems have "\<forall>y \<in> set xs. a \<le> f y" by auto
    with False show ?thesis by (simp add: filter_id_conv)
  qed
qed

lemma sorted_takeWhile_eq:
  "sorted (map f xs) \<Longrightarrow> takeWhile (\<lambda>x. f x \<le> (a :: 'a::linorder)) xs = filter (\<lambda>x. f x \<le> a) xs"
proof (induction xs)
  case Nil
  then show ?case by simp
next
  case (Cons x xs)
  show ?case
  proof (cases "f x \<le> a")
    case True
    with Cons show ?thesis by simp
  next
    case False
    with Cons.prems have "\<forall>y \<in> set xs. \<not> f y \<le> a" by (auto simp: not_le)
    with False show ?thesis by (simp add: filter_empty_conv)
  qed
qed

lemma fd_size_opened: "opened w fd f bs \<Longrightarrow> fd_size fd w = word_of_nat (length bs)"
  by (simp add: fd_size_def opened_content)

lemma takeWhile_prefix: "take (length (takeWhile P xs)) xs = takeWhile P xs"
  by (metis append_eq_conv_conj takeWhile_dropWhile_id)

lemma dropWhile_suffix: "drop (length (takeWhile P xs)) xs = dropWhile P xs"
  by (metis append_eq_conv_conj takeWhile_dropWhile_id)

lemma fox_setup_read_log:
  fixes p :: foxDate and pman :: fox_manager and ev :: fox_env
  defines "pman1 \<equiv> pman\<lparr>pm_fd := ev_open ev, pm_year := d_year p, pm_mon := d_mon p, pm_mday := d_mday p\<rparr>"
  assumes "0 \<le> ev_open ev" and "files w (pack_fname p) = Some bs" and "fox_log 0 bs es"
    and "length bs < 2 ^ 31" and "fox_read_init_now ev pman1 < us"
  shows "\<exists>pman' w'. fox_setup_read ev pman p us w = Some (0, pman', w') \<and>
    reader_on pman' w' (pack_fname p) bs es (length (takeWhile (\<lambda>e. e_us e < us) es)) \<and>
    pm_now pman' = cursor_now ev pman' (dropWhile (\<lambda>e. e_us e < us) es) \<and>
    fox_read_day_max ev pman' = fox_read_day_max ev pman1 \<and> files w' = files w"
proof -
  let ?f = "pack_fname p" and ?fd = "ev_open ev"
  let ?w1 = "at_off w ?fd ?f 0"
  let ?p2 = "pman1\<lparr>pm_now := fox_read_init_now ev pman1, pm_pos := 0, pm_last_pos := 0,
                 pm_fsize := word_of_nat (length bs)\<rparr>"
  have op: "sys_open_rdonly ?f ?fd w = (?fd, ?w1)"
    using assms by (simp add: sys_open_rdonly_def at_off_def)
  have sz: "fd_size ?fd ?w1 = word_of_nat (length bs)"
    using assms(3) by (intro fd_size_opened [of _ _ ?f]) simp
  from cursor_right_loop_log [of ?w1 ?fd ?f 0 bs "[]" es ?p2 ev 0 "ev_stack ev" us] assms(3-5)
  obtain m where
    "fox_cursor_right ev ?fd ?p2 us ?w1 =
    (let zs = takeWhile (\<lambda>e. e_us e < us) es; rs = dropWhile (\<lambda>e. e_us e < us) es
     in Some (0, ?p2\<lparr>pm_pos := int (log_size zs), pm_now := cursor_now ev ?p2 rs,
                pm_last_pos := (if zs = [] then 0 else int (log_size (butlast zs)))\<rparr>,
              at_off w ?fd ?f m))"
    by (auto simp: fox_cursor_right_def Let_def)
  moreover have "(us < fox_read_init_now ev pman1) = False" using assms(6) by auto
  ultimately have "fox_setup_read ev pman p us w =
    (let zs = takeWhile (\<lambda>e. e_us e < us) es; rs = dropWhile (\<lambda>e. e_us e < us) es
     in Some (0, ?p2\<lparr>pm_pos := int (log_size zs), pm_now := cursor_now ev ?p2 rs,
                pm_last_pos := (if zs = [] then 0 else int (log_size (butlast zs)))\<rparr>,
              at_off w ?fd ?f m))"
    using assms(2,6) op sz
    by (simp add: fox_setup_read_def fox_cursor_def fox_cursor_work_def Let_def flip: pman1_def)
  then show ?thesis
    using assms(3-5)
    by (simp add: Let_def reader_on_def takeWhile_prefix length_takeWhile_le) (simp add: pman1_def)
qed

section \<open>Scanning as a drain source\<close>

type_synonym fox_reader = "fox_env \<times> fox_time_t \<times> fox_manager \<times> world"

fun fox_next :: "fox_reader \<Rightarrow> ((fox_time_t \<times> byte list) \<times> fox_reader) option" where
  "fox_next (ev, stop, pman, w) =
     (case fox_read ev pman stop w of (_, r, pman', w') \<Rightarrow>
        (case (rr_us r, rr_pp r) of
           (Some us, Some d) \<Rightarrow> Some ((us, d), (ev, stop, pman', w'))
         | _ \<Rightarrow> None))"

fun fox_pending :: "fox_reader \<Rightarrow> (fox_time_t \<times> byte list) list" where
  "fox_pending (ev, stop, pman, w) =
     (case fd_content w (pm_fd pman) of
        None \<Rightarrow> []
      | Some bs \<Rightarrow> map (\<lambda>e. (e_us e, e_data e)) (takeWhile (\<lambda>e. e_us e \<le> stop)
            (log_entries (length bs) (nat (pm_pos pman)) (drop (nat (pm_pos pman)) bs))))"

fun reader_ok :: "fox_reader \<Rightarrow> bool" where
  "reader_ok (ev, stop, pman, w) \<longleftrightarrow> ev_malloc ev \<and> stop < fox_read_day_max ev pman \<and>
     (\<exists>f bs es k. reader_on pman w f bs es k \<and> pm_now pman = cursor_now ev pman (drop k es))"

lemma fox_pending_on:
  assumes "reader_on pman w f bs es k"
  shows "fox_pending (ev, stop, pman, w) =
    map (\<lambda>e. (e_us e, e_data e)) (takeWhile (\<lambda>e. e_us e \<le> stop) (drop k es))"
proof -
  from assms have log: "fox_log 0 bs es" and len: "length bs < 2 ^ 31" and k: "k \<le> length es"
    and c: "fd_content w (pm_fd pman) = Some bs" and pos: "nat (pm_pos pman) = off_of es k"
    by (auto simp: reader_on_def dest: opened_content)
  have "fox_log (off_of es k) (drop (off_of es k) bs) (drop k es)"
    using fox_log_appendD [of 0 bs "take k es" "drop k es"] log by simp
  then have "log_entries (length bs) (off_of es k) (drop (off_of es k) bs) = drop k es"
    using len off_of_le [OF log, of k] length_entries_le [OF log]
    by (intro log_entries_log) auto
  then show ?thesis by (simp add: c pos)
qed

interpretation fox_reader: drain_source fox_pending reader_ok fox_next
proof
  fix s :: fox_reader
  obtain ev stop pman w where s: "s = (ev, stop, pman, w)" by (metis prod_cases4)
  assume ok: "reader_ok s"
  then obtain f bs es k where on: "reader_on pman w f bs es k"
    and now: "pm_now pman = cursor_now ev pman (drop k es)"
    and ev: "ev_malloc ev" and day: "stop < fox_read_day_max ev pman"
    by (auto simp: s)
  note pend = fox_pending_on [OF on, of ev stop]
  have past: "fox_next s = None" if "stop < pm_now pman"
    using fox_read_past [OF that] by (simp add: s no_data_def)
  {
    assume "fox_pending s = []"
    then have "stop < pm_now pman"
      using now day unfolding s pend by (cases "drop k es") (auto simp: cursor_now_def not_le split: if_splits)
    then show "fox_next s = None" by (rule past)
  next
    fix x xs
    assume px: "fox_pending s = x # xs"
    then obtain e rest where d: "drop k es = e # rest" and e: "e_us e \<le> stop" "x = (e_us e, e_data e)"
      and xs: "xs = map (\<lambda>e. (e_us e, e_data e)) (takeWhile (\<lambda>e. e_us e \<le> stop) rest)"
      unfolding s pend by (cases "drop k es") (auto split: if_splits)
    have k: "k < length es" using d by (metis drop_all list.distinct(1) not_le)
    have ek: "es ! k = e" and dk: "drop (Suc k) es = rest"
      using d k by (metis Cons_nth_drop_Suc list.inject)+
    have "pm_now pman \<le> stop" using now e by (simp add: d cursor_now_def)
    from fox_read_hit [OF on k this ev] obtain ret m where
      rd: "fox_read ev pman stop w =
        (int (length (e_data e)), \<lparr>rr_ret = ret, rr_pp = Some (e_data e), rr_len = int (length (e_data e)),
          rr_us = Some (e_us e)\<rparr>,
         pman\<lparr>pm_pos := int (off_of es (Suc k)), pm_now := cursor_now ev pman rest\<rparr>,
         at_off w (pm_fd pman) f m)"
      unfolding ek dk by blast
    let ?p = "pman\<lparr>pm_pos := int (off_of es (Suc k)), pm_now := cursor_now ev pman rest\<rparr>"
    let ?s = "(ev, stop, ?p, at_off w (pm_fd pman) f m)"
    have on': "reader_on ?p (at_off w (pm_fd pman) f m) f bs es (Suc k)"
      using reader_on_frame [OF on, of "Suc k"] k by simp
    have "fox_pending ?s = xs"
      unfolding fox_pending_on [OF on'] dk xs ..
    moreover have "reader_ok ?s"
      unfolding reader_ok.simps using ev day on' dk
      by (intro conjI exI [of _ f] exI [of _ bs] exI [of _ es] exI [of _ "Suc k"]) simp_all
    moreover have "fox_next s = Some (x, ?s)"
      using rd e by (simp add: s)
    ultimately show "\<exists>s'. fox_next s = Some (x, s') \<and> fox_pending s' = xs \<and> reader_ok s'" by blast
  }
qed

end
