(* ===== verification/Fox_Theorems.thy ===== *)
theory Fox_Theorems
  imports Fox_Read
begin

text \<open>
  The properties of the time-series store: what a writer stores is what a reader gets back,
  the behaviour of each operation of the interface, and the places where the code does not do
  what its callers expect.
\<close>

section \<open>A scan of a day file\<close>











section \<open>A concrete day\<close>

text \<open>A writer on a fresh file of the first day of the epoch, used by the witnesses below.\<close>

definition day0 :: foxDate where
  "day0 = \<lparr>d_year = 70, d_mon = 0, d_mday = 1, d_hour = 0, d_min = 0, d_sec = 0\<rparr>"

definition env0 :: fox_env where
  "env0 = \<lparr>ev_open = 4, ev_lock = 0, ev_ulock = 0, ev_wr_head = 24, ev_wr_data = 2, ev_malloc = True,
     ev_stack = replicate 24 0, ev_heap = (\<lambda>_. 0), ev_tz = 0\<rparr>"

definition man0 :: fox_manager where
  "man0 = \<lparr>pm_now = 5, pm_pos = 0, pm_last_pos = 0, pm_fsize = 0, pm_fd = 3, pm_new_day = 0,
     pm_year = 70, pm_mon = 0, pm_mday = 1\<rparr>"

definition world0 :: world where
  "world0 = \<lparr>files = (\<lambda>_. None)(pack_fname day0 \<mapsto> []), fds = (\<lambda>_. None)(3 \<mapsto> (pack_fname day0, 0))\<rparr>"

lemma env0_simps [simp]:
  "ev_open env0 = 4" "ev_lock env0 = 0" "ev_ulock env0 = 0" "ev_malloc env0" "ev_tz env0 = 0"
  "ev_stack env0 = replicate 24 0" "ev_wr_head env0 = 24" "ev_wr_data env0 = 2"
  by (simp_all add: env0_def)

lemma man0_simps [simp]:
  "pm_now man0 = 5" "pm_pos man0 = 0" "pm_last_pos man0 = 0" "pm_fd man0 = 3" "pm_new_day man0 = 0"
  "pm_year man0 = 70" "pm_mon man0 = 0" "pm_mday man0 = 1"
  by (simp_all add: man0_def)

lemma writer_inv0: "writer_inv man0 world0 (pack_fname day0) [] []"
  by (simp add: writer_inv_def world0_def opened_def)


lemma env_ok0: "length data = 2 \<Longrightarrow> env_ok env0 data"
  by (simp add: env_ok_def)

lemma stamp_day0: "make_stamp 0 day0 = 0"
  by (simp add: make_stamp_def mktime_def date2tm_def day0_def Let_def)

lemma mktime_day0_end: "make_stamp 0 day0 + 24 * 60 * 60 * MICRO_UNIT = 86400000000"
  by (simp add: stamp_day0)


section \<open>Properties\<close>




text \<open>C12: a write on the manager's day, in stamp order and with room left, appends exactly the
  given record: the file's records are the old ones followed by the new one, the other files are
  untouched, and the manager again describes the end of the file.\<close>

theorem fox_write_appends:
  assumes "writer_inv pman w f bs es" and "env_ok ev data" and "check_pman_date pman d"
    and "pm_now pman \<le> us" and "length bs + HEAD_SIZE + length data < 2 ^ 32"
  shows "\<exists>pman' w' bs'. fox_write ev0 ev pman d us data w = Some (ev_ulock ev, pman', w') \<and>
    files w' f = Some bs' \<and> file_records bs' = file_records bs @ [(us, data)] \<and>
    (\<forall>g. g \<noteq> f \<longrightarrow> files w' g = files w g) \<and>
    writer_inv pman' w' f bs' (es @ [entry_of pman us data]) \<and>
    pm_now pman' = us \<and> pm_last_pos pman' = int (length bs) \<and> pm_pos pman' = int (length bs')"
proof -
  from write_data_writer_inv [of "pman\<lparr>pm_new_day := 0\<rparr>" w f bs es ev data us] assms
  obtain pman' w' bs' where
    "fox_write_data ev (pman\<lparr>pm_new_day := 0\<rparr>) us data w = (ev_ulock ev, pman', w')"
    "writer_inv pman' w' f bs' (es @ [entry_of pman us data])" "pm_last_pos pman' = int (length bs)"
    "pm_now pman' = us" "\<forall>g. g \<noteq> f \<longrightarrow> files w' g = files w g"
    by auto
  moreover from calculation(2) assms(1) have "file_records bs' = file_records bs @ [(us, data)]"
    by (simp add: writer_inv_records entry_of_def)
  ultimately show ?thesis
    using assms(3,4) by (auto simp: fox_write_same_day writer_inv_def opened_def)
qed

theorem fox_write_appends_witness:
  "\<exists>pman' w' bs'. fox_write env0 env0 man0 day0 10 [1, 2] world0 = Some (0, pman', w') \<and>
    files w' (pack_fname day0) = Some bs' \<and> file_records bs' = [(10, [1, 2])]"
proof -
  have "check_pman_date man0 day0" by (simp add: check_pman_date_def day0_def)
  from fox_write_appends [OF writer_inv0 env_ok0 this, of "[1, 2]" 10 env0] show ?thesis
    by (auto simp: file_records_def)
qed






section \<open>Day files with known entries\<close>

fun log_bytes :: "nat \<Rightarrow> fox_entry list \<Rightarrow> byte list" where
  "log_bytes base [] = []"
| "log_bytes base (e # es) =
     head_bytes (replicate 4 0) \<lparr>h_prev = e_prev e, h_next = word_of_nat (base + entry_size e),
       h_t_us = e_us e, h_magic = FOX_MAGIC, h_flag = 0\<rparr> @ e_data e @ log_bytes (base + entry_size e) es"

lemma log_bytes_log: "fox_log base (log_bytes base es) es"
proof (induction es arbitrary: base)
  case Nil
  then show ?case by simp
next
  case (Cons e es)
  let ?h = "\<lparr>h_prev = e_prev e, h_next = word_of_nat (base + entry_size e),
       h_t_us = e_us e, h_magic = FOX_MAGIC, h_flag = 0\<rparr>"
  have "fox_log base (head_bytes (replicate 4 0) ?h @ e_data e) [e]"
    by (rule fox_log_single) simp_all
  with Cons.IH [of "base + entry_size e"]
  have "fox_log base ((head_bytes (replicate 4 0) ?h @ e_data e) @ log_bytes (base + entry_size e) es) ([e] @ es)"
    by (intro fox_log_appendI) simp_all
  then show ?case by simp
qed

lemma log_bytes_length: "length (log_bytes base es) = log_size es"
  using fox_log_length [OF log_bytes_log] .

definition entries3 :: "fox_entry list" where
  "entries3 = [\<lparr>e_prev = 0, e_us = 10, e_data = [1, 2]\<rparr>, \<lparr>e_prev = 0, e_us = 20, e_data = [3, 4]\<rparr>,
     \<lparr>e_prev = 26, e_us = 30, e_data = [5]\<rparr>]"

definition bytes3 :: "byte list" where
  "bytes3 = log_bytes 0 entries3"

definition world3 :: world where
  "world3 = \<lparr>files = (\<lambda>_. None)(pack_fname day0 \<mapsto> bytes3), fds = (\<lambda>_. None)(3 \<mapsto> (pack_fname day0, 0))\<rparr>"

lemma entries3_simps [simp]:
  "length entries3 = 3" "log_size entries3 = 77" "off_of entries3 (Suc 0) = 26" "off_of entries3 2 = 52"
  "e_us (entries3 ! 0) = 10" "e_us (entries3 ! Suc 0) = 20" "e_us (entries3 ! 2) = 30"
  "entries3 \<noteq> []" "e_prev (last entries3) = 26" "linked 0 0 entries3"
  by (simp_all add: entries3_def entry_size_def numeral_2_eq_2)

lemma bytes3_log: "fox_log 0 bytes3 entries3"
  by (simp add: bytes3_def log_bytes_log)

lemma bytes3_length [simp]: "length bytes3 = 77"
  by (simp add: bytes3_def log_bytes_length)

lemma world3_simps [simp]:
  "files world3 (pack_fname day0) = Some bytes3" "fds world3 3 = Some (pack_fname day0, 0)"
  by (simp_all add: world3_def)

section \<open>Reopening and rotating\<close>

text \<open>C17: when the record belongs to another day, the writer moves to that day's file: the record
  is appended to whatever that file already holds (or to a fresh file), every other file keeps its
  content, and the manager is left on the new day, flagged \<open>new_day\<close>.\<close>

theorem fox_write_rotates:
  assumes "\<not> check_pman_date pman d"
    and "files w (pack_fname d) = Some bs \<or> files w (pack_fname d) = None \<and> bs = []"
    and "fox_log 0 bs es" and "sorted (map e_us es)" and "\<forall>e \<in> set es. e_us e \<le> us"
    and "0 \<le> ev_open ev0" and "0 \<le> ev_lock ev0" and "0 \<le> ev_ulock ev0" and "env_ok ev data"
    and "length bs + HEAD_SIZE + length data < 2 ^ 32"
  shows "\<exists>pman' w' bs'. fox_write ev0 ev pman d us data w = Some (ev_ulock ev, pman', w') \<and>
    files w' (pack_fname d) = Some bs' \<and> file_records bs' = file_records bs @ [(us, data)] \<and>
    (\<forall>g. g \<noteq> pack_fname d \<longrightarrow> files w' g = files w g) \<and>
    check_pman_date pman' d \<and> pm_new_day pman' = 1 \<and> pm_fd pman' = ev_open ev0 \<and>
    (pm_fd pman \<noteq> ev_open ev0 \<longrightarrow> fds w' (pm_fd pman) = None)"
proof -
  let ?f = "pack_fname d" and ?fd = "ev_open ev0"
  let ?p = "pman\<lparr>pm_now := us, pm_pos := int (length bs),
      pm_last_pos := (if es = [] then 0 else uint (e_prev (last es))),
      pm_fd := ?fd, pm_year := d_year d, pm_mon := d_mon d, pm_mday := d_mday d\<rparr>"
  let ?wc = "sys_close (pm_fd pman) w"
  let ?w = "?wc\<lparr>files := (files w)(?f \<mapsto> bs), fds := (fds ?wc)(?fd \<mapsto> (?f, length bs))\<rparr>"
  have su: "fox_setup_write ev0 pman d us ?wc = Some (ev_ulock ev0, ?p, ?w)"
    using fox_setup_write_log [of ?wc d bs es ev0 pman us] assms by (simp add: sys_close_def)
  have op: "opened ?w ?fd ?f bs" by (simp add: opened_def)
  from fox_write_data_log [of ?w "?p\<lparr>pm_new_day := 1\<rparr>" ?f bs es ev data us] op assms(3,9,10)
  obtain bs' n where
    wr: "fox_write_data ev (?p\<lparr>pm_new_day := 1\<rparr>) us data ?w =
      (ev_ulock ev, ?p\<lparr>pm_new_day := 1, pm_now := us, pm_last_pos := int (length bs), pm_pos := int (length bs')\<rparr>,
       ?w\<lparr>files := (files ?w)(?f \<mapsto> bs'), fds := (fds ?w)(?fd \<mapsto> (?f, n))\<rparr>)"
    and log: "fox_log 0 bs' (es @ [entry_of ?p us data])"
    and len: "length bs' = length bs + HEAD_SIZE + length data"
    by auto
  have "file_records bs' = file_records bs @ [(us, data)]"
    using log len assms(3,10) by (simp add: file_records_log entry_of_def)
  with fox_write_other_day [OF assms(1) su assms(8)] wr show ?thesis
    by (simp add: check_pman_date_def sys_close_def)
qed

theorem fox_write_rotates_witness:
  "\<exists>pman' w' bs'. fox_write env0 env0 (man0\<lparr>pm_mday := 2\<rparr>) day0 40 [7, 8] world3 = Some (0, pman', w') \<and>
    files w' (pack_fname day0) = Some bs' \<and>
    file_records bs' = [(10, [1, 2]), (20, [3, 4]), (30, [5]), (40, [7, 8])] \<and> pm_new_day pman' = 1"
proof -
  have nd: "\<not> check_pman_date (man0\<lparr>pm_mday := 2\<rparr>) day0" by (simp add: check_pman_date_def day0_def)
  have rec: "file_records bytes3 = [(10, [1, 2]), (20, [3, 4]), (30, [5])]"
    using file_records_log [OF bytes3_log] by (simp add: entries3_def)
  have srt: "sorted (map e_us entries3)" "\<forall>e \<in> set entries3. e_us e \<le> 40" by (simp_all add: entries3_def)
  from fox_write_rotates [OF nd _ bytes3_log srt, of world3 env0 env0 "[7, 8]"] rec env_ok0
  show ?thesis by auto
qed


lemma last_off_nth: "es \<noteq> [] \<Longrightarrow> last_off es = off_of es (length es - 1)"
  by (simp add: last_off_def butlast_conv_take)

lemma linked_last_prev:
  assumes "fox_log 0 bs es" and "linked 0 0 es" and "length bs < 2 ^ 32" and "2 \<le> length es"
  shows "uint (e_prev (last es)) = int (off_of es (length es - 2))"
proof -
  have n: "es \<noteq> []" "length es - 1 < length es" "length es - 1 - 1 = length es - 2"
    using assms(4) by auto
  have "uint (e_prev (es ! (length es - 1))) = int (off_of es (length es - 1 - 1))"
    using linked_nth [OF assms(2) n(2)] off_of_le [OF assms(1), of "length es - 1 - 1"] assms(3,4)
    by (simp add: uint_of_nat_small)
  then show ?thesis using n by (simp add: last_conv_nth)
qed

text \<open>C33: opening an existing day file for writing terminates at the file's end and leaves its
  bytes alone, but the back reference it recovers is that of the last record, the offset of the
  record before it, and not the offset of the last record itself. The next record written is
  linked past its predecessor: the back chain of the resulting file is broken.\<close>

theorem fox_reopen_breaks_chain:
  assumes "files w (pack_fname d) = Some bs" and "fox_log 0 bs es" and "linked 0 0 es" and "2 \<le> length es"
    and "0 \<le> ev_open ev" and "0 \<le> ev_lock ev" and "0 \<le> ev_ulock ev" and "env_ok ev' data"
    and "length bs + HEAD_SIZE + length data < 2 ^ 32"
  shows "\<exists>pman' w'. fox_setup_write ev pman d us w = Some (ev_ulock ev, pman', w') \<and>
    files w' = files w \<and> pm_pos pman' = int (length bs) \<and>
    pm_last_pos pman' = int (off_of es (length es - 2)) \<and> pm_last_pos pman' < int (last_off es) \<and>
    (\<exists>pman'' w'' bs'. fox_write_data ev' pman' us data w' = (ev_ulock ev', pman'', w'') \<and>
      files w'' (pack_fname d) = Some bs' \<and> fox_log 0 bs' (log_entries (length bs') 0 bs') \<and>
      \<not> linked 0 0 (log_entries (length bs') 0 bs'))"
proof -
  let ?f = "pack_fname d" and ?fd = "ev_open ev"
  have ne: "es \<noteq> []" using assms(4) by auto
  let ?p = "pman\<lparr>pm_now := us, pm_pos := int (length bs), pm_last_pos := uint (e_prev (last es)),
      pm_fd := ?fd, pm_year := d_year d, pm_mon := d_mon d, pm_mday := d_mday d\<rparr>"
  let ?w = "w\<lparr>fds := (fds w)(?fd \<mapsto> (?f, length bs))\<rparr>"
  have upd: "(files w)(?f \<mapsto> bs) = files w" using assms(1) by auto
  have su: "fox_setup_write ev pman d us w = Some (ev_ulock ev, ?p, ?w)"
    using fox_setup_write_log [of w d bs es ev pman us] assms ne by (simp add: upd)
  have prev: "uint (e_prev (last es)) = int (off_of es (length es - 2))"
    using linked_last_prev [OF assms(2,3)] assms(4,9) by simp
  have "off_of es (Suc (length es - 2)) = off_of es (length es - 2) + entry_size (es ! (length es - 2))"
    using assms(4) by (intro off_of_Suc) simp
  then have lt: "off_of es (length es - 2) < last_off es"
    using assms(4) ne by (simp add: last_off_nth entry_size_def Suc_diff_Suc numeral_2_eq_2)
  have "opened ?w ?fd ?f bs" using assms(1) by (simp add: opened_def)
  from fox_write_data_log [of ?w ?p ?f bs es ev' data us] this assms(2,8,9)
  obtain bs' n where
    wr: "fox_write_data ev' ?p us data ?w =
      (ev_ulock ev', ?p\<lparr>pm_now := us, pm_last_pos := int (length bs), pm_pos := int (length bs')\<rparr>,
       ?w\<lparr>files := (files ?w)(?f \<mapsto> bs'), fds := (fds ?w)(?fd \<mapsto> (?f, n))\<rparr>)"
    and log: "fox_log 0 bs' (es @ [entry_of ?p us data])"
    and len: "length bs' = length bs + HEAD_SIZE + length data"
    by auto
  have dec: "log_entries (length bs') 0 bs' = es @ [entry_of ?p us data]"
    using log_entries_log [OF log _ length_entries_le [OF log]] len assms(9) by simp
  have "last_off es \<le> length bs" using off_of_le [OF assms(2)] ne by (simp add: last_off_nth)
  then have "unat (word_of_nat (off_of es (length es - 2)) :: u32) < unat (word_of_nat (last_off es) :: u32)"
    using lt assms(9) by (simp add: unat_of_nat_small)
  then have "(word_of_nat (off_of es (length es - 2)) :: u32) \<noteq> word_of_nat (last_off es)"
    by auto
  then have "\<not> linked 0 0 (es @ [entry_of ?p us data])"
    using ne by (simp add: linked_snoc entry_of_def prev)
  with su wr dec log lt prev show ?thesis
    by (intro exI [of _ ?p] exI [of _ ?w]) simp
qed

theorem fox_reopen_breaks_chain_witness:
  "\<exists>pman' w'. fox_setup_write env0 man0 day0 40 world3 = Some (0, pman', w') \<and>
    pm_pos pman' = 77 \<and> pm_last_pos pman' = 26 \<and> last_off entries3 = 52"
  using fox_reopen_breaks_chain [OF _ bytes3_log, of world3 day0 env0 env0 "[7, 8]" man0 40] env_ok0 [of "[7, 8]"]
  by (auto simp: last_off_nth)

text \<open>C36: a write whose header cannot be stored is reported with the result of the unlock, so a
  caller that tests for a negative code sees success although no byte of any file changed and the
  manager still describes the old end of the file.\<close>

theorem fox_write_masks_error:
  assumes "check_pman_date pman d" and "pm_now pman \<le> us" and "0 \<le> ev_lock ev" and "0 \<le> ev_ulock ev"
    and "ev_wr_head ev < 0"
  shows "\<exists>w'. fox_write ev0 ev pman d us data w = Some (ev_ulock ev, pman\<lparr>pm_new_day := 0\<rparr>, w') \<and>
    files w' = files w"
proof -
  have "\<exists>w'. sys_write fd bs (ev_wr_head ev) w = (- 1, w') \<and> files w' = files w" for fd bs
    using assms(5) by (auto simp: sys_write_def split: option.split)
  then obtain w' where "sys_write (pm_fd pman) (head_bytes (drop 20 (ev_stack ev))
      (new_head (pman\<lparr>pm_new_day := 0\<rparr>) us (int (length data)))) (ev_wr_head ev) w = (- 1, w')"
    "files w' = files w" by metis
  then show ?thesis
    using assms by (intro exI [of _ w']) (simp add: fox_write_same_day fox_write_data_def Let_def)
qed

theorem fox_write_masks_error_witness:
  "\<exists>w'. fox_write env0 (env0\<lparr>ev_wr_head := - 1\<rparr>) man0 day0 10 [1, 2] world3 = Some (0, man0, w') \<and>
    files w' (pack_fname day0) = Some bytes3"
proof -
  have "check_pman_date man0 day0" "man0\<lparr>pm_new_day := 0\<rparr> = man0"
    by (simp_all add: check_pman_date_def day0_def man0_def)
  with fox_write_masks_error [of man0 day0 10 "env0\<lparr>ev_wr_head := - 1\<rparr>" env0 "[1, 2]" world3]
  show ?thesis by auto
qed


section \<open>Moving the cursor\<close>

text \<open>C22: moving forward from a record boundary terminates at the first record, from there on, that
  is not before the requested time, with the previous record's offset kept as back reference; when
  there is none the cursor rests at the end of the file and shows the end of the day.\<close>

theorem fox_cur_move_right:
  assumes "reader_on pman w f bs es k" and "pm_now pman < us"
  shows "\<exists>m. fox_cur_move ev pman us w =
    (let n = length (takeWhile (\<lambda>e. e_us e < us) (drop k es)) in
     Some (0, pman\<lparr>pm_pos := int (off_of es (k + n)),
                   pm_now := (if k + n < length es then e_us (es ! (k + n)) else fox_read_day_max ev pman),
                   pm_last_pos := (if n = 0 then pm_last_pos pman else int (off_of es (k + n - 1)))\<rparr>,
           at_off w (pm_fd pman) f m))"
proof -
  let ?P = "\<lambda>e. e_us e < us" and ?d = "drop k es"
  define n where "n = length (takeWhile ?P ?d)"
  have n: "takeWhile ?P ?d = take n ?d" "dropWhile ?P ?d = drop (k + n) es"
    by (simp_all add: n_def takeWhile_prefix flip: dropWhile_suffix)
      (simp add: add.commute)
  have "k \<le> length es" using assms(1) by (simp add: reader_on_def)
  with length_takeWhile_le [of ?P ?d] have kn: "k + n \<le> length es" by (simp add: n_def)
  have ne: "(take n ?d = []) = (n = 0)" using kn by auto
  have bl: "butlast (take n ?d) = take (n - 1) ?d" using kn by (simp add: butlast_take)
  have tk: "take k es @ take m ?d = take (k + m) es" for m
    by (simp add: take_add)
  have now: "cursor_now ev pman (drop (k + n) es) =
      (if k + n < length es then e_us (es ! (k + n)) else fox_read_day_max ev pman)"
    by (simp add: cursor_now_def split: list.split) (metis Cons_nth_drop_Suc drop_all list.inject list.distinct(1) not_less)
  from assms(1) obtain o' where "fds w (pm_fd pman) = Some (f, o')" "files w f = Some bs"
    "fox_log 0 bs (take k es @ ?d)" "length bs < 2 ^ 31" "pm_fsize pman = word_of_nat (length bs)"
    by (auto simp: reader_on_def opened_def)
  from cursor_right_loop_log [OF this, of ev "pm_last_pos pman" "ev_stack ev" us, unfolded n ne bl tk Let_def]
  obtain m where "fox_cursor_right ev (pm_fd pman) pman us w =
      Some (0, pman\<lparr>pm_pos := int (off_of es (k + n)), pm_now := cursor_now ev pman (drop (k + n) es),
                pm_last_pos := (if n = 0 then pm_last_pos pman else int (off_of es (k + (n - 1))))\<rparr>,
              at_off w (pm_fd pman) f m)"
    using assms(1) unfolding fox_cursor_right_def reader_on_def by metis
  moreover have "(us < pm_now pman) = False" using assms(2) by auto
  ultimately show ?thesis
    using assms(2) unfolding now
    by (intro exI [of _ m]) (simp add: fox_cur_move_def fox_cursor_def fox_cursor_work_def Let_def flip: n_def)
qed

text \<open>A reader at the start of the three-record file, moved to time 15.\<close>

definition rman3 :: fox_manager where
  "rman3 = man0\<lparr>pm_fsize := 77\<rparr>"

lemma reader_on3: "k \<le> 3 \<Longrightarrow> reader_on (rman3\<lparr>pm_pos := int (off_of entries3 k)\<rparr>) world3 (pack_fname day0) bytes3 entries3 k"
  by (simp add: reader_on_def opened_def rman3_def bytes3_log)

theorem fox_cur_move_right_witness:
  "\<exists>m. fox_cur_move env0 rman3 15 world3 =
     Some (0, rman3\<lparr>pm_pos := 26, pm_now := 20, pm_last_pos := 0\<rparr>, at_off world3 3 (pack_fname day0) m)"
proof -
  have r: "rman3\<lparr>pm_pos := int (off_of entries3 0)\<rparr> = rman3" "pm_fd rman3 = 3" "pm_last_pos rman3 = 0"
    by (simp_all add: rman3_def man0_def)
  have n: "length (takeWhile (\<lambda>e. e_us e < 15) (drop 0 entries3)) = Suc 0" by (simp add: entries3_def)
  have "pm_now rman3 < 15" by (simp add: rman3_def)
  from fox_cur_move_right [OF reader_on3 [of 0, unfolded r] this, of env0] show ?thesis
    by (simp only: n r) simp
qed




text \<open>when every record after the first is at or after the requested time, moving back always
  ends at the start of the file, without looking at the first record: it is handed out next even
  when it is older than requested, and meanwhile the manager shows the second record's stamp.\<close>

theorem fox_cur_move_left_first:
  assumes "reader_on pman w f bs es i" and "linked 0 0 es" and "us < pm_now pman"
    and "1 \<le> i" and "i < length es" and "\<forall>k. 1 \<le> k \<and> k \<le> i \<longrightarrow> us \<le> e_us (es ! k)"
    and "e_us (es ! 1) \<le> stop" and "ev_malloc ev"
  shows "\<exists>pman' w' n r pman'' w''. fox_cur_move ev pman us w = Some (0, pman', w') \<and>
    pm_pos pman' = 0 \<and> pm_now pman' = e_us (es ! 1) \<and>
    fox_read ev pman' stop w' = (n, r, pman'', w'') \<and>
    rr_us r = Some (e_us (es ! 0)) \<and> rr_pp r = Some (e_data (es ! 0))"
proof -
  from assms(1) obtain n where o: "fds w (pm_fd pman) = Some (f, n)" "files w f = Some bs"
    "fox_log 0 bs es" and len: "length bs < 2 ^ 31"
    by (auto simp: reader_on_def opened_def)
  have "off_of es (Suc i) \<le> length bs" using off_of_le [OF o(3)] .
  then have "off_of es i < length bs" using assms(5) by (simp add: off_of_Suc entry_size_def)
  then have "to_size (pm_pos pman) \<noteq> pm_fsize pman"
    using assms(1) len by (simp add: reader_on_def size_eq_nat)
  then have "fox_cur_move ev pman us w =
      fox_cursor_left_loop (pm_fd pman) (int (off_of es i)) (pm_now pman) (ev_stack ev) pman us w"
    using assms(1,3) by (simp add: fox_cur_move_def fox_cursor_def fox_cursor_work_def fox_cursor_left_def reader_on_def)
  with cursor_left_start [OF o assms(2) len assms(4-6)] obtain m where
    mv: "fox_cur_move ev pman us w =
      Some (0, pman\<lparr>pm_pos := 0, pm_now := e_us (es ! 1), pm_last_pos := 0\<rparr>, at_off w (pm_fd pman) f m)"
    by metis
  let ?p = "pman\<lparr>pm_pos := 0, pm_now := e_us (es ! 1), pm_last_pos := 0\<rparr>"
  have "reader_on ?p (at_off w (pm_fd pman) f m) f bs es 0"
    using assms(1) by (simp add: reader_on_def opened_def)
  from fox_read_hit [OF this, of stop ev] assms(5,7,8) mv show ?thesis by fastforce
qed

theorem fox_cur_move_left_first_witness:
  "\<exists>pman' w' n r pman'' w''. fox_cur_move env0 (rman3\<lparr>pm_pos := 26, pm_now := 20\<rparr>) 15 world3 = Some (0, pman', w') \<and>
    fox_read env0 pman' 100 w' = (n, r, pman'', w'') \<and> rr_us r = Some 10"
proof -
  let ?r = "rman3\<lparr>pm_pos := 26, pm_now := 20\<rparr>"
  have r: "reader_on ?r world3 (pack_fname day0) bytes3 entries3 1"
    by (simp add: reader_on_def opened_def rman3_def bytes3_log)
  have k: "\<forall>k. 1 \<le> k \<and> k \<le> 1 \<longrightarrow> 15 \<le> e_us (entries3 ! k)"
  proof (intro allI impI)
    fix k :: nat
    assume "1 \<le> k \<and> k \<le> 1"
    then have "k = 1" by simp
    then show "15 \<le> e_us (entries3 ! k)" by simp
  qed
  from fox_cur_move_left_first [OF r, of 15 100 env0] k show ?thesis
    by fastforce
qed


section \<open>Limits and leaks\<close>

text \<open>C37: a position of 2 GiB or more, which the 32-bit \<open>next\<close> field can hold, cannot be read: the
  \<open>int\<close> that receives \<open>lseek\<close>'s result is negative and the read fails with \<open>EACCES\<close>, whatever the
  file holds there.\<close>

theorem fox_read_large_offset:
  assumes "fds w (pm_fd pman) = Some (f, n)" and "pm_now pman \<le> stop"
    and "2 ^ 31 \<le> pm_pos pman" and "pm_pos pman < 2 ^ 32"
  shows "fox_read ev pman stop w = (- EACCES, no_data (- EACCES), pman, at_off w (pm_fd pman) f (nat (pm_pos pman)))"
proof -
  have "to_c_int (pm_pos pman) < 0" using assms(3,4) by (simp add: to_c_int_high_neg)
  then show ?thesis
    using assms by (simp add: fox_read_def fox_read_work_def lseek_at no_data_def)
qed

theorem fox_read_large_offset_witness:
  "fox_read env0 (man0\<lparr>pm_pos := 2 ^ 31\<rparr>) 100 world3 =
     (- EACCES, no_data (- EACCES), man0\<lparr>pm_pos := 2 ^ 31\<rparr>, at_off world3 3 (pack_fname day0) (2 ^ 31))"
  using fox_read_large_offset [of world3 "man0\<lparr>pm_pos := 2 ^ 31\<rparr>" "pack_fname day0" 0 100 env0] by simp

text \<open>C27: turning a stamp into a calendar date and back gives the start of its second shifted by
  the local time zone: the date is broken down in UTC and reassembled in local time, so the two
  conversions are inverse exactly where the zone offset is zero.\<close>

theorem make_stamp_roundtrip:
  assumes "us < 10 ^ 18"
  shows "make_stamp tz (snd (get_date_from_us us)) + word_of_int tz * MICRO_UNIT = us - us mod MICRO_UNIT"
proof -
  have u: "us - us mod MICRO_UNIT = us div MICRO_UNIT * MICRO_UNIT"
    by (metis add_diff_cancel_right' word_mod_div_equality)
  have "word_of_int (int (unat us div 10 ^ 6)) = us div MICRO_UNIT"
  proof -
    have "unat us div 10 ^ 6 = unat (us div MICRO_UNIT)" by (simp add: unat_div)
    then show ?thesis by simp
  qed
  then show ?thesis
    unfolding make_stamp_of_us [OF assms] u by (simp add: algebra_simps)
qed

theorem make_stamp_roundtrip_witness:
  "make_stamp 28800 (snd (get_date_from_us 1700000000123456)) + 28800 * MICRO_UNIT = 1700000000000000"
  using make_stamp_roundtrip [of 1700000000123456 28800] by simp

text \<open>C39: asking a reader whose file has not grown to resize reopens the file: the cursor goes
  back to the start of the day, so records already handed out are handed out again, and the old
  descriptor stays open with no manager left that refers to it.\<close>

theorem fox_read_resize_rewinds:
  assumes "files w (pack_fname (day_start pman)) = Some bs" and "\<not> fd_size (pm_fd pman) w > pm_fsize pman"
    and "fds w (pm_fd pman) = Some (f, n)" and "fds w (ev_open ev) = None" and "0 \<le> ev_open ev"
  shows "\<exists>pman' w'. fox_read_resize ev pman w = Some (0, pman', w') \<and>
    pm_pos pman' = 0 \<and> pm_now pman' = fox_read_init_now ev pman \<and>
    pm_fd pman' = ev_open ev \<and> pm_fd pman \<noteq> pm_fd pman' \<and> fds w' (pm_fd pman) = Some (f, n)"
proof -
  have ne: "pm_fd pman \<noteq> ev_open ev" using assms(3,4) by auto
  have init: "fox_read_init_now ev (pman\<lparr>pm_fd := a, pm_year := d_year (day_start pman),
      pm_mon := d_mon (day_start pman), pm_mday := d_mday (day_start pman)\<rparr>) =
      make_stamp (ev_tz ev) (day_start pman)" for a
    by (simp add: fox_read_init_now_def day_start_def)
  show ?thesis
    using assms(1,2,3,5) ne
    by (simp add: fox_read_resize_def Let_def fox_setup_read_def sys_open_rdonly_def init fox_cursor_def
        fox_cursor_work_def) (simp add: fox_read_init_now_def)
qed

theorem fox_read_resize_rewinds_witness:
  "\<exists>pman' w'. fox_read_resize env0 (rman3\<lparr>pm_pos := 77\<rparr>) world3 = Some (0, pman', w') \<and>
    pm_pos pman' = 0 \<and> fds w' 3 = Some (pack_fname day0, 0)"
proof -
  have d: "day_start (rman3\<lparr>pm_pos := 77\<rparr>) = day0" by (simp add: day_start_def rman3_def day0_def)
  have "fd_size 3 world3 = 77"
    by (simp add: fd_size_def fd_content_def)
  moreover have "pm_fd rman3 = 3" "pm_fsize rman3 = 77" "fds world3 4 = None"
    by (simp_all add: rman3_def world3_def)
  ultimately show ?thesis
    using fox_read_resize_rewinds [of world3 "rman3\<lparr>pm_pos := 77\<rparr>" bytes3 "pack_fname day0" 0 env0]
    by (auto simp: d)
qed

end
