(* ===== verification/Bee_Queue.thy ===== *)
theory Bee_Queue
  imports Sysak_Prelude Store_Interfaces
begin

text \<open>
  The bounded message queue between the collector threads and the sender of
  source/tools/monitor/unity/beeQ/lib/beeQ.c: the ring buffer, thread registration, and the
  critical sections of sending, receiving and stopping. A region the code runs under the mutex
  is one function on the queue; where the code drops the mutex the other threads may run, and
  what they do is the argument \<open>env\<close>.
\<close>

abbreviation (input) BEEQ_TIDS :: nat where "BEEQ_TIDS \<equiv> 32"
abbreviation (input) LOOP_QUEUE_MAX :: nat where "LOOP_QUEUE_MAX \<equiv> 32"

section \<open>The queue\<close>

text \<open>\<open>None\<close> in \<open>q_msgs\<close> is \<open>NULL\<close>; a thread id of 0 in \<open>q_tids\<close> is a free slot.\<close>

record 'm beeQ =
  q_stop :: bool
  q_send :: nat
  q_recv :: nat
  q_size :: nat
  q_msgs :: "'m option list"
  q_tid_count :: nat
  q_tids :: "u64 list"

definition isfull :: "'m beeQ \<Rightarrow> bool" where
  "isfull q \<longleftrightarrow> (q_send q + 1) mod q_size q = q_recv q"

definition isempty :: "'m beeQ \<Rightarrow> bool" where
  "isempty q \<longleftrightarrow> q_send q = q_recv q"

fun replace_first :: "'a \<Rightarrow> 'a \<Rightarrow> 'a list \<Rightarrow> 'a list" where
  "replace_first a b [] = []"
| "replace_first a b (x # xs) = (if x = a then b # xs else x # replace_first a b xs)"

definition beeQ_register :: "u64 \<Rightarrow> 'm beeQ \<Rightarrow> int \<times> 'm beeQ" where
  "beeQ_register tid q =
     (if q_stop q \<or> q_tid_count q \<ge> BEEQ_TIDS then (- ENOENT, q)
      else (0, q\<lparr>q_tids := replace_first 0 tid (q_tids q), q_tid_count := q_tid_count q + 1\<rparr>))"

definition beeQ_thread_exit :: "u64 \<Rightarrow> 'm beeQ \<Rightarrow> 'm beeQ" where
  "beeQ_thread_exit tid q =
     (if q_tid_count q = 0 then q else q\<lparr>q_tids := replace_first tid 0 (q_tids q)\<rparr>)"

text \<open>
  Joining: the mutex is dropped before the slot is read again, so another thread may have
  cleared it. The result lists the ids passed to \<open>pthread_join\<close>.
\<close>

fun beeQ_join_from :: "(nat \<Rightarrow> 'm beeQ \<Rightarrow> 'm beeQ) \<Rightarrow> nat \<Rightarrow> nat \<Rightarrow> 'm beeQ \<Rightarrow> u64 list \<times> 'm beeQ" where
  "beeQ_join_from env 0 i q = ([], q)"
| "beeQ_join_from env (Suc n) i q =
     (if q_tids q ! i \<noteq> 0
      then (let q1 = env i q; (js, q2) = beeQ_join_from env n (Suc i) q1 in (q_tids q1 ! i # js, q2))
      else beeQ_join_from env n (Suc i) q)"

definition beeQ_join :: "(nat \<Rightarrow> 'm beeQ \<Rightarrow> 'm beeQ) \<Rightarrow> 'm beeQ \<Rightarrow> u64 list \<times> 'm beeQ" where
  "beeQ_join env q = beeQ_join_from env BEEQ_TIDS 0 q"

text \<open>Taking and storing one message.\<close>

definition queue_get :: "'m beeQ \<Rightarrow> 'm option \<times> 'm beeQ" where
  "queue_get q =
     (let r = (q_recv q + 1) mod q_size q
      in (q_msgs q ! r, q\<lparr>q_recv := r, q_msgs := (q_msgs q)[r := None]\<rparr>))"

definition queue_put :: "'m \<Rightarrow> 'm beeQ \<Rightarrow> 'm beeQ" where
  "queue_put msg q =
     (let s = (q_send q + 1) mod q_size q
      in q\<lparr>q_send := s, q_msgs := (q_msgs q)[s := Some msg]\<rparr>)"

definition beeQ_new :: "nat \<Rightarrow> 'm beeQ" where
  "beeQ_new n = \<lparr>q_stop = False, q_send = 0, q_recv = 0, q_size = n, q_msgs = replicate n None,
     q_tid_count = 0, q_tids = replicate BEEQ_TIDS 0\<rparr>"

section \<open>Sending\<close>

text \<open>
  One pass under the mutex: \<open>None\<close> when the queue is full, else whether the condition is
  signalled and the queue with the message stored.
\<close>

definition send_attempt :: "'m \<Rightarrow> 'm beeQ \<Rightarrow> (bool \<times> 'm beeQ) option" where
  "send_attempt msg q = (if isfull q then None else Some (isempty q, queue_put msg q))"

datatype send_result = Send_refused | Send_dropped | Send_queued bool

primrec send_ret :: "send_result \<Rightarrow> int" where
  "send_ret Send_refused = - 1"
| "send_ret Send_dropped = 0"
| "send_ret (Send_queued sig) = 0"

function beeQ_send_loop ::
  "(nat \<Rightarrow> 'm beeQ \<Rightarrow> 'm beeQ) \<Rightarrow> nat \<Rightarrow> 'm \<Rightarrow> 'm beeQ \<Rightarrow> send_result \<times> 'm beeQ" where
  "beeQ_send_loop env loop msg q =
     (case send_attempt msg q of
        Some (sig, q') \<Rightarrow> (Send_queued sig, q')
      | None \<Rightarrow>
          if loop + 1 < LOOP_QUEUE_MAX then beeQ_send_loop env (loop + 1) msg (env loop q)
          else (Send_dropped, env loop q))"
  by pat_completeness auto

termination
  by (relation "measure (\<lambda>(env, loop, msg, q). LOOP_QUEUE_MAX - loop)") auto

definition beeQ_send :: "(nat \<Rightarrow> 'm beeQ \<Rightarrow> 'm beeQ) \<Rightarrow> 'm \<Rightarrow> 'm beeQ \<Rightarrow> send_result \<times> 'm beeQ" where
  "beeQ_send env msg q = (if q_stop q then (Send_refused, q) else beeQ_send_loop env 0 msg q)"

declare beeQ_send_loop.simps [simp del]

section \<open>Stopping\<close>

text \<open>The section that sets the flag; the first component tells whether the condition is signalled.\<close>

definition stop_section :: "'m beeQ \<Rightarrow> bool \<times> 'm beeQ" where
  "stop_section q = (isempty q, q\<lparr>q_stop := True\<rparr>)"

text \<open>The loop that frees the messages left; it runs at most as often as there are slots.\<close>

fun clear_msgs :: "nat \<Rightarrow> 'm beeQ \<Rightarrow> 'm option list \<times> 'm beeQ" where
  "clear_msgs 0 q = ([], q)"
| "clear_msgs (Suc n) q =
     (if isempty q then ([], q)
      else (let (msg, q1) = queue_get q; (ms, q2) = clear_msgs n q1 in (msg # ms, q2)))"

definition beeQ_stop :: "(nat \<Rightarrow> 'm beeQ \<Rightarrow> 'm beeQ) \<Rightarrow> 'm beeQ \<Rightarrow> u64 list \<times> 'm option list \<times> 'm beeQ" where
  "beeQ_stop env q =
     (let (_, q1) = stop_section q; (js, q2) = beeQ_join env q1; (ms, q3) = clear_msgs (q_size q2) q2
      in (js, ms, q3))"

section \<open>Thread bodies of senders\<close>

text \<open>
  \<open>beeQ_send_run\<close>: register, run the callback, unregister. The callback's effect on the queue
  is an argument.
\<close>

definition beeQ_send_run :: "u64 \<Rightarrow> ('m beeQ \<Rightarrow> 'm beeQ) \<Rightarrow> 'm beeQ \<Rightarrow> 'm beeQ" where
  "beeQ_send_run tid cb q =
     (case beeQ_register tid q of (r, q1) \<Rightarrow>
        if r \<noteq> 0 then q1 else beeQ_thread_exit tid (cb q1))"

text \<open>
  \<open>beeQ_send_thread\<close>: \<open>res0\<close> is the uninitialised variable \<open>res\<close>, \<open>create\<close> the result of
  \<open>pthread_create\<close> and \<open>tid\<close> what it leaves in \<open>tid\<close>. The result is the returned value and whether
  the message block was freed here.
\<close>

definition beeQ_send_thread :: "'m beeQ \<Rightarrow> bool \<Rightarrow> int \<Rightarrow> int \<Rightarrow> u64 \<Rightarrow> u64 \<times> bool" where
  "beeQ_send_thread q malloc_ok res0 create tid =
     (if q_stop q then (word_of_int (- ENOENT), False)
      else if \<not> malloc_ok then (word_of_int res0, False)
      else if create < 0 then (word_of_int create, True)
      else (tid, False))"

section \<open>The ring buffer as a queue\<close>

text \<open>The messages waiting, oldest first.\<close>

definition waiting :: "'m beeQ \<Rightarrow> nat" where
  "waiting q = (q_send q + q_size q - q_recv q) mod q_size q"

definition slot :: "'m beeQ \<Rightarrow> nat \<Rightarrow> nat" where
  "slot q i = (q_recv q + 1 + i) mod q_size q"

definition pending_opts :: "'m beeQ \<Rightarrow> 'm option list" where
  "pending_opts q = map (\<lambda>i. q_msgs q ! slot q i) [0..<waiting q]"

definition queue_abs :: "'m beeQ \<Rightarrow> 'm list" where
  "queue_abs q = map the (pending_opts q)"

definition queue_inv :: "'m beeQ \<Rightarrow> bool" where
  "queue_inv q \<longleftrightarrow> 2 \<le> q_size q \<and> q_send q < q_size q \<and> q_recv q < q_size q \<and>
     length (q_msgs q) = q_size q \<and> None \<notin> set (pending_opts q)"


lemma mod_below_twice: "a < 2 * n \<Longrightarrow> a mod n = (if a < n then a else a - (n :: nat))"
  by (auto simp: mod_if)

lemma waiting_cases:
  assumes "q_send q < q_size q" and "q_recv q < q_size q"
  shows "waiting q = (if q_recv q \<le> q_send q then q_send q - q_recv q else q_send q + q_size q - q_recv q)"
  using assms by (simp add: waiting_def mod_below_twice)

lemma slot_cases:
  assumes "q_recv q < q_size q" and "i < q_size q"
  shows "slot q i = (if q_recv q + 1 + i < q_size q then q_recv q + 1 + i else q_recv q + 1 + i - q_size q)"
  unfolding slot_def using assms by (intro mod_below_twice) simp

lemma next_cases:
  "k < n \<Longrightarrow> (k + 1) mod n = (if k + 1 < n then k + 1 else (0 :: nat))"
  by (simp add: mod_below_twice)

lemma queue_invD:
  assumes "queue_inv q"
  shows "2 \<le> q_size q" "q_send q < q_size q" "q_recv q < q_size q" "length (q_msgs q) = q_size q"
    "None \<notin> set (pending_opts q)"
  using assms by (simp_all add: queue_inv_def)

lemma isempty_waiting: "queue_inv q \<Longrightarrow> isempty q = (waiting q = 0)"
  using queue_invD [of q] by (auto simp: isempty_def waiting_cases)

lemma isfull_waiting: "queue_inv q \<Longrightarrow> isfull q = (waiting q = q_size q - 1)"
  using queue_invD(1-3) [of q] by (auto simp: isfull_def waiting_cases mod_below_twice)

lemma length_pending [simp]: "length (pending_opts q) = waiting q"
  by (simp add: pending_opts_def)

lemma length_queue_abs [simp]: "length (queue_abs q) = waiting q"
  by (simp add: queue_abs_def)

lemma isempty_abs: "queue_inv q \<Longrightarrow> isempty q = (queue_abs q = [])"
  by (metis isempty_waiting length_0_conv length_queue_abs)

lemma waiting_less: "queue_inv q \<Longrightarrow> waiting q < q_size q"
  using queue_invD(1) [of q] by (simp add: waiting_def)

lemma queue_put_fields [simp]:
  "q_recv (queue_put m q) = q_recv q" "q_size (queue_put m q) = q_size q"
  "q_send (queue_put m q) = (q_send q + 1) mod q_size q"
  "q_msgs (queue_put m q) = (q_msgs q)[(q_send q + 1) mod q_size q := Some m]"
  "q_stop (queue_put m q) = q_stop q" "q_tids (queue_put m q) = q_tids q"
  "q_tid_count (queue_put m q) = q_tid_count q"
  by (simp_all add: queue_put_def Let_def)

lemma slot_put [simp]: "slot (queue_put m q) i = slot q i"
  by (simp add: slot_def)

lemma waiting_put:
  assumes "queue_inv q" and "\<not> isfull q"
  shows "waiting (queue_put m q) = Suc (waiting q)"
  using assms(2) queue_invD(1-3) [OF assms(1)]
  by (auto simp: waiting_cases isfull_def mod_below_twice split: if_splits)

lemma slot_waiting: "queue_inv q \<Longrightarrow> slot q (waiting q) = (q_send q + 1) mod q_size q"
  using queue_invD(1-3) [of q] waiting_less [of q]
  by (auto simp: slot_cases waiting_cases mod_below_twice split: if_splits)

lemma slot_inj:
  assumes "queue_inv q" and "i < q_size q" and "j < q_size q" and "slot q i = slot q j"
  shows "i = j"
  using assms(2-4) unfolding slot_cases [OF queue_invD(3) [OF assms(1)] assms(2)]
    slot_cases [OF queue_invD(3) [OF assms(1)] assms(3)]
  by (simp split: if_splits)

lemma pending_put:
  assumes "queue_inv q" and "\<not> isfull q"
  shows "pending_opts (queue_put m q) = pending_opts q @ [Some m]"
proof -
  note w = waiting_less [OF assms(1)]
  have len: "slot q i < length (q_msgs q)" for i
    using queue_invD(1,4) [OF assms(1)] by (simp add: slot_def)
  have "(q_msgs q)[slot q (waiting q) := Some m] ! slot q i = q_msgs q ! slot q i" if "i < waiting q" for i
    using slot_inj [OF assms(1), of "waiting q" i] that w by (intro nth_list_update_neq) auto
  then have "map (\<lambda>i. (q_msgs q)[slot q (waiting q) := Some m] ! slot q i) [0..<waiting q] = pending_opts q"
    by (simp add: pending_opts_def)
  then show ?thesis
    unfolding pending_opts_def [of "queue_put m q"] waiting_put [OF assms] slot_put queue_put_fields
      slot_waiting [OF assms(1), symmetric]
    using len by simp
qed

lemma queue_put_inv: "queue_inv q \<Longrightarrow> \<not> isfull q \<Longrightarrow> queue_inv (queue_put m q)"
  using queue_invD [of q] by (simp add: queue_inv_def [of "queue_put m q"] pending_put)

lemma queue_put_abs: "queue_inv q \<Longrightarrow> \<not> isfull q \<Longrightarrow> queue_abs (queue_put m q) = queue_abs q @ [m]"
  by (simp add: queue_abs_def pending_put)

lemma pending_get:
  assumes "queue_inv q" and "\<not> isempty q" and "queue_get q = (m, q')"
  shows "pending_opts q = m # pending_opts q'" and "q_size q' = q_size q" and "q_send q' = q_send q"
    and "q_recv q' = (q_recv q + 1) mod q_size q" and "length (q_msgs q') = length (q_msgs q)"
    and "q_stop q' = q_stop q"
proof -
  let ?r = "(q_recv q + 1) mod q_size q"
  have m: "m = q_msgs q ! slot q 0" and q': "q' = q\<lparr>q_recv := ?r, q_msgs := (q_msgs q)[slot q 0 := None]\<rparr>"
    using assms(3) by (auto simp: queue_get_def Let_def slot_def)
  show "q_size q' = q_size q" "q_send q' = q_send q" "q_recv q' = ?r" "length (q_msgs q') = length (q_msgs q)"
    "q_stop q' = q_stop q"
    by (simp_all add: q')
  note b = queue_invD(1-3) [OF assms(1)] and w = waiting_less [OF assms(1)]
  have wq: "waiting q = Suc (waiting q')"
    using assms(2) b by (auto simp: waiting_cases isempty_def mod_below_twice q' split: if_splits)
  have sl: "slot q' i = slot q (Suc i)" for i
  proof -
    have "slot q' i = (?r + (1 + i)) mod q_size q" by (simp add: slot_def q')
    also have "\<dots> = (q_recv q + 1 + (1 + i)) mod q_size q" by (rule mod_add_left_eq)
    finally show ?thesis by (simp add: slot_def)
  qed
  have "(q_msgs q)[slot q 0 := None] ! slot q (Suc i) = q_msgs q ! slot q (Suc i)" if "i < waiting q'" for i
    using slot_inj [OF assms(1), of 0 "Suc i"] that w wq b
    by (intro nth_list_update_neq) auto
  then have "pending_opts q' = map (\<lambda>i. q_msgs q ! slot q (Suc i)) [0..<waiting q']"
    by (simp add: pending_opts_def sl) (simp add: q')
  then show "pending_opts q = m # pending_opts q'"
    unfolding pending_opts_def [of q] wq m by (simp add: upt_conv_Cons map_Suc_upt [symmetric] del: upt_Suc)
qed

lemma queue_get_inv:
  assumes "queue_inv q" and "\<not> isempty q" and "queue_get q = (m, q')"
  shows "queue_inv q'" and "m = Some (hd (queue_abs q))" and "queue_abs q' = tl (queue_abs q)"
proof -
  note g = pending_get [OF assms] and b = queue_invD [OF assms(1)]
  show "queue_inv q'" using g b by (auto simp: queue_inv_def)
  have "m \<noteq> None" using g(1) b(5) by (metis list.set_intros(1))
  then show "m = Some (hd (queue_abs q))" "queue_abs q' = tl (queue_abs q)"
    by (auto simp: queue_abs_def g(1))
qed

text \<open>The queue as an append store and as a drain source.\<close>

definition queue_take :: "'m beeQ \<Rightarrow> ('m \<times> 'm beeQ) option" where
  "queue_take q = (if isempty q then None else case queue_get q of (m, q') \<Rightarrow> Some (the m, q'))"

interpretation bee_put: append_store queue_abs queue_inv "\<lambda>q _. \<not> isfull q" queue_put
  by unfold_locales (simp_all add: queue_put_abs queue_put_inv)

interpretation bee_get: drain_source queue_abs queue_inv queue_take
proof
  fix q :: "'m beeQ" and x xs
  assume inv: "queue_inv q"
  show "queue_take q = None" if "queue_abs q = []"
    using that inv by (simp add: queue_take_def isempty_abs)
  assume q: "queue_abs q = x # xs"
  then have "\<not> isempty q" using inv by (simp add: isempty_abs)
  moreover obtain m q' where "queue_get q = (m, q')" by force
  moreover note queue_get_inv [OF inv calculation]
  ultimately show "\<exists>q'. queue_take q = Some (x, q') \<and> queue_abs q' = xs \<and> queue_inv q'"
    using q by (simp add: queue_take_def)
qed

lemma queue_new_inv: "2 \<le> n \<Longrightarrow> queue_inv (beeQ_new n)"
  by (simp add: queue_inv_def beeQ_new_def pending_opts_def waiting_def)

lemma queue_new_abs: "queue_abs (beeQ_new n) = []"
  by (cases "n = 0") (simp_all add: queue_abs_def pending_opts_def waiting_def beeQ_new_def)


lemma clear_msgs_all:
  "queue_inv q \<Longrightarrow> waiting q \<le> n \<Longrightarrow> clear_msgs n q = (ms, q') \<Longrightarrow>
     ms = map Some (queue_abs q) \<and> queue_inv q' \<and> queue_abs q' = [] \<and> q_stop q' = q_stop q"
proof (induction n arbitrary: q ms q')
  case 0
  then have "queue_abs q = []" by (simp flip: length_0_conv)
  with 0 show ?case by auto
next
  case (Suc n)
  show ?case
  proof (cases "isempty q")
    case True
    with Suc.prems show ?thesis by (auto simp: isempty_abs)
  next
    case False
    obtain m q1 where g: "queue_get q = (m, q1)" by force
    obtain ms' q2 where c: "clear_msgs n q1 = (ms', q2)" by force
    note gi = queue_get_inv [OF Suc.prems(1) False g]
    have "waiting q1 = waiting q - 1"
      using gi(3) by (metis length_queue_abs length_tl)
    with Suc.IH [OF gi(1) _ c] Suc.prems(2)
    have "ms' = map Some (queue_abs q1)" "queue_inv q2" "queue_abs q2 = []" "q_stop q2 = q_stop q1" by auto
    moreover have "queue_abs q \<noteq> []" using False Suc.prems(1) by (simp add: isempty_abs)
    ultimately show ?thesis
      using Suc.prems(3) False gi g c pending_get(6) [OF Suc.prems(1) False g]
      by (cases "queue_abs q") auto
  qed
qed

end
