(* ===== verification/Bee_System.thy ===== *)
theory Bee_System
  imports Bee_Queue
begin

text \<open>
  The threads around one message queue: the thread in \<open>beeQ_init\<close> (and later \<open>beeQ_stop\<close>), the
  receiver \<open>beeQ_proc\<close>, and any number of threads inside \<open>beeQ_send\<close>. Each region under the mutex
  is one step; \<open>pthread_cond_wait\<close> is a state of its thread that only a signal, or a spurious
  wakeup, leaves.
\<close>

section \<open>Threads\<close>

text \<open>The receiver: waiting, woken but not yet holding the mutex again, or inside the callback.\<close>

datatype 'm receiver = R_start | R_registered | R_ready | R_wait | R_woken | R_callback 'm | R_leaving | R_done

datatype owner = O_created | O_init_wait | O_init_woken | O_running | O_stopping | O_freed

text \<open>A sender about to enter its first section, or about to retry after \<open>loop\<close> sleeps.\<close>

datatype 'm sender = S_enter 'm | S_retry nat 'm | S_return send_result

text \<open>
  The lists record the messages stored in the queue, in order, the messages handed to the
  callback, and those \<open>beeQ_stop\<close> frees.
\<close>

record 'm bee_sys =
  b_q :: "'m beeQ"
  b_recv :: "'m receiver"
  b_owner :: owner
  b_senders :: "'m sender list"
  b_put :: "'m list"
  b_got :: "'m list"
  b_freed :: "'m list"

definition bee_init :: "nat \<Rightarrow> 'm bee_sys" where
  "bee_init n = \<lparr>b_q = beeQ_new n, b_recv = R_start, b_owner = O_created, b_senders = [],
     b_put = [], b_got = [], b_freed = []\<rparr>"

section \<open>Signals\<close>

primrec wake :: "'m receiver \<Rightarrow> 'm receiver" where
  "wake R_start = R_start"
| "wake R_registered = R_registered"
| "wake R_ready = R_ready"
| "wake R_wait = R_woken"
| "wake R_woken = R_woken"
| "wake (R_callback m) = R_callback m"
| "wake R_leaving = R_leaving"
| "wake R_done = R_done"

text \<open>The receiver's signal finds at most the owner waiting.\<close>

definition wake_owner :: "owner \<Rightarrow> owner" where
  "wake_owner t = (if t = O_init_wait then O_init_woken else t)"

section \<open>The receiver\<close>

text \<open>The receiver with the mutex, at the head of the inner loop.\<close>

definition recv_section :: "'m bee_sys \<Rightarrow> 'm bee_sys" where
  "recv_section s =
     (if \<not> isempty (b_q s)
      then (case queue_get (b_q s) of (m, q') \<Rightarrow>
              s\<lparr>b_q := q', b_recv := R_callback (the m), b_got := b_got s @ [the m]\<rparr>)
      else if q_stop (b_q s) then s\<lparr>b_recv := R_leaving\<rparr>
      else s\<lparr>b_recv := R_wait\<rparr>)"

text \<open>
  The receiver's next step; \<open>init_res\<close> is what the queue's \<open>init\<close> callback returns. It is stuck in
  \<open>R_wait\<close> and in \<open>R_done\<close> only.
\<close>

fun recv_step :: "u64 \<Rightarrow> int \<Rightarrow> 'm bee_sys \<Rightarrow> 'm bee_sys option" where
  "recv_step tid init_res s =
     (case b_recv s of
        R_start \<Rightarrow> (case beeQ_register tid (b_q s) of (r, q') \<Rightarrow>
          Some (s\<lparr>b_q := q', b_recv := (if r \<noteq> 0 then R_done else R_registered)\<rparr>))
      | R_registered \<Rightarrow> Some (s\<lparr>b_recv := (if init_res < 0 then R_leaving else R_ready)\<rparr>)
      | R_ready \<Rightarrow> Some (s\<lparr>b_owner := wake_owner (b_owner s),
                          b_recv := (if q_stop (b_q s) then R_leaving else R_wait)\<rparr>)
      | R_wait \<Rightarrow> None
      | R_woken \<Rightarrow> Some (recv_section s)
      | R_callback m \<Rightarrow> Some (recv_section s)
      | R_leaving \<Rightarrow> Some (s\<lparr>b_q := beeQ_thread_exit tid (b_q s), b_recv := R_done\<rparr>)
      | R_done \<Rightarrow> None)"

section \<open>The senders\<close>

text \<open>One pass of a sender that has the mutex, with \<open>loop\<close> sleeps behind it.\<close>

definition send_pass :: "nat \<Rightarrow> nat \<Rightarrow> 'm \<Rightarrow> 'm bee_sys \<Rightarrow> 'm bee_sys" where
  "send_pass i loop m s =
     (case send_attempt m (b_q s) of
        Some (sig, q') \<Rightarrow>
          s\<lparr>b_q := q', b_recv := (if sig then wake (b_recv s) else b_recv s),
            b_put := b_put s @ [m], b_senders := (b_senders s)[i := S_return (Send_queued sig)]\<rparr>
      | None \<Rightarrow>
          s\<lparr>b_senders := (b_senders s)[i := if loop + 1 < LOOP_QUEUE_MAX then S_retry (loop + 1) m
                                             else S_return Send_dropped]\<rparr>)"

fun send_step :: "nat \<Rightarrow> 'm bee_sys \<Rightarrow> 'm bee_sys option" where
  "send_step i s =
     (if i < length (b_senders s)
      then (case b_senders s ! i of
              S_enter m \<Rightarrow>
                if q_stop (b_q s) then Some (s\<lparr>b_senders := (b_senders s)[i := S_return Send_refused]\<rparr>)
                else Some (send_pass i 0 m s)
            | S_retry loop m \<Rightarrow> Some (send_pass i loop m s)
            | S_return r \<Rightarrow> None)
      else None)"

section \<open>The owner\<close>

definition stop_step :: "'m bee_sys \<Rightarrow> 'm bee_sys" where
  "stop_step s =
     (case stop_section (b_q s) of (sig, q') \<Rightarrow>
        s\<lparr>b_q := q', b_recv := (if sig then wake (b_recv s) else b_recv s), b_owner := O_stopping\<rparr>)"

text \<open>
  After joining the threads the owner frees what is left in the queue.
\<close>

definition free_step :: "'m bee_sys \<Rightarrow> 'm bee_sys" where
  "free_step s =
     (case clear_msgs (q_size (b_q s)) (b_q s) of (ms, q') \<Rightarrow>
        s\<lparr>b_q := q', b_freed := b_freed s @ map the ms, b_owner := O_freed\<rparr>)"

fun returned :: "'m sender \<Rightarrow> bool" where
  "returned (S_return r) = True"
| "returned _ = False"

section \<open>The system\<close>

text \<open>
  \<open>sr\<close> and \<open>so\<close> tell whether the condition wait of the receiver, and that of the owner in
  \<open>beeQ_init\<close>, may also end without a signal. Senders exist once \<open>beeQ_init\<close> has returned the queue.
\<close>

inductive bee_step :: "bool \<Rightarrow> bool \<Rightarrow> u64 \<Rightarrow> 'm bee_sys \<Rightarrow> 'm bee_sys \<Rightarrow> bool"
  for sr :: bool and so :: bool and tid :: u64
where
  receiver: "recv_step tid init_res s = Some s' \<Longrightarrow> bee_step sr so tid s s'"
| sender: "send_step i s = Some s' \<Longrightarrow> bee_step sr so tid s s'"
| call_send: "b_owner s \<in> {O_running, O_stopping} \<Longrightarrow>
    bee_step sr so tid s (s\<lparr>b_senders := b_senders s @ [S_enter m]\<rparr>)"
| init_wait: "b_owner s = O_created \<Longrightarrow> bee_step sr so tid s (s\<lparr>b_owner := O_init_wait\<rparr>)"
| init_return: "b_owner s = O_init_woken \<Longrightarrow> bee_step sr so tid s (s\<lparr>b_owner := O_running\<rparr>)"
| stop: "b_owner s = O_running \<Longrightarrow> bee_step sr so tid s (stop_step s)"
| free: "b_owner s = O_stopping \<Longrightarrow> b_recv s = R_done \<Longrightarrow> list_all returned (b_senders s) \<Longrightarrow>
    bee_step sr so tid s (free_step s)"
| spurious_recv: "sr \<Longrightarrow> b_recv s = R_wait \<Longrightarrow> bee_step sr so tid s (s\<lparr>b_recv := R_woken\<rparr>)"
| spurious_owner: "so \<Longrightarrow> b_owner s = O_init_wait \<Longrightarrow>
    bee_step sr so tid s (s\<lparr>b_owner := O_init_woken\<rparr>)"

inductive bee_reach :: "bool \<Rightarrow> bool \<Rightarrow> u64 \<Rightarrow> 'm bee_sys \<Rightarrow> 'm bee_sys \<Rightarrow> bool"
  for sr :: bool and so :: bool and tid :: u64
where
  refl: "bee_reach sr so tid s s"
| step: "bee_reach sr so tid s t \<Longrightarrow> bee_step sr so tid t u \<Longrightarrow> bee_reach sr so tid s u"

section \<open>The invariant\<close>

text \<open>
  The queue is well-formed, the messages stored are those handed out followed by those waiting,
  and a receiver that waits for a signal has nothing to do.
\<close>

definition starting :: "owner \<Rightarrow> bool" where
  "starting t \<longleftrightarrow> t = O_created \<or> t = O_init_wait"

definition bee_inv :: "'m bee_sys \<Rightarrow> bool" where
  "bee_inv s \<longleftrightarrow> queue_inv (b_q s) \<and> b_put s = b_got s @ b_freed s @ queue_abs (b_q s) \<and>
     (b_recv s = R_wait \<longrightarrow> isempty (b_q s) \<and> \<not> q_stop (b_q s)) \<and>
     (b_recv s \<in> {R_start, R_registered, R_ready} \<longrightarrow> starting (b_owner s)) \<and>
     (starting (b_owner s) \<longrightarrow> b_senders s = [] \<and> queue_abs (b_q s) = [] \<and> \<not> q_stop (b_q s)) \<and>
     (b_owner s \<noteq> O_freed \<longrightarrow> b_freed s = []) \<and>
     (b_owner s = O_freed \<longrightarrow> b_recv s = R_done \<and> list_all returned (b_senders s) \<and> queue_abs (b_q s) = [])"

lemma bee_invD:
  assumes "bee_inv s"
  shows "queue_inv (b_q s)" "b_put s = b_got s @ b_freed s @ queue_abs (b_q s)"
    "b_recv s = R_wait \<Longrightarrow> isempty (b_q s)" "b_recv s = R_wait \<Longrightarrow> \<not> q_stop (b_q s)"
    "b_recv s \<in> {R_start, R_registered, R_ready} \<Longrightarrow> starting (b_owner s)"
    "starting (b_owner s) \<Longrightarrow> b_senders s = []" "starting (b_owner s) \<Longrightarrow> queue_abs (b_q s) = []"
    "starting (b_owner s) \<Longrightarrow> \<not> q_stop (b_q s)"
    "b_owner s \<noteq> O_freed \<Longrightarrow> b_freed s = []" "b_owner s = O_freed \<Longrightarrow> b_recv s = R_done"
    "b_owner s = O_freed \<Longrightarrow> list_all returned (b_senders s)" "b_owner s = O_freed \<Longrightarrow> queue_abs (b_q s) = []"
  using assms by (simp_all add: bee_inv_def)

lemma starting_simps [simp]:
  "starting O_created" "starting O_init_wait" "\<not> starting O_init_woken" "\<not> starting O_running"
  "\<not> starting O_stopping" "\<not> starting O_freed" "\<not> starting (wake_owner t) \<or> t = O_created"
  by (auto simp: starting_def wake_owner_def)

lemma queue_frame [simp]:
  "queue_inv (q\<lparr>q_tids := a, q_tid_count := b\<rparr>) = queue_inv q"
  "queue_inv (q\<lparr>q_tids := a\<rparr>) = queue_inv q"
  "queue_inv (q\<lparr>q_stop := c\<rparr>) = queue_inv q"
  "queue_abs (q\<lparr>q_tids := a, q_tid_count := b\<rparr>) = queue_abs q"
  "queue_abs (q\<lparr>q_tids := a\<rparr>) = queue_abs q"
  "queue_abs (q\<lparr>q_stop := c\<rparr>) = queue_abs q"
  "isempty (q\<lparr>q_tids := a, q_tid_count := b\<rparr>) = isempty q"
  "isempty (q\<lparr>q_tids := a\<rparr>) = isempty q"
  "isempty (q\<lparr>q_stop := c\<rparr>) = isempty q"
  by (simp_all add: queue_inv_def queue_abs_def pending_opts_def waiting_def slot_def isempty_def)

lemma wake_cases:
  "wake r \<noteq> R_wait" "(wake r = R_done) = (r = R_done)" "(wake r = R_start) = (r = R_start)"
  "(wake r = R_registered) = (r = R_registered)" "(wake r = R_ready) = (r = R_ready)"
  by (cases r; simp)+

lemma recv_section_inv:
  assumes "bee_inv s" and "b_recv s \<in> {R_woken} \<union> range R_callback"
  shows "bee_inv (recv_section s)"
proof -
  note i = bee_invD [OF assms(1)]
  have no: "b_owner s \<noteq> O_freed" using i(10) assms(2) by auto
  show ?thesis
  proof (cases "isempty (b_q s)")
    case True
    with i no show ?thesis by (auto simp: recv_section_def bee_inv_def)
  next
    case False
    obtain m q' where g: "queue_get (b_q s) = (m, q')" by force
    note gi = queue_get_inv [OF i(1) False g]
    have "queue_abs (b_q s) \<noteq> []" using False i(1) by (simp add: isempty_abs)
    moreover from this i(7) have "\<not> starting (b_owner s)" by auto
    ultimately show ?thesis
      using False i no g gi by (simp add: recv_section_def bee_inv_def)
  qed
qed

lemma send_pass_inv:
  assumes "bee_inv s" and "b_owner s \<noteq> O_freed" and "\<not> starting (b_owner s)"
  shows "bee_inv (send_pass i loop m s)"
proof -
  note i = bee_invD [OF assms(1)]
  have r: "b_recv s \<noteq> R_start" "b_recv s \<noteq> R_registered" "b_recv s \<noteq> R_ready" using i(5) assms(3) by auto
  show ?thesis
  proof (cases "isfull (b_q s)")
    case True
    with i assms(2,3) r show ?thesis by (simp add: send_pass_def send_attempt_def bee_inv_def)
  next
    case False
    then have "queue_inv (queue_put m (b_q s))" "queue_abs (queue_put m (b_q s)) = queue_abs (b_q s) @ [m]"
      using i(1) by (simp_all add: queue_put_inv queue_put_abs)
    moreover have "b_recv s \<noteq> R_wait" if "\<not> isempty (b_q s)" using that i(3) by auto
    ultimately show ?thesis
      using False i assms(2,3) r by (simp add: send_pass_def send_attempt_def bee_inv_def wake_cases)
  qed
qed

lemma register_frame:
  "beeQ_register tid q = (r, q') \<Longrightarrow> queue_inv q' = queue_inv q \<and> queue_abs q' = queue_abs q \<and>
     isempty q' = isempty q \<and> q_stop q' = q_stop q"
  by (auto simp: beeQ_register_def split: if_splits)

lemma exit_frame:
  "queue_inv (beeQ_thread_exit tid q) = queue_inv q" "queue_abs (beeQ_thread_exit tid q) = queue_abs q"
  "isempty (beeQ_thread_exit tid q) = isempty q" "q_stop (beeQ_thread_exit tid q) = q_stop q"
  by (auto simp: beeQ_thread_exit_def)

lemma recv_step_inv:
  assumes "bee_inv s" and "recv_step tid init_res s = Some s'"
  shows "bee_inv s'"
proof (cases "b_recv s")
  case R_start
  then show ?thesis
    using assms by (auto simp: bee_inv_def split: prod.splits if_splits dest: register_frame)
next
  case R_leaving
  then show ?thesis
    using assms by (auto simp: exit_frame bee_inv_def)
next
  case R_ready
  then show ?thesis
    using assms by (auto simp: bee_inv_def wake_owner_def isempty_abs starting_def)
next
  case R_registered
  then show ?thesis
    using assms by (auto simp: bee_inv_def split: if_splits)
qed (use assms recv_section_inv in auto)


lemma return_inv:
  assumes "bee_inv s" and "b_owner s \<noteq> O_freed" and "\<not> starting (b_owner s)"
  shows "bee_inv (s\<lparr>b_senders := ss\<rparr>)"
  using assms by (auto simp: bee_inv_def)

lemma stop_step_inv:
  assumes "bee_inv s" and "b_owner s = O_running"
  shows "bee_inv (stop_step s)"
proof -
  note i = bee_invD [OF assms(1)]
  have "b_recv s \<noteq> R_wait" if "\<not> isempty (b_q s)" using that i(3) by auto
  moreover have "b_recv s \<noteq> R_start" "b_recv s \<noteq> R_registered" "b_recv s \<noteq> R_ready"
    using i(5) assms(2) by auto
  ultimately show ?thesis
    using i assms(2) by (simp add: stop_step_def stop_section_def bee_inv_def wake_cases)
qed

lemma free_step_inv:
  assumes "bee_inv s" and "b_owner s = O_stopping" and "b_recv s = R_done" and "list_all returned (b_senders s)"
  shows "bee_inv (free_step s)"
proof -
  obtain ms q' where c: "clear_msgs (q_size (b_q s)) (b_q s) = (ms, q')" by force
  note i = bee_invD [OF assms(1)]
  have "ms = map Some (queue_abs (b_q s)) \<and> queue_inv q' \<and> queue_abs q' = [] \<and> q_stop q' = q_stop (b_q s)"
    using clear_msgs_all [OF i(1) _ c] waiting_less [OF i(1)] by simp
  then show ?thesis
    using assms(2-4) i(2,9) c by (simp add: free_step_def bee_inv_def comp_def)
qed

lemma bee_step_inv:
  assumes "bee_step sr False tid s s'" and "bee_inv s"
  shows "bee_inv s'"
  using assms
proof (cases rule: bee_step.cases)
  case (receiver init_res)
  then show ?thesis using assms(2) recv_step_inv by blast
next
  case (sender i)
  then have i: "i < length (b_senders s)" "\<not> returned (b_senders s ! i)"
    by (simp_all split: if_splits sender.splits)
  then have o: "b_owner s \<noteq> O_freed" "\<not> starting (b_owner s)"
    using bee_invD(6,11) [OF assms(2)] by (auto simp: list_all_length)
  show ?thesis
  proof (cases "b_senders s ! i")
    case (S_enter m)
    then show ?thesis
      using sender i send_pass_inv [OF assms(2) o] return_inv [OF assms(2) o]
      by (cases "q_stop (b_q s)") auto
  next
    case (S_retry loop m)
    then show ?thesis using sender i send_pass_inv [OF assms(2) o] by auto
  next
    case (S_return r)
    with i show ?thesis by simp
  qed
next
  case stop
  then show ?thesis using stop_step_inv [OF assms(2)] by simp
next
  case free
  then show ?thesis using free_step_inv [OF assms(2)] by simp
next
  case (call_send m)
  then have "b_owner s \<noteq> O_freed" "\<not> starting (b_owner s)" by (auto simp: starting_def)
  with call_send return_inv [OF assms(2)] show ?thesis by simp
next
  case init_wait
  then show ?thesis using bee_invD [OF assms(2)] by (simp add: bee_inv_def)
next
  case init_return
  then show ?thesis using bee_invD [OF assms(2)] by (simp add: bee_inv_def) (auto simp: starting_def)
next
  case spurious_recv
  then show ?thesis using bee_invD [OF assms(2)] by (simp add: bee_inv_def) auto
qed simp_all

lemma bee_reach_inv: "bee_reach sr False tid s t \<Longrightarrow> bee_inv s \<Longrightarrow> bee_inv t"
  by (induction rule: bee_reach.induct) (auto dest: bee_step_inv)

lemma bee_init_inv: "2 \<le> n \<Longrightarrow> bee_inv (bee_init n)"
  using queue_new_inv [of n] by (simp add: bee_inv_def bee_init_def queue_new_abs starting_def) (simp add: beeQ_new_def)

end
