(* ===== verification/Bee_Theorems.thy ===== *)
theory Bee_Theorems
  imports Bee_System
begin

text \<open>
  The properties of the message queue and of the threads around it: delivery in order, no lost
  wakeup, draining, the outcome of a send, and the flaws of start-up and registration.
\<close>

section \<open>Runs of the receiver alone\<close>

fun recv_run :: "u64 \<Rightarrow> nat \<Rightarrow> 'm bee_sys \<Rightarrow> 'm bee_sys option" where
  "recv_run tid 0 s = Some s"
| "recv_run tid (Suc n) s = (case recv_step tid 0 s of None \<Rightarrow> None | Some s' \<Rightarrow> recv_run tid n s')"

definition receiving :: "'m receiver \<Rightarrow> bool" where
  "receiving r \<longleftrightarrow> r = R_woken \<or> (\<exists>m. r = R_callback m)"

lemma recv_step_receiving: "receiving (b_recv s) \<Longrightarrow> recv_step tid i s = Some (recv_section s)"
  by (auto simp: receiving_def)

lemma recv_run_drains:
  assumes "bee_inv s" and "receiving (b_recv s)"
  shows "\<exists>s'. recv_run tid (Suc (length (queue_abs (b_q s)))) s = Some s' \<and>
    b_got s' = b_got s @ queue_abs (b_q s) \<and> queue_abs (b_q s') = [] \<and> b_put s' = b_put s \<and>
    b_recv s' = (if q_stop (b_q s) then R_leaving else R_wait)"
  using assms
proof (induction "queue_abs (b_q s)" arbitrary: s)
  case Nil
  then show ?case
    using bee_invD(1) [OF Nil.prems(1)]
    by (simp add: recv_step_receiving recv_section_def isempty_abs flip: Nil.hyps del: recv_step.simps)
next
  case (Cons m ms)
  note inv = bee_invD(1) [OF Cons.prems(1)]
  obtain m' q' where g: "queue_get (b_q s) = (m', q')" by force
  have ne: "\<not> isempty (b_q s)" using inv Cons.hyps(2) by (simp add: isempty_abs flip: Cons.hyps(2))
  note gi = queue_get_inv [OF inv ne g]
  let ?s = "recv_section s"
  have s: "?s = s\<lparr>b_q := q', b_recv := R_callback m, b_got := b_got s @ [m]\<rparr>"
    using ne g gi(2) by (simp add: recv_section_def flip: Cons.hyps(2))
  have r: "b_recv s \<in> {R_woken} \<union> range R_callback" using Cons.prems(2) by (auto simp: receiving_def)
  have ms: "ms = queue_abs (b_q ?s)" using gi(3) by (simp add: s flip: Cons.hyps(2))
  have "receiving (b_recv ?s)" by (simp add: s receiving_def)
  from Cons.hyps(1) [OF ms recv_section_inv [OF Cons.prems(1) r] this] obtain s' where
    "recv_run tid (Suc (length ms)) ?s = Some s'" "b_got s' = b_got ?s @ ms" "queue_abs (b_q s') = []"
    "b_put s' = b_put ?s" "b_recv s' = (if q_stop (b_q ?s) then R_leaving else R_wait)"
    unfolding ms [symmetric] by blast
  moreover have "q_stop (b_q ?s) = q_stop (b_q s)" "b_put ?s = b_put s"
    using pending_get(6) [OF inv ne g] by (simp_all add: s)
  ultimately show ?case
    using Cons.prems(2) by (simp add: recv_step_receiving s flip: Cons.hyps(2) del: recv_step.simps)
qed

section \<open>Some reachable states\<close>

lemma reach_trans_step: "bee_reach sr so tid s t \<Longrightarrow> bee_step sr so tid t u \<Longrightarrow> v = u \<Longrightarrow> bee_reach sr so tid s v"
  by (simp add: bee_reach.step)

definition registered_q :: "u64 \<Rightarrow> nat \<Rightarrow> 'm beeQ" where
  "registered_q tid n = (beeQ_new n)\<lparr>q_tids := tid # replicate 31 0, q_tid_count := 1\<rparr>"

lemma register_new: "beeQ_register tid (beeQ_new n) = (0, registered_q tid n)"
  by (simp add: beeQ_register_def beeQ_new_def registered_q_def numeral_eq_Suc)

definition bee_at :: "u64 \<Rightarrow> nat \<Rightarrow> 'm receiver \<Rightarrow> owner \<Rightarrow> 'm bee_sys" where
  "bee_at tid n r t = \<lparr>b_q = registered_q tid n, b_recv = r, b_owner = t, b_senders = [],
     b_put = [], b_got = [], b_freed = []\<rparr>"

lemma registered_q_simps [simp]:
  "\<not> q_stop (registered_q tid n)" "isempty (registered_q tid n)" "q_size (registered_q tid n) = n"
  "queue_abs (registered_q tid n) = []"
  by (simp_all add: registered_q_def queue_new_abs) (simp_all add: beeQ_new_def isempty_def)

text \<open>The receiver gets ready first: its signal is lost, and the owner then waits.\<close>

lemma reach_ready: "bee_reach sr so tid (bee_init n) (bee_at tid n R_ready O_created)"
proof -
  have "bee_reach sr so tid (bee_init n) (bee_at tid n R_registered O_created)"
    by (rule reach_trans_step [OF bee_reach.refl, OF bee_step.receiver])
      (auto simp: bee_init_def bee_at_def register_new)
  then show ?thesis
    by (rule reach_trans_step [OF _ bee_step.receiver [of _ 0]]) (auto simp: bee_at_def)
qed

lemma reach_stuck: "bee_reach sr so tid (bee_init n) (bee_at tid n R_wait O_init_wait)"
proof -
  have "bee_reach sr so tid (bee_init n) (bee_at tid n R_wait O_created)"
    by (rule reach_trans_step [OF reach_ready bee_step.receiver]) (auto simp: bee_at_def wake_owner_def)
  then show ?thesis
    by (rule reach_trans_step [OF _ bee_step.init_wait]) (auto simp: bee_at_def)
qed

text \<open>The owner waits first: the receiver's signal wakes it.\<close>

lemma reach_running: "bee_reach sr so tid (bee_init n) (bee_at tid n R_wait O_running)"
proof -
  have "bee_reach sr so tid (bee_init n) (bee_at tid n R_ready O_init_wait)"
    by (rule reach_trans_step [OF reach_ready bee_step.init_wait]) (auto simp: bee_at_def)
  then have "bee_reach sr so tid (bee_init n) (bee_at tid n R_wait O_init_woken)"
    by (rule reach_trans_step [OF _ bee_step.receiver]) (auto simp: bee_at_def wake_owner_def)
  then show ?thesis
    by (rule reach_trans_step [OF _ bee_step.init_return]) (auto simp: bee_at_def)
qed

text \<open>A sender has stored its message and woken the receiver.\<close>

definition bee_one :: "u64 \<Rightarrow> nat \<Rightarrow> 'm \<Rightarrow> 'm bee_sys" where
  "bee_one tid n m = (bee_at tid n R_woken O_running)\<lparr>b_q := queue_put m (registered_q tid n),
     b_put := [m], b_senders := [S_return (Send_queued True)]\<rparr>"

lemma registered_not_full: "2 \<le> n \<Longrightarrow> \<not> isfull (registered_q tid n)"
  by (simp add: isfull_def registered_q_def beeQ_new_def)

lemma reach_one: "2 \<le> n \<Longrightarrow> bee_reach sr so tid (bee_init n) (bee_one tid n m)"
proof -
  assume n: "2 \<le> n"
  have "bee_reach sr so tid (bee_init n) ((bee_at tid n R_wait O_running)\<lparr>b_senders := [S_enter m]\<rparr>)"
    by (rule reach_trans_step [OF reach_running bee_step.call_send]) (auto simp: bee_at_def)
  then show ?thesis
    by (rule reach_trans_step [OF _ bee_step.sender [of 0]])
      (auto simp: bee_at_def bee_one_def send_pass_def send_attempt_def registered_not_full [OF n])
qed

lemma bee_one_simps [simp]:
  "b_recv (bee_one tid n m) = R_woken" "b_owner (bee_one tid n m) = O_running"
  "b_q (bee_one tid n m) = queue_put m (registered_q tid n)"
  "b_put (bee_one tid n m) = [m]" "b_got (bee_one tid n m) = []" "b_freed (bee_one tid n m) = []"
  by (simp_all add: bee_one_def bee_at_def)

lemma bee_one_abs: "2 \<le> n \<Longrightarrow> queue_abs (b_q (bee_one tid n m)) = [m]"
  using queue_put_abs [of "registered_q tid n" m] registered_not_full [of n tid]
  by (simp add: registered_q_def queue_new_inv queue_new_abs)

section \<open>Properties\<close>





text \<open>C7: the receiver drains the queue: from any reachable state in which it has been woken or is
  in its callback, one step more than there are messages waiting hands all of them to the
  callback, after which it waits again, or leaves if the queue is being stopped.\<close>

theorem bee_drains:
  assumes "2 \<le> n" and "bee_reach sr False tid (bee_init n) s" and "receiving (b_recv s)"
    and "b_owner s \<noteq> O_freed"
  shows "\<exists>s'. recv_run tid (Suc (length (queue_abs (b_q s)))) s = Some s' \<and>
    b_got s' = b_put s \<and> queue_abs (b_q s') = [] \<and>
    b_recv s' = (if q_stop (b_q s) then R_leaving else R_wait)"
proof -
  note inv = bee_reach_inv [OF assms(2) bee_init_inv [OF assms(1)]]
  have "b_put s = b_got s @ queue_abs (b_q s)" using bee_invD(2,9) [OF inv] assms(4) by simp
  with recv_run_drains [OF inv assms(3), of tid] show ?thesis by metis
qed

theorem bee_drains_witness:
  "\<exists>s'. recv_run 7 2 (bee_one 7 4 (65 :: nat)) = Some s' \<and> b_got s' = [65] \<and> b_recv s' = R_wait"
proof -
  have "receiving R_woken" by (simp add: receiving_def)
  then show ?thesis
    using bee_drains [of 4 True 7 "bee_one 7 4 (65 :: nat)"] reach_one [of 4 True False 7 "65 :: nat"]
      bee_one_abs [of 4 7 "65 :: nat"]
    by (auto simp: numeral_2_eq_2 simp del: recv_run.simps length_queue_abs)
qed


fun looks :: "(nat \<Rightarrow> 'm beeQ \<Rightarrow> 'm beeQ) \<Rightarrow> 'm beeQ \<Rightarrow> nat \<Rightarrow> 'm beeQ" where
  "looks env q 0 = q"
| "looks env q (Suc k) = env k (looks env q k)"

lemma send_loop_looks:
  assumes "k < LOOP_QUEUE_MAX"
  shows "beeQ_send_loop env k m (looks env q k) =
    (case find (\<lambda>i. \<not> isfull (looks env q i)) [k..<LOOP_QUEUE_MAX] of
       Some i \<Rightarrow> (Send_queued (isempty (looks env q i)), queue_put m (looks env q i))
     | None \<Rightarrow> (Send_dropped, looks env q LOOP_QUEUE_MAX))"
  using assms
proof (induction "LOOP_QUEUE_MAX - k" arbitrary: k)
  case 0
  then show ?case by simp
next
  case (Suc d)
  have upt: "[k..<LOOP_QUEUE_MAX] = k # [Suc k..<LOOP_QUEUE_MAX]"
    using Suc.prems by (simp add: upt_conv_Cons)
  show ?case
  proof (cases "isfull (looks env q k)")
    case False
    then show ?thesis unfolding upt by (subst beeQ_send_loop.simps) (simp add: send_attempt_def)
  next
    case True
    show ?thesis
    proof (cases "Suc k < LOOP_QUEUE_MAX")
      case more: True
      have "beeQ_send_loop env k m (looks env q k) = beeQ_send_loop env (Suc k) m (looks env q (Suc k))"
        using True more by (subst beeQ_send_loop.simps) (simp add: send_attempt_def)
      also note Suc.hyps(1) [of "Suc k"]
      finally show ?thesis using Suc.hyps(2) True more unfolding upt by simp
    next
      case False
      then have "k = 31" using Suc.prems by simp
      then show ?thesis
        using True by (subst beeQ_send_loop.simps) (simp add: send_attempt_def numeral_eq_Suc)
    qed
  qed
qed

text \<open>C21: the outcome of a send in full: a stopped queue refuses the message; otherwise it is stored
  at the first of 32 looks at which the queue is not full, and the condition is signalled exactly
  when the queue was empty there; if all 32 looks find it full the message is dropped, and that too
  is reported as 0.\<close>

theorem beeQ_send_outcome:
  "beeQ_send env m q =
    (if q_stop q then (Send_refused, q)
     else case find (\<lambda>i. \<not> isfull (looks env q i)) [0..<LOOP_QUEUE_MAX] of
       Some i \<Rightarrow> (Send_queued (isempty (looks env q i)), queue_put m (looks env q i))
     | None \<Rightarrow> (Send_dropped, looks env q LOOP_QUEUE_MAX)) \<and>
   send_ret Send_dropped = send_ret (Send_queued True)"
  using send_loop_looks [of 0 env m q] by (simp add: beeQ_send_def)

text \<open>C28: start-up can hang. The receiver may signal the condition before the thread in
  \<open>beeQ_init\<close> waits for it; both then wait for ever, no thread of the system can take a step.\<close>

theorem beeQ_init_deadlock:
  "\<exists>s. bee_reach False False tid (bee_init n) s \<and> b_owner s = O_init_wait \<and> b_recv s = R_wait \<and>
     \<not> (\<exists>s'. bee_step False False tid s s')"
proof (intro exI conjI)
  show "bee_reach False False tid (bee_init n) (bee_at tid n R_wait O_init_wait)"
    by (rule reach_stuck)
  show "\<not> (\<exists>s'. bee_step False False tid (bee_at tid n R_wait O_init_wait) s')"
    by (auto simp: bee_at_def elim!: bee_step.cases)
qed (simp_all add: bee_at_def)

lemma registered_inv: "2 \<le> n \<Longrightarrow> queue_inv (queue_put m (registered_q tid n))"
  using queue_put_inv [of "registered_q tid n" m] registered_not_full [of n tid]
  by (simp add: registered_q_def queue_new_inv)

lemma send_pass_keeps:
  assumes "queue_inv (b_q s)" and "queue_abs (b_q s) \<noteq> []"
  shows "b_recv (send_pass i loop x s) = b_recv s" and "queue_abs (b_q (send_pass i loop x s)) \<noteq> []"
proof -
  have "\<not> isempty (b_q s)" using assms by (simp add: isempty_abs)
  then show "b_recv (send_pass i loop x s) = b_recv s" "queue_abs (b_q (send_pass i loop x s)) \<noteq> []"
    using assms by (cases "isfull (b_q s)"; simp add: send_pass_def send_attempt_def queue_put_abs)+
qed

lemma send_step_keeps:
  assumes "queue_inv (b_q s)" and "queue_abs (b_q s) \<noteq> []" and "send_step i s = Some s'"
  shows "b_recv s' = b_recv s \<and> queue_abs (b_q s') \<noteq> []"
  using assms(3) send_pass_keeps [OF assms(1,2)] assms(2)
  by (cases "b_senders s ! i") (auto split: if_splits)

text \<open>a spurious wakeup of the thread in \<open>beeQ_init\<close>, which does not test any condition when
  its wait returns, lets messages in before the receiver is ready: the receiver then waits with a
  message in the queue, and no later send wakes it, because only a send to an empty queue signals.\<close>

theorem beeQ_init_spurious:
  assumes "3 \<le> n"
  shows "\<exists>s. bee_reach False True tid (bee_init n) s \<and> b_recv s = R_wait \<and> queue_abs (b_q s) = [m] \<and>
    (\<forall>ss i s'. send_step i (s\<lparr>b_senders := ss\<rparr>) = Some s' \<longrightarrow> b_recv s' = R_wait \<and> queue_abs (b_q s') \<noteq> [])"
proof -
  let ?q = "queue_put m (beeQ_new n)" and ?r = "queue_put m (registered_q tid n)"
  let ?t = "\<lambda>q r. \<lparr>b_q = q, b_recv = r, b_owner = O_running, b_senders = [S_return (Send_queued True)],
    b_put = [m], b_got = [], b_freed = []\<rparr>"
  have nf: "\<not> isfull (beeQ_new n :: 'a beeQ)" "isempty (beeQ_new n :: 'a beeQ)"
    using assms by (simp_all add: isfull_def isempty_def beeQ_new_def)
  have "bee_reach False True tid (bee_init n) ((bee_init n)\<lparr>b_owner := O_init_wait\<rparr>)"
    by (rule reach_trans_step [OF bee_reach.refl bee_step.init_wait]) (simp_all add: bee_init_def)
  then have "bee_reach False True tid (bee_init n) ((bee_init n)\<lparr>b_owner := O_init_woken\<rparr>)"
    by (rule reach_trans_step [OF _ bee_step.spurious_owner]) (simp_all add: bee_init_def)
  then have "bee_reach False True tid (bee_init n) ((bee_init n)\<lparr>b_owner := O_running\<rparr>)"
    by (rule reach_trans_step [OF _ bee_step.init_return]) (simp_all add: bee_init_def)
  then have "bee_reach False True tid (bee_init n) ((bee_init n)\<lparr>b_owner := O_running, b_senders := [S_enter m]\<rparr>)"
    by (rule reach_trans_step [OF _ bee_step.call_send]) (simp_all add: bee_init_def)
  then have "bee_reach False True tid (bee_init n) (?t ?q R_start)"
    by (rule reach_trans_step [OF _ bee_step.sender [of 0]])
      (auto simp: bee_init_def send_pass_def send_attempt_def nf, simp add: beeQ_new_def)
  then have "bee_reach False True tid (bee_init n) (?t ?r R_registered)"
    by (rule reach_trans_step [OF _ bee_step.receiver])
      (auto simp: beeQ_register_def registered_q_def beeQ_new_def queue_put_def Let_def numeral_eq_Suc)
  then have "bee_reach False True tid (bee_init n) (?t ?r R_ready)"
    by (rule reach_trans_step [OF _ bee_step.receiver [of _ 0]]) auto
  then have "bee_reach False True tid (bee_init n) (?t ?r R_wait)"
    by (rule reach_trans_step [OF _ bee_step.receiver]) (auto simp: wake_owner_def)
  moreover have abs: "queue_abs ?r = [m]" using bee_one_abs [of n tid m] assms by simp
  moreover have "b_recv s' = R_wait \<and> queue_abs (b_q s') \<noteq> []"
    if "send_step i ((?t ?r R_wait)\<lparr>b_senders := ss\<rparr>) = Some s'" for ss i s'
    using send_step_keeps [OF _ _ that] abs registered_inv [of n m tid] assms by simp
  ultimately show ?thesis
    by (intro exI [of _ "?t ?r R_wait"]) simp
qed

theorem beeQ_init_spurious_witness:
  "\<exists>s. bee_reach False True 7 (bee_init 4) s \<and> b_recv s = R_wait \<and> queue_abs (b_q s) = [65 :: nat]"
  using beeQ_init_spurious [of 4 7 "65 :: nat"] by auto


lemma replace_back: "t \<noteq> 0 \<Longrightarrow> replace_first t 0 (replace_first 0 t (replicate k 0)) = replicate k (0 :: u64)"
  by (cases k) simp_all

lemma beeQ_register_cycles:
  "length ts \<le> BEEQ_TIDS \<Longrightarrow> 0 \<notin> set ts \<Longrightarrow>
    fold (\<lambda>t q. beeQ_thread_exit t (snd (beeQ_register t q))) ts (beeQ_new n) =
      (beeQ_new n)\<lparr>q_tid_count := length ts\<rparr>"
proof (induction ts rule: rev_induct)
  case Nil
  then show ?case by (simp add: beeQ_new_def)
next
  case (snoc t ts)
  then show ?case
    using replace_back [of t BEEQ_TIDS] by (simp add: beeQ_register_def beeQ_thread_exit_def beeQ_new_def)
qed

text \<open>C31: registrations are never given back. After 32 threads have registered and exited, every
  slot is free again, yet no further thread can register: the counter only grows.\<close>

theorem beeQ_register_exhausted:
  assumes "length ts = BEEQ_TIDS" and "0 \<notin> set ts"
    and "q = fold (\<lambda>t q. beeQ_thread_exit t (snd (beeQ_register t q))) ts (beeQ_new n)"
  shows "q_tids q = replicate BEEQ_TIDS 0 \<and> beeQ_register tid q = (- ENOENT, q)"
proof -
  have "q = (beeQ_new n)\<lparr>q_tid_count := BEEQ_TIDS\<rparr>"
    using beeQ_register_cycles [of ts n] assms by simp
  then show ?thesis by (simp add: beeQ_register_def) (simp add: beeQ_new_def)
qed

theorem beeQ_register_exhausted_witness:
  "q_tids (fold (\<lambda>t q. beeQ_thread_exit t (snd (beeQ_register t q))) (replicate 32 9) (beeQ_new 4 :: nat beeQ)) =
     replicate 32 0"
  using beeQ_register_exhausted [of "replicate 32 9" "fold (\<lambda>t q. beeQ_thread_exit t (snd (beeQ_register t q))) (replicate 32 9) (beeQ_new 4 :: nat beeQ)" 4 5]
  by simp

end
