(* ===== verification/Fast_Ksym.thy ===== *)
theory Fast_Ksym
  imports Sysak_Prelude "HOL-Library.Multiset"
begin

text \<open>
  The kernel symbol table of source/tools/monitor/unity/collector/native/fastKsym.c: loading
  \<open>/proc/kallsyms\<close> line by line into a file of fixed-size cells, sorting the cells by address, and
  the binary search that maps an address to the symbol it lies in.
\<close>

section \<open>Cells\<close>

text \<open>
  A cell is its address and the 96 bytes that follow: \<open>func[64]\<close>, \<open>module[31]\<close> and \<open>type\<close>. Keeping
  the bytes shows what a string that fills its field does to the field behind it.
\<close>

record ksym_cell =
  k_addr :: u64
  k_mem :: string

abbreviation NUL :: char where "NUL \<equiv> CHR 0x00"
abbreviation (input) FUNC_OFF :: nat where "FUNC_OFF \<equiv> 0"
abbreviation MODULE_OFF :: nat where "MODULE_OFF \<equiv> 64"
abbreviation TYPE_OFF :: nat where "TYPE_OFF \<equiv> 95"
abbreviation CELL_BYTES :: nat where "CELL_BYTES \<equiv> 96"

definition c_string :: "nat \<Rightarrow> string \<Rightarrow> string" where
  "c_string off mem = takeWhile (\<lambda>c. c \<noteq> NUL) (drop off mem)"

definition k_func :: "ksym_cell \<Rightarrow> string" where "k_func c = c_string FUNC_OFF (k_mem c)"
definition k_module :: "ksym_cell \<Rightarrow> string" where "k_module c = c_string MODULE_OFF (k_mem c)"
definition k_type :: "ksym_cell \<Rightarrow> char" where "k_type c = k_mem c ! TYPE_OFF"

text \<open>What \<open>sscanf\<close> does for \<open>%s\<close>: the characters and a terminating NUL.\<close>

definition store_str :: "nat \<Rightarrow> string \<Rightarrow> string \<Rightarrow> string" where
  "store_str off t mem = take off mem @ t @ [NUL] @ drop (off + length t + 1) mem"

section \<open>Reading a line\<close>

definition is_space :: "char \<Rightarrow> bool" where
  "is_space c \<longleftrightarrow> c \<in> {CHR '' '', CHR 0x09, CHR 0x0A, CHR 0x0B, CHR 0x0C, CHR 0x0D}"

definition is_hex :: "char \<Rightarrow> bool" where
  "is_hex c \<longleftrightarrow> c \<in> set ''0123456789abcdefABCDEF''"

definition hex_digit :: "char \<Rightarrow> nat" where
  "hex_digit c =
     (let n = of_char c :: nat
      in if n \<le> 57 then n - 48 else if n \<le> 70 then n - 55 else n - 87)"

definition hex_value :: "string \<Rightarrow> nat" where
  "hex_value ds = foldl (\<lambda>v c. 16 * v + hex_digit c) 0 ds"

definition skip_space :: "string \<Rightarrow> string" where
  "skip_space = dropWhile is_space"

definition token :: "string \<Rightarrow> string" where
  "token = takeWhile (\<lambda>c. \<not> is_space c)"

text \<open>
  \<open>sscanf(buf, "%p %c %64s %31s", &addr, &cell.type, cell.func, cell.module)\<close> on a line whose
  address is written in plain hexadecimal digits, as the kernel prints it: the number of
  conversions (-1 for end of input before the first), the address, and the cell's bytes. An
  address too large for a pointer saturates.
\<close>

definition ksym_scan :: "string \<Rightarrow> string \<Rightarrow> int \<times> u64 \<times> string" where
  "ksym_scan buf mem =
     (let s1 = skip_space buf; ds = takeWhile is_hex s1;
          addr = word_of_nat (min (hex_value ds) (2 ^ 64 - 1))
      in if s1 = [] then (- 1, 0, mem)
         else if ds = [] then (0, 0, mem)
         else
           (let s2 = skip_space (drop (length ds) s1)
            in if s2 = [] then (1, addr, mem)
               else
                 (let mem1 = mem[TYPE_OFF := hd s2]; s3 = skip_space (tl s2)
                  in if s3 = [] then (2, addr, mem1)
                     else
                       (let func = take 64 (token s3); mem2 = store_str FUNC_OFF func mem1;
                            s4 = skip_space (drop (length func) s3)
                        in if s4 = [] then (3, addr, mem2)
                           else (4, addr, store_str MODULE_OFF (take 31 (token s4)) mem2)))))"

text \<open>\<open>fgets\<close> with room for \<open>n\<close> characters.\<close>

fun fgets :: "nat \<Rightarrow> string \<Rightarrow> string \<times> string" where
  "fgets 0 s = ([], s)"
| "fgets (Suc n) [] = ([], [])"
| "fgets (Suc n) (c # s) = (if c = CHR 0x0A then ([c], s) else case fgets n s of (l, r) \<Rightarrow> (c # l, r))"

lemma fgets_append: "fgets n s = (l, r) \<Longrightarrow> s = l @ r"
  by (induction n s arbitrary: l r rule: fgets.induct) (auto split: if_splits prod.splits)

lemma fgets_nonempty: "s \<noteq> [] \<Longrightarrow> fst (fgets (Suc n) s) \<noteq> []"
  by (cases s) (auto split: prod.split)

lemma fgets_Suc_shorter:
  assumes "s \<noteq> []" and "fgets (Suc n) s = (l, r)"
  shows "length r < length s"
proof -
  have "l \<noteq> []" using fgets_nonempty [OF assms(1), of n] assms(2) by simp
  with fgets_append [OF assms(2)] show ?thesis by simp
qed

lemma fgets_shorter:
  assumes "s \<noteq> []" and "fgets 127 s = (l, r)"
  shows "length r < length s"
  using fgets_Suc_shorter [of s 126 l r] assms by simp

section \<open>Loading\<close>

text \<open>
  The loop over the lines: \<open>wr k\<close> is the result of the write for the \<open>k\<close>-th stored cell. The
  result is the returned value and the cells written.
\<close>

function load_loop ::
  "bool \<Rightarrow> (nat \<Rightarrow> int) \<Rightarrow> string \<Rightarrow> string \<Rightarrow> ksym_cell list \<Rightarrow> int \<times> ksym_cell list" where
  "load_loop stack_only wr content mem cells =
     (if content = [] then (int (length cells), cells)
      else case fgets 127 content of (buf, rest) \<Rightarrow>
        (case ksym_scan buf mem of (ret, addr, mem1) \<Rightarrow>
           if ret < 3 then (ret, cells)
           else
             (let mem2 = (if ret = 3 then mem1[MODULE_OFF := NUL] else mem1); ty = mem2 ! TYPE_OFF
              in if addr = 0 then load_loop stack_only wr rest mem2 cells
                 else if stack_only \<and> ty \<noteq> CHR ''t'' \<and> ty \<noteq> CHR ''T'' then load_loop stack_only wr rest mem2 cells
                 else if wr (length cells) < 0 then (wr (length cells), cells)
                 else load_loop stack_only wr rest mem2 (cells @ [\<lparr>k_addr = addr, k_mem = mem2\<rparr>]))))"
  by pat_completeness auto

termination
  by (relation "measure (\<lambda>(stack_only, wr, content, mem, cells). length content)")
    (simp, (simp only: in_measure case_prod_conv, blast intro: fgets_shorter sym)+)

declare load_loop.simps [simp del]


text \<open>\<open>kallsyms\<close> is the file's content, or the \<open>errno\<close> of a failed \<open>fopen\<close>; \<open>mem0\<close> is the stack
  garbage the cell starts with.\<close>

definition load_ksyms :: "bool \<Rightarrow> (nat \<Rightarrow> int) \<Rightarrow> int + string \<Rightarrow> string \<Rightarrow> int \<times> ksym_cell list" where
  "load_ksyms stack_only wr kallsyms mem0 =
     (case kallsyms of Inl err \<Rightarrow> (- err, []) | Inr content \<Rightarrow> load_loop stack_only wr content mem0 [])"

section \<open>Sorting\<close>

definition sym_cmp :: "ksym_cell \<Rightarrow> ksym_cell \<Rightarrow> int" where
  "sym_cmp p1 p2 = (if k_addr p1 > k_addr p2 then 1 else 0)"

text \<open>The merge sort behind glibc's \<open>qsort\<close>: an element of the left half goes first unless the
  comparison is positive.\<close>

fun merge_by :: "('a \<Rightarrow> 'a \<Rightarrow> int) \<Rightarrow> 'a list \<Rightarrow> 'a list \<Rightarrow> 'a list" where
  "merge_by cmp [] ys = ys"
| "merge_by cmp xs [] = xs"
| "merge_by cmp (x # xs) (y # ys) =
     (if cmp x y \<le> 0 then x # merge_by cmp xs (y # ys) else y # merge_by cmp (x # xs) ys)"

function qsort :: "('a \<Rightarrow> 'a \<Rightarrow> int) \<Rightarrow> 'a list \<Rightarrow> 'a list" where
  "qsort cmp xs =
     (if length xs \<le> 1 then xs
      else merge_by cmp (qsort cmp (take (length xs div 2) xs)) (qsort cmp (drop (length xs div 2) xs)))"
  by pat_completeness auto

termination
  by (relation "measure (\<lambda>(cmp, xs). length xs)") auto

declare qsort.simps [simp del]

section \<open>Set-up\<close>

text \<open>
  The static variables: the number of symbols and the mapped cells. \<open>Unmapped\<close> is the pointer
  \<open>mmap\<close> returns on failure, which the code does not recognise, and \<open>Null\<close> the initial value.
\<close>

datatype ksym_map = Null | Unmapped | Mapped "ksym_cell list"

record ksyms =
  sym_cnt :: int
  gCell :: ksym_map

definition zero_cell :: ksym_cell where
  "zero_cell = \<lparr>k_addr = 0, k_mem = replicate CELL_BYTES NUL\<rparr>"

text \<open>
  \<open>sort_ksym\<close> sorts the first \<open>count\<close> cells of the mapping; cells behind the end of the file read as
  zeros, and an empty file cannot be mapped. \<open>None\<close> is a crash: sorting through the failure pointer.
\<close>

definition sort_ksym :: "bool \<Rightarrow> bool \<Rightarrow> ksym_cell list \<Rightarrow> nat \<Rightarrow> ksym_map \<Rightarrow> (int \<times> ksym_map) option" where
  "sort_ksym fstat_ok mmap_ok cells cnt old =
     (if \<not> fstat_ok then Some (- 1, old)
      else if \<not> mmap_ok \<or> cells = [] then (if cnt \<le> 1 then Some (0, Unmapped) else None)
      else (let arr = cells @ replicate (cnt - length cells) zero_cell
            in Some (0, Mapped (qsort sym_cmp (take cnt arr) @ drop cnt arr))))"

definition ksym_setup ::
  "(int + unit) \<Rightarrow> bool \<Rightarrow> bool \<Rightarrow> (nat \<Rightarrow> int) \<Rightarrow> int + string \<Rightarrow> string \<Rightarrow> bool \<Rightarrow> ksyms \<Rightarrow> (int \<times> ksyms) option" where
  "ksym_setup tmpfile fstat_ok mmap_ok wr kallsyms mem0 stack_only st =
     (case tmpfile of
        Inl err \<Rightarrow> Some (- err, st)
      | Inr _ \<Rightarrow>
          (case load_ksyms stack_only wr kallsyms mem0 of (ret, cells) \<Rightarrow>
             if ret < 0 then Some (ret, st)
             else (case sort_ksym fstat_ok mmap_ok cells (nat ret) (gCell st) of
                     None \<Rightarrow> None
                   | Some (ret', m) \<Rightarrow> Some (ret', \<lparr>sym_cnt = ret, gCell = m\<rparr>))))"

section \<open>Searching\<close>

text \<open>
  The loop over the interval; \<open>Inl mid\<close> when the key is met, else the bounds at the end.
\<close>

function search_loop :: "ksym_cell list \<Rightarrow> u64 \<Rightarrow> nat \<Rightarrow> nat \<Rightarrow> nat + nat \<times> nat" where
  "search_loop cs key start end' =
     (if start < end'
      then (let mid = start + (end' - start) div 2
            in if key < k_addr (cs ! mid) then search_loop cs key start mid
               else if key > k_addr (cs ! mid) then search_loop cs key (mid + 1) end'
               else Inl mid)
      else Inr (start, end'))"
  by pat_completeness auto

termination
  by (relation "measure (\<lambda>(cs, key, start, end'). end' - start)") auto

declare search_loop.simps [simp del]

text \<open>The cell read at index \<open>sym_cnt\<close> lies behind the table; its address is the argument \<open>oob\<close>.\<close>

definition cell_addr :: "u64 \<Rightarrow> ksym_cell list \<Rightarrow> nat \<Rightarrow> u64" where
  "cell_addr oob cs i = (if i < length cs then k_addr (cs ! i) else oob)"

datatype ksym_found = Found nat | Not_found | Crash

definition ksym_search :: "u64 \<Rightarrow> ksyms \<Rightarrow> u64 \<Rightarrow> ksym_found" where
  "ksym_search oob st key =
     (if sym_cnt st \<le> 0 then Not_found
      else case gCell st of
        Null \<Rightarrow> Crash
      | Unmapped \<Rightarrow> Crash
      | Mapped cs \<Rightarrow>
          (case search_loop cs key 0 (nat (sym_cnt st)) of
             Inl mid \<Rightarrow> Found mid
           | Inr (start, end') \<Rightarrow>
               if start > 0 \<and> cell_addr oob cs (start - 1) < key \<and> key < cell_addr oob cs start
               then Found (start - 1)
               else if int start = sym_cnt st then Found (end' - 1)
               else Not_found))"

section \<open>Sorting with a two-valued comparison\<close>

lemma merge_by_mset: "mset (merge_by cmp xs ys) = mset xs + mset ys"
  by (induction cmp xs ys rule: merge_by.induct) auto

lemma set_merge_by: "set (merge_by cmp xs ys) = set xs \<union> set ys"
  using arg_cong [OF merge_by_mset [of cmp xs ys], of set_mset] by simp

lemma qsort_mset: "mset (qsort cmp xs) = mset xs"
proof (induction cmp xs rule: qsort.induct)
  case (1 cmp xs)
  show ?case
  proof (cases "length xs \<le> 1")
    case True
    then show ?thesis by (simp add: qsort.simps)
  next
    case False
    have "mset (take n xs) + mset (drop n xs) = mset xs" for n
      by (metis append_take_drop_id mset_append)
    with False 1 show ?thesis by (subst qsort.simps) (simp add: merge_by_mset)
  qed
qed

lemma length_qsort [simp]: "length (qsort cmp xs) = length xs"
  by (metis qsort_mset size_mset)

text \<open>What the sort asks of a comparison function: only the sign being positive matters.\<close>

locale qsort_compare =
  fixes cmp :: "'a \<Rightarrow> 'a \<Rightarrow> int" and le :: "'a \<Rightarrow> 'a \<Rightarrow> bool"
  assumes cmp_le: "cmp x y \<le> 0 \<longleftrightarrow> le x y"
    and le_total: "le x y \<or> le y x"
    and le_trans: "le x y \<Longrightarrow> le y z \<Longrightarrow> le x z"
begin

lemma sorted_merge:
  "sorted_wrt le xs \<Longrightarrow> sorted_wrt le ys \<Longrightarrow> sorted_wrt le (merge_by cmp xs ys)"
proof (induction c \<equiv> cmp xs ys rule: merge_by.induct)
  case (3 x xs y ys)
  show ?case
  proof (cases "le x y")
    case True
    then have "\<forall>z \<in> set (merge_by cmp xs (y # ys)). le x z"
      using 3(3,4) le_trans by (auto simp: set_merge_by)
    with True 3 show ?thesis by (simp add: cmp_le)
  next
    case False
    then have "le y x" using le_total by blast
    then have "\<forall>z \<in> set (merge_by cmp (x # xs) ys). le y z"
      using 3(3,4) le_trans by (auto simp: set_merge_by)
    with False 3 show ?thesis by (simp add: cmp_le)
  qed
qed simp_all

lemma sorted_qsort: "sorted_wrt le (qsort cmp xs)"
proof (induction c \<equiv> cmp xs rule: qsort.induct)
  case (1 xs)
  show ?case
  proof (cases "length xs \<le> 1")
    case True
    then show ?thesis by (cases xs) (simp_all add: qsort.simps)
  next
    case False
    with 1 show ?thesis by (subst qsort.simps) (simp add: sorted_merge)
  qed
qed

end

interpretation by_addr: qsort_compare sym_cmp "\<lambda>x y. k_addr x \<le> k_addr y"
  by unfold_locales (auto simp: sym_cmp_def)

lemma sorted_qsort_sym: "sorted (map k_addr (qsort sym_cmp xs))"
  using by_addr.sorted_qsort [of xs] by (simp add: sorted_map)

section \<open>The search\<close>

lemma search_loop_spec:
  assumes "sorted (map k_addr cs)" and "end' \<le> length cs" and "start \<le> end'"
    and "\<forall>i < start. k_addr (cs ! i) < key" and "\<forall>i. end' \<le> i \<and> i < length cs \<longrightarrow> key < k_addr (cs ! i)"
  shows "case search_loop cs key start end' of
    Inl mid \<Rightarrow> mid < length cs \<and> k_addr (cs ! mid) = key
  | Inr (s, e) \<Rightarrow> s = e \<and> s \<le> length cs \<and> (\<forall>i < s. k_addr (cs ! i) < key) \<and>
      (\<forall>i. s \<le> i \<and> i < length cs \<longrightarrow> key < k_addr (cs ! i))"
  using assms
proof (induction cs key start end' rule: search_loop.induct)
  case (1 cs key start end')
  show ?case
  proof (cases "start < end'")
    case False
    with 1 show ?thesis by (subst search_loop.simps) simp
  next
    case True
    let ?mid = "start + (end' - start) div 2"
    have mid: "start \<le> ?mid" "?mid < end'" using True by auto
    have mono: "i \<le> j \<Longrightarrow> j < length cs \<Longrightarrow> k_addr (cs ! i) \<le> k_addr (cs ! j)" for i j
      using 1(3) by (auto simp: sorted_iff_nth_mono)
    consider "key < k_addr (cs ! ?mid)" | "key > k_addr (cs ! ?mid)" | "key = k_addr (cs ! ?mid)" by fastforce
    then show ?thesis
    proof cases
      case a: 1
      have "\<forall>i. ?mid \<le> i \<and> i < length cs \<longrightarrow> key < k_addr (cs ! i)"
        using a mono by (meson order_less_le_trans)
      with "1.IH"(1) [OF True refl a "1.prems"(1)] mid "1.prems" True a show ?thesis
        by (subst search_loop.simps) (simp add: Let_def)
    next
      case b: 2
      have "\<forall>i < ?mid + 1. k_addr (cs ! i) < key"
      proof (intro allI impI)
        fix i
        assume "i < ?mid + 1"
        then have "k_addr (cs ! i) \<le> k_addr (cs ! ?mid)" using mono [of i ?mid] mid "1.prems"(2) by simp
        with b show "k_addr (cs ! i) < key" by simp
      qed
      moreover have nk: "\<not> key < k_addr (cs ! ?mid)" using b by auto
      ultimately show ?thesis
        using "1.IH"(2) [OF True refl nk b "1.prems"(1)] mid "1.prems" True b nk
        by (subst search_loop.simps) (simp add: Let_def)
    next
      case 3
      with mid "1.prems" True show ?thesis by (subst search_loop.simps) (simp add: Let_def)
    qed
  qed
qed

end
