(* ===== verification/Ksym_Theorems.thy ===== *)
theory Ksym_Theorems
  imports Fast_Ksym
begin

text \<open>
  The properties of the kernel symbol table: what is loaded from a well-formed symbol file, what
  the search returns, and where loading goes wrong.
\<close>

section \<open>The kernel's output format\<close>

record ksym =
  s_addr :: u64
  s_type :: char
  s_name :: string
  s_module :: "string option"

fun hex_str :: "nat \<Rightarrow> nat \<Rightarrow> string" where
  "hex_str 0 n = []"
| "hex_str (Suc k) n = hex_str k (n div 16) @ [''0123456789abcdef'' ! (n mod 16)]"

text \<open>A line of \<open>/proc/kallsyms\<close>; the module is printed in brackets behind a tab.\<close>

definition ksym_line :: "ksym \<Rightarrow> string" where
  "ksym_line s = hex_str 16 (unat (s_addr s)) @ '' '' @ [s_type s] @ '' '' @ s_name s @
     (case s_module s of None \<Rightarrow> [] | Some m \<Rightarrow> CHR 0x09 # m) @ [CHR 0x0A]"

definition plain :: "string \<Rightarrow> bool" where
  "plain t \<longleftrightarrow> t \<noteq> [] \<and> list_all (\<lambda>c. \<not> is_space c \<and> c \<noteq> NUL) t"

definition ksym_ok :: "ksym \<Rightarrow> bool" where
  "ksym_ok s \<longleftrightarrow> \<not> is_space (s_type s) \<and> plain (s_name s) \<and> length (s_name s) < 64 \<and>
     (case s_module s of None \<Rightarrow> True | Some m \<Rightarrow> plain m \<and> length m < 31)"

text \<open>The weaker condition that the conversions do not cut anything off.\<close>

definition ksym_fits :: "ksym \<Rightarrow> bool" where
  "ksym_fits s \<longleftrightarrow> \<not> is_space (s_type s) \<and> plain (s_name s) \<and> length (s_name s) < 64 \<and>
     (case s_module s of None \<Rightarrow> True | Some m \<Rightarrow> plain m \<and> length m \<le> 31)"

lemma ksym_ok_fits: "ksym_ok s \<Longrightarrow> ksym_fits s"
  by (auto simp: ksym_ok_def ksym_fits_def split: option.splits)

lemma hex_char: "d < 16 \<Longrightarrow> is_hex (''0123456789abcdef'' ! d) \<and> hex_digit (''0123456789abcdef'' ! d) = d"
  by (auto simp: less_Suc_eq numeral_eq_Suc is_hex_def hex_digit_def)

lemma hex_str_ok: "list_all is_hex (hex_str k n) \<and> length (hex_str k n) = k \<and> hex_value (hex_str k n) = n mod 16 ^ k"
proof (induction k arbitrary: n)
  case 0
  then show ?case by (simp add: hex_value_def)
next
  case (Suc k)
  have "n mod 16 ^ Suc k = 16 * (n div 16 mod 16 ^ k) + n mod 16"
    by (simp add: mod_mult2_eq)
  with Suc [of "n div 16"] hex_char [of "n mod 16"] show ?case
    by (simp add: hex_value_def)
qed

lemma hex_not_space: "is_hex c \<Longrightarrow> \<not> is_space c"
  by (auto simp: is_hex_def is_space_def)

lemma space_facts [simp]:
  "is_space (CHR '' '')" "is_space (CHR 0x09)" "is_space (CHR 0x0A)"
  "\<not> is_hex (CHR '' '')"
  by (simp_all add: is_space_def is_hex_def)

lemma skip_space_stop: "\<not> is_space c \<Longrightarrow> skip_space (c # s) = c # s"
  "is_space c \<Longrightarrow> skip_space (c # s) = skip_space s"
  "skip_space [] = []"
  by (simp_all add: skip_space_def)

lemma skip_space_plain: "plain t \<Longrightarrow> skip_space (t @ r) = t @ r"
  by (cases t) (auto simp: plain_def skip_space_stop)

lemma token_plain: "plain t \<Longrightarrow> is_space c \<Longrightarrow> token (t @ c # r) = t"
  by (auto simp: token_def plain_def list_all_iff takeWhile_append2)

lemma takeWhile_hex: "list_all is_hex ds \<Longrightarrow> \<not> is_hex c \<Longrightarrow> takeWhile is_hex (ds @ c # r) = ds"
  by (auto simp: list_all_iff takeWhile_append2)

text \<open>Scanning a well-formed line converts three or four fields.\<close>

lemma ksym_scan_line:
  assumes "ksym_fits s"
  shows "ksym_scan (ksym_line s) mem =
    (let mem2 = store_str FUNC_OFF (s_name s) (mem[TYPE_OFF := s_type s])
     in case s_module s of
          None \<Rightarrow> (3, s_addr s, mem2)
        | Some m \<Rightarrow> (4, s_addr s, store_str MODULE_OFF m mem2))"
proof -
  let ?ds = "hex_str 16 (unat (s_addr s))"
  let ?tail = "(case s_module s of None \<Rightarrow> [] | Some m \<Rightarrow> CHR 0x09 # m) @ [CHR 0x0A]"
  have line: "ksym_line s = ?ds @ CHR '' '' # s_type s # CHR '' '' # s_name s @ ?tail"
    by (simp add: ksym_line_def)
  have h: "list_all is_hex ?ds" "length ?ds = 16" "hex_value ?ds = unat (s_addr s)"
    using hex_str_ok [of 16 "unat (s_addr s)"] unat_bound [of "s_addr s"] by simp_all
  have ne: "?ds \<noteq> []" using h(2) by auto
  then have s1: "skip_space (ksym_line s) = ksym_line s"
    using h(1) unfolding line by (cases ?ds) (auto simp: skip_space_stop hex_not_space)
  have ds: "takeWhile is_hex (ksym_line s) = ?ds"
    unfolding line using h(1) by (intro takeWhile_hex) simp_all
  have addr: "word_of_nat (min (hex_value ?ds) (2 ^ 64 - 1)) = s_addr s"
    using unat_bound [of "s_addr s"] by (simp add: h(3) min_def)
  have ok: "\<not> is_space (s_type s)" "plain (s_name s)" "length (s_name s) < 64"
    using assms by (simp_all add: ksym_fits_def)
  have nm: "token (s_name s @ ?tail) = s_name s"
    using ok(2) by (cases "s_module s") (simp_all add: token_plain)
  have nn: "s_name s \<noteq> []" using ok(2) by (simp add: plain_def)
  show ?thesis
  proof (cases "s_module s")
    case None
    then show ?thesis
      using ok nm nn ne unfolding ksym_scan_def Let_def s1 ds addr
      by (simp add: line skip_space_stop skip_space_plain)
  next
    case (Some m)
    then have m: "plain m" "length m \<le> 31" using assms by (simp_all add: ksym_fits_def)
    then have "skip_space (m @ [CHR 0x0A]) = m @ [CHR 0x0A]" "token (m @ [CHR 0x0A]) = m" "m \<noteq> []"
      by (simp_all add: skip_space_plain token_plain) (simp add: plain_def)
    with Some m show ?thesis
      using ok nm nn ne unfolding ksym_scan_def Let_def s1 ds addr
      by (simp add: line skip_space_stop skip_space_plain)
  qed
qed

section \<open>Cells of well-formed symbols\<close>

lemma length_store_str [simp]:
  "off + length t < length mem \<Longrightarrow> length (store_str off t mem) = length mem"
  by (simp add: store_str_def)

lemma c_string_store:
  "off + length t < length mem \<Longrightarrow> plain t \<Longrightarrow> c_string off (store_str off t mem) = t"
  by (auto simp: c_string_def store_str_def plain_def list_all_iff takeWhile_append2)

lemma c_string_store_before:
  assumes "off + length t < off'" and "off' + length t' < length mem" and "plain t"
  shows "c_string off (store_str off' t' (store_str off t mem)) = t"
proof -
  have "take off' (store_str off t mem) = take off mem @ t @ NUL # drop (off + length t + 1) (take off' mem)"
  proof -
    obtain k where "off' = Suc (off + length t + k)" using assms(1) less_iff_Suc_add by auto
    then show ?thesis using assms(2) by (simp add: store_str_def take_drop min_def ac_simps)
  qed
  then have "store_str off' t' (store_str off t mem) = take off mem @ t @ NUL #
      (drop (off + length t + 1) (take off' mem) @ t' @ [NUL] @ drop (off' + length t' + 1) (store_str off t mem))"
    by (simp add: store_str_def [of off' t'])
  with assms show ?thesis
    by (auto simp: c_string_def plain_def list_all_iff takeWhile_append2)
qed


lemma c_string_update:
  assumes "off + length t < i" and "off + length t < length mem" and "plain t"
  shows "c_string off ((store_str off t mem)[i := x]) = t"
proof -
  have "(store_str off t mem)[i := x] =
      take off mem @ t @ NUL # (drop (off + length t + 1) mem)[i - (off + length t + 1) := x]"
    using assms(1,2) by (simp add: store_str_def list_update_append split: nat_diff_split)
  with assms show ?thesis
    by (auto simp: c_string_def plain_def list_all_iff takeWhile_append2)
qed

lemma nth_store_after:
  assumes "off + length t < i" and "i < length mem"
  shows "store_str off t mem ! i = mem ! i"
proof -
  obtain k where i: "i = Suc (off + length t + k)" using assms(1) less_iff_Suc_add by auto
  have "store_str off t mem = (take off mem @ t @ [NUL]) @ drop (off + length t + 1) mem"
    by (simp add: store_str_def)
  then show ?thesis using assms(2) by (simp only: nth_append) (simp add: i)
qed

definition cell_sym :: "ksym_cell \<Rightarrow> u64 \<times> char \<times> string \<times> string" where
  "cell_sym c = (k_addr c, k_type c, k_func c, k_module c)"

definition ksym_view :: "ksym \<Rightarrow> u64 \<times> char \<times> string \<times> string" where
  "ksym_view s = (s_addr s, s_type s, s_name s, case s_module s of None \<Rightarrow> [] | Some m \<Rightarrow> m)"

text \<open>The cell a well-formed line leaves behind holds the symbol.\<close>

lemma ksym_scan_cell:
  assumes "ksym_ok s" and "length mem = CELL_BYTES" and "ksym_scan (ksym_line s) mem = (ret, addr, mem1)"
    and "mem2 = (if ret = 3 then mem1[MODULE_OFF := NUL] else mem1)"
  shows "3 \<le> ret \<and> addr = s_addr s \<and> length mem2 = CELL_BYTES \<and> mem2 ! TYPE_OFF = s_type s \<and>
    cell_sym \<lparr>k_addr = addr, k_mem = mem2\<rparr> = ksym_view s"
proof -
  have ok: "plain (s_name s)" "length (s_name s) < 64" using assms(1) by (simp_all add: ksym_ok_def)
  let ?m = "mem[TYPE_OFF := s_type s]"
  show ?thesis
  proof (cases "s_module s")
    case None
    with assms have r: "ret = 3" "addr = s_addr s" "mem2 = (store_str FUNC_OFF (s_name s) ?m)[MODULE_OFF := NUL]"
      using ksym_scan_line [OF ksym_ok_fits [OF assms(1)], of mem] by (simp_all add: Let_def)
    have "c_string FUNC_OFF mem2 = s_name s"
      unfolding r(3) using ok assms(2) by (intro c_string_update) simp_all
    moreover have "c_string MODULE_OFF mem2 = []"
      unfolding r(3) c_string_def using ok assms(2) by (simp add: Cons_nth_drop_Suc [symmetric] del: drop_Suc)
    moreover have "mem2 ! TYPE_OFF = s_type s"
      unfolding r(3) using ok assms(2) by (simp add: nth_store_after)
    ultimately show ?thesis
      using r ok assms(2) None by (simp add: cell_sym_def ksym_view_def k_type_def k_func_def k_module_def)
  next
    case (Some m)
    then have m: "plain m" "length m < 31" using assms(1) by (simp_all add: ksym_ok_def)
    from Some assms have r: "ret = 4" "addr = s_addr s"
      "mem2 = store_str MODULE_OFF m (store_str FUNC_OFF (s_name s) ?m)"
      using ksym_scan_line [OF ksym_ok_fits [OF assms(1)], of mem] by (simp_all add: Let_def)
    have "c_string FUNC_OFF mem2 = s_name s"
      unfolding r(3) using ok m assms(2) by (intro c_string_store_before) simp_all
    moreover have "c_string MODULE_OFF mem2 = m"
      unfolding r(3) using ok m assms(2) by (intro c_string_store) simp_all
    moreover have "mem2 ! TYPE_OFF = s_type s"
      unfolding r(3) using ok m assms(2) by (simp add: nth_store_after)
    ultimately show ?thesis
      using r ok m assms(2) Some by (simp add: cell_sym_def ksym_view_def k_type_def k_func_def k_module_def)
  qed
qed

section \<open>Loading a well-formed file\<close>

lemma fgets_line:
  "CHR 0x0A \<notin> set t \<Longrightarrow> length t < n \<Longrightarrow> fgets n (t @ CHR 0x0A # r) = (t @ [CHR 0x0A], r)"
proof (induction t arbitrary: n)
  case Nil
  then show ?case by (cases n) simp_all
next
  case (Cons c t)
  then show ?case by (cases n) auto
qed

lemma plain_no_newline: "plain t \<Longrightarrow> CHR 0x0A \<notin> set t"
  unfolding plain_def list_all_iff using space_facts(3) by blast

lemma fgets_ksym_line:
  assumes "ksym_fits s"
  shows "fgets 127 (ksym_line s @ r) = (ksym_line s, r)"
proof -
  let ?ds = "hex_str 16 (unat (s_addr s))"
  have h: "CHR 0x0A \<notin> set ?ds" "length ?ds = 16"
    using hex_str_ok [of 16 "unat (s_addr s)"] hex_not_space [of "CHR 0x0A"] by (auto simp: list_all_iff)
  have ok: "CHR 0x0A \<notin> set (s_name s)" "length (s_name s) < 64" "s_type s \<noteq> CHR 0x0A"
    using assms plain_no_newline [of "s_name s"] space_facts(3) by (auto simp: ksym_fits_def simp del: space_facts)
  have m: "CHR 0x0A \<notin> set m" "length m \<le> 31" if "s_module s = Some m" for m
    using assms that plain_no_newline [of m] by (simp_all add: ksym_fits_def)
  show ?thesis
  proof (cases "s_module s")
    case None
    then show ?thesis
      using h ok fgets_line [of "?ds @ '' '' @ [s_type s] @ '' '' @ s_name s" 127 r]
      by (simp add: ksym_line_def)
  next
    case (Some m)
    then show ?thesis
      using h ok m [OF Some] fgets_line [of "?ds @ '' '' @ [s_type s] @ '' '' @ s_name s @ CHR 0x09 # m" 127 r]
      by (simp add: ksym_line_def)
  qed
qed

definition kept :: "bool \<Rightarrow> ksym \<Rightarrow> bool" where
  "kept stack_only s \<longleftrightarrow> s_addr s \<noteq> 0 \<and> (stack_only \<longrightarrow> s_type s = CHR ''t'' \<or> s_type s = CHR ''T'')"

lemma load_loop_lines:
  assumes "list_all ksym_ok syms" and "\<forall>k. 0 \<le> wr k" and "length mem = CELL_BYTES"
  shows "\<exists>cells mem'. load_loop so wr (concat (map ksym_line syms) @ rest) mem cs =
      load_loop so wr rest mem' (cs @ cells) \<and> length mem' = CELL_BYTES \<and>
    map cell_sym cells = map ksym_view (filter (kept so) syms)"
  using assms(1,3)
proof (induction syms arbitrary: mem cs)
  case Nil
  then show ?case by auto
next
  case (Cons s syms)
  then have ok: "ksym_ok s" by simp
  obtain ret addr mem1 where sc: "ksym_scan (ksym_line s) mem = (ret, addr, mem1)" by (metis prod_cases3)
  define mem2 where "mem2 = (if ret = 3 then mem1[MODULE_OFF := NUL] else mem1)"
  note c = ksym_scan_cell [OF ok Cons.prems(2) sc mem2_def]
  let ?rest = "concat (map ksym_line syms) @ rest" and ?cell = "\<lparr>k_addr = addr, k_mem = mem2\<rparr>"
  have ne: "ksym_line s \<noteq> []" by (simp add: ksym_line_def)
  have st: "load_loop so wr (ksym_line s @ ?rest) mem cs =
      (if kept so s then load_loop so wr ?rest mem2 (cs @ [?cell]) else load_loop so wr ?rest mem2 cs)"
  proof -
    have "(wr (length cs) < 0) = False" "(ret < 3) = False"
      using assms(2) c by (simp_all add: not_less)
    with c ne show ?thesis
      by (subst load_loop.simps)
        (simp add: fgets_ksym_line [OF ksym_ok_fits [OF ok]] sc kept_def Let_def flip: mem2_def)
  qed
  show ?case
  proof (cases "kept so s")
    case True
    from Cons.IH [of mem2 "cs @ [?cell]"] Cons.prems c obtain cells mem' where
      "load_loop so wr ?rest mem2 (cs @ [?cell]) = load_loop so wr rest mem' ((cs @ [?cell]) @ cells)"
      "length mem' = CELL_BYTES" "map cell_sym cells = map ksym_view (filter (kept so) syms)" by auto
    with st True c show ?thesis by (intro exI [of _ "?cell # cells"] exI [of _ mem']) auto
  next
    case False
    with Cons.IH [of mem2 cs] Cons.prems c st show ?thesis by simp
  qed
qed


section \<open>Searching a loaded table\<close>

text \<open>\<open>i\<close> indexes a symbol with the greatest address not above \<open>key\<close>.\<close>

definition covers :: "ksym_cell list \<Rightarrow> u64 \<Rightarrow> nat \<Rightarrow> bool" where
  "covers cs key i \<longleftrightarrow> i < length cs \<and> k_addr (cs ! i) \<le> key \<and>
     (\<forall>c \<in> set cs. k_addr c \<le> key \<longrightarrow> k_addr c \<le> k_addr (cs ! i))"

lemma ksym_search_table:
  assumes "sorted (map k_addr cs)" and "cs \<noteq> []" and "st = \<lparr>sym_cnt = int (length cs), gCell = Mapped cs\<rparr>"
  shows "case ksym_search oob st key of
      Found i \<Rightarrow> covers cs key i | Not_found \<Rightarrow> (\<forall>c \<in> set cs. key < k_addr c) | Crash \<Rightarrow> False"
proof -
  have pos: "\<not> int (length cs) \<le> 0" using assms(2) by simp
  have mono: "i \<le> j \<Longrightarrow> j < length cs \<Longrightarrow> k_addr (cs ! i) \<le> k_addr (cs ! j)" for i j
    using assms(1) by (auto simp: sorted_iff_nth_mono)
  have "\<forall>i. length cs \<le> i \<and> i < length cs \<longrightarrow> key < k_addr (cs ! i)" by auto
  note sp = search_loop_spec [OF assms(1) order_refl, of 0 key, OF _ _ this, simplified]
  show ?thesis
  proof (cases "search_loop cs key 0 (length cs)")
    case (Inl mid)
    with sp have "mid < length cs" "k_addr (cs ! mid) = key" by simp_all
    with Inl pos show ?thesis by (simp add: ksym_search_def assms(3) covers_def)
  next
    case (Inr b)
    then obtain n where n: "search_loop cs key 0 (length cs) = Inr (n, n)" "n \<le> length cs"
      and lo: "\<forall>i < n. k_addr (cs ! i) < key" and hi: "\<forall>i. n \<le> i \<and> i < length cs \<longrightarrow> key < k_addr (cs ! i)"
      using sp by (cases b) auto
    have cov: "covers cs key (n - 1)" if "0 < n"
    proof -
      have le: "k_addr c \<le> k_addr (cs ! (n - 1))" if "c \<in> set cs" "k_addr c \<le> key" for c
      proof -
        from that(1) obtain i where i: "i < length cs" "c = cs ! i" by (auto simp: in_set_conv_nth)
        then have "i < n" using that(2) hi by (metis not_le)
        then show ?thesis using mono [of i "n - 1"] n(2) i by simp
      qed
      have "k_addr (cs ! (n - 1)) < key" using lo that by simp
      then have "k_addr (cs ! (n - 1)) \<le> key" by simp
      moreover have "n - 1 < length cs" using n(2) that by simp
      ultimately show ?thesis using le unfolding covers_def by blast
    qed
    show ?thesis
    proof (cases "n = 0")
      case True
      with hi have "\<forall>c \<in> set cs. key < k_addr c" by (auto simp: in_set_conv_nth)
      with True n pos assms(2) show ?thesis by (simp add: ksym_search_def assms(3))
    next
      case False
      have "ksym_search oob st key = Found (n - 1)"
      proof (cases "n = length cs")
        case True
        with False n pos show ?thesis by (simp add: ksym_search_def assms(3))
      next
        case less: False
        with n(2) have "n - 1 < length cs" by simp
        with less False n lo hi pos show ?thesis by (simp add: ksym_search_def assms(3) cell_addr_def)
      qed
      with cov False show ?thesis by simp
    qed
  qed
qed

section \<open>Properties\<close>

text \<open>C4: set-up on a well-formed symbol file followed by a search. The table holds exactly the
  symbols of the file with a non-zero address (and, in stack mode, of type \<open>t\<close> or \<open>T\<close>), name, module
  and type intact; a search returns a symbol with the greatest address not above the key, and
  fails exactly when the key is below every symbol, whatever lies behind the table.\<close>

theorem ksym_setup_search:
  assumes "list_all ksym_ok syms" and "\<forall>k. 0 \<le> wr k" and "length mem0 = CELL_BYTES"
    and "filter (kept so) syms \<noteq> []"
  shows "\<exists>st' tab. ksym_setup (Inr ()) True True wr (Inr (concat (map ksym_line syms))) mem0 so st = Some (0, st') \<and>
    gCell st' = Mapped tab \<and> mset (map cell_sym tab) = mset (map ksym_view (filter (kept so) syms)) \<and>
    (case ksym_search oob st' key of
       Found i \<Rightarrow> covers tab key i | Not_found \<Rightarrow> (\<forall>c \<in> set tab. key < k_addr c) | Crash \<Rightarrow> False)"
proof -
  from load_loop_lines [OF assms(1-3), of so "[]" "[]"] obtain cells where
    ld: "load_ksyms so wr (Inr (concat (map ksym_line syms))) mem0 = (int (length cells), cells)"
    and v: "map cell_sym cells = map ksym_view (filter (kept so) syms)"
    by (auto simp: load_ksyms_def load_loop.simps [where content = "[]"])
  have ne: "cells \<noteq> []" using v assms(4) by auto
  let ?tab = "qsort sym_cmp cells"
  let ?st = "\<lparr>sym_cnt = int (length cells), gCell = Mapped ?tab\<rparr>"
  have "ksym_setup (Inr ()) True True wr (Inr (concat (map ksym_line syms))) mem0 so st = Some (0, ?st)"
    using ld ne by (simp add: ksym_setup_def sort_ksym_def)
  moreover have "mset (map cell_sym ?tab) = mset (map ksym_view (filter (kept so) syms))"
    using arg_cong [OF qsort_mset [of sym_cmp cells], of "image_mset cell_sym"] by (simp add: v [symmetric])
  moreover have "?tab \<noteq> []" using ne by (metis length_0_conv length_qsort)
  ultimately show ?thesis
    using ksym_search_table [OF sorted_qsort_sym, of cells ?st key oob] by auto
qed

text \<open>Two symbols, listed out of order.\<close>

definition demo_syms :: "ksym list" where
  "demo_syms = [\<lparr>s_addr = 500, s_type = CHR ''T'', s_name = ''b'', s_module = Some ''[m]''\<rparr>,
     \<lparr>s_addr = 100, s_type = CHR ''t'', s_name = ''a'', s_module = None\<rparr>]"

lemma demo_ok: "list_all ksym_ok demo_syms" "filter (kept True) demo_syms = demo_syms"
  by (simp_all add: demo_syms_def ksym_ok_def plain_def is_space_def kept_def)

theorem ksym_setup_search_witness:
  "\<exists>st' tab. ksym_setup (Inr ()) True True (\<lambda>_. 104) (Inr (concat (map ksym_line demo_syms)))
      (replicate CELL_BYTES NUL) True \<lparr>sym_cnt = 0, gCell = Null\<rparr> = Some (0, st') \<and> gCell st' = Mapped tab \<and>
    mset (map cell_sym tab) = {#(100, CHR ''t'', ''a'', []), (500, CHR ''T'', ''b'', ''[m]'')#} \<and>
    ksym_search 0 st' 300 \<noteq> Crash"
proof -
  have ne: "demo_syms \<noteq> []" by (simp add: demo_syms_def)
  have v: "mset (map ksym_view demo_syms) = {#(100, CHR ''t'', ''a'', []), (500, CHR ''T'', ''b'', ''[m]'')#}"
    by (simp add: demo_syms_def ksym_view_def add_mset_commute)
  show ?thesis
    using ksym_setup_search [OF demo_ok(1), of "\<lambda>_. 104" "replicate CELL_BYTES NUL" True "\<lparr>sym_cnt = 0, gCell = Null\<rparr>" 300 0]
    unfolding demo_ok(2) v by (force simp: ne)
qed

text \<open>the table is sorted correctly although the comparison function never returns a negative
  number: the merge sort only asks whether a result is positive, and the outcome is the stable
  sort of the cells by address.\<close>

theorem qsort_sym_cmp:
  "sorted (map k_addr (qsort sym_cmp cs)) \<and> mset (qsort sym_cmp cs) = mset cs"
  by (simp add: sorted_qsort_sym qsort_mset)



lemma nth_store_end: "off + length t < length mem \<Longrightarrow> store_str off t mem ! (off + length t) = NUL"
  by (simp add: store_str_def nth_append)

text \<open>C38: a module name that fills its field of 31 characters is terminated in the byte behind it,
  which is the symbol's type: the type is lost, and in stack mode the symbol is dropped.\<close>

theorem ksym_long_module:
  assumes "ksym_fits s" and "s_module s = Some m" and "length m = 31" and "length mem0 = CELL_BYTES"
  shows "load_ksyms True wr (Inr (ksym_line s)) mem0 = (0, [])"
proof -
  let ?mem = "store_str FUNC_OFF (s_name s) (mem0[TYPE_OFF := s_type s])"
  have "length (s_name s) < 64" using assms(1) by (simp add: ksym_fits_def)
  then have "store_str MODULE_OFF m ?mem ! TYPE_OFF = NUL"
    using nth_store_end [of MODULE_OFF m ?mem] assms(3,4) by simp
  moreover have "ksym_scan (ksym_line s) mem0 = (4, s_addr s, store_str MODULE_OFF m ?mem)"
    using ksym_scan_line [OF assms(1), of mem0] assms(2) by (simp add: Let_def)
  moreover have "fgets 127 (ksym_line s) = (ksym_line s, [])"
    using fgets_ksym_line [OF assms(1), of "[]"] by simp
  moreover have "ksym_line s \<noteq> []" by (simp add: ksym_line_def)
  ultimately show ?thesis
    by (simp add: load_ksyms_def, subst load_loop.simps)
      (simp add: Let_def load_loop.simps [where content = "[]"])
qed

theorem ksym_long_module_witness:
  "load_ksyms True (\<lambda>_. 104)
     (Inr (ksym_line \<lparr>s_addr = 100, s_type = CHR ''t'', s_name = ''a'', s_module = Some (replicate 31 CHR ''m'')\<rparr>))
     (replicate CELL_BYTES NUL) = (0, [])"
  by (rule ksym_long_module [of _ "replicate 31 CHR ''m''"])
    (simp_all add: ksym_fits_def plain_def is_space_def list_all_iff)

end
