(* ===== verification/Tsar_Text.thy ===== *)
theory Tsar_Text
  imports Sysak_Prelude
begin

text \<open>
  The text formats of the metrics service, source/tools/monitor/mservice/master/src/common.c: a
  record is a list of numbers separated by commas, or several named items \<open>name=numbers;\<close>. The
  string functions of the C library the service uses come first.
\<close>

section \<open>C library string functions\<close>

definition is_digit_char :: "char \<Rightarrow> bool" where
  "is_digit_char c \<longleftrightarrow> 48 \<le> (of_char c :: nat) \<and> (of_char c :: nat) \<le> 57"

definition is_blank :: "char \<Rightarrow> bool" where
  "is_blank c \<longleftrightarrow> c \<in> {CHR '' '', CHR 0x09, CHR 0x0A, CHR 0x0B, CHR 0x0C, CHR 0x0D}"

definition digit_value :: "char \<Rightarrow> nat" where
  "digit_value c = (of_char c :: nat) - 48"

definition digits_value :: "string \<Rightarrow> nat" where
  "digits_value ds = foldl (\<lambda>v c. 10 * v + digit_value c) 0 ds"

text \<open>
  \<open>strtoull\<close> in base 10: leading white space, an optional sign, digits; the value saturates, a minus
  sign negates modulo \<open>2 ^ 64\<close>, and without digits the end pointer is the start of the string.
\<close>

definition strtoull :: "string \<Rightarrow> u64 \<times> string" where
  "strtoull s =
     (let t = dropWhile is_blank s;
          neg = (t \<noteq> [] \<and> hd t = CHR ''-'');
          u = (if t \<noteq> [] \<and> (hd t = CHR ''-'' \<or> hd t = CHR ''+'') then tl t else t);
          ds = takeWhile is_digit_char u
      in if ds = [] then (0, s)
         else (let v = digits_value ds
               in if v \<ge> 2 ^ 64 then (- 1, drop (length ds) u)
                  else ((if neg then - word_of_nat v else word_of_nat v), drop (length ds) u)))"

text \<open>\<open>atol\<close> on a string in range.\<close>

definition atol :: "string \<Rightarrow> int" where
  "atol s =
     (let t = dropWhile is_blank s;
          neg = (t \<noteq> [] \<and> hd t = CHR ''-'');
          u = (if t \<noteq> [] \<and> (hd t = CHR ''-'' \<or> hd t = CHR ''+'') then tl t else t);
          v = int (digits_value (takeWhile is_digit_char u))
      in if neg then - v else v)"

text \<open>\<open>strpbrk\<close> with a single character: the rest of the string from its first occurrence.\<close>

fun strpbrk :: "string \<Rightarrow> char \<Rightarrow> string option" where
  "strpbrk [] c = None"
| "strpbrk (x # s) c = (if x = c then Some (x # s) else strpbrk s c)"

text \<open>The offset of that occurrence.\<close>

fun char_pos :: "string \<Rightarrow> char \<Rightarrow> nat option" where
  "char_pos [] c = None"
| "char_pos (x # s) c = (if x = c then Some 0 else map_option Suc (char_pos s c))"

fun is_prefix :: "string \<Rightarrow> string \<Rightarrow> bool" where
  "is_prefix [] s = True"
| "is_prefix (p # ps) [] = False"
| "is_prefix (p # ps) (x # s) = (p = x \<and> is_prefix ps s)"

text \<open>\<open>strstr\<close>: the rest of the string from the first occurrence.\<close>

fun strstr :: "string \<Rightarrow> string \<Rightarrow> string option" where
  "strstr [] pat = (if pat = [] then Some [] else None)"
| "strstr (x # s) pat = (if is_prefix pat (x # s) then Some (x # s) else strstr s pat)"

text \<open>The tokens \<open>strtok\<close> yields for a single delimiter: the non-empty pieces.\<close>

fun split_on :: "char \<Rightarrow> string \<Rightarrow> string list" where
  "split_on c [] = [[]]"
| "split_on c (x # s) =
     (if x = c then [] # split_on c s
      else case split_on c s of [] \<Rightarrow> [[x]] | p # ps \<Rightarrow> (x # p) # ps)"

definition strtok_all :: "char \<Rightarrow> string \<Rightarrow> string list" where
  "strtok_all c s = filter (\<lambda>t. t \<noteq> []) (split_on c s)"

abbreviation (input) SECTION_SPLIT :: char where "SECTION_SPLIT \<equiv> CHR ''|''"
abbreviation (input) STRING_SPLIT :: char where "STRING_SPLIT \<equiv> CHR '':''"
abbreviation (input) ITEM_SPLIT :: char where "ITEM_SPLIT \<equiv> CHR '';''"
abbreviation (input) ITEM_SPSTART :: char where "ITEM_SPSTART \<equiv> CHR ''=''"
abbreviation (input) DATA_SPLIT :: char where "DATA_SPLIT \<equiv> CHR '',''"
abbreviation (input) PARAM_SPLIT :: char where "PARAM_SPLIT \<equiv> CHR '':''"

section \<open>Records\<close>

definition is_digit :: "string \<Rightarrow> bool" where
  "is_digit str = list_all is_digit_char (if str \<noteq> [] \<and> hd str = CHR ''-'' then tl str else str)"

text \<open>The numbers read, at most \<open>l\<close> of them and at least one.\<close>

fun convert_loop :: "nat \<Rightarrow> string \<Rightarrow> u64 list" where
  "convert_loop 0 record = []"
| "convert_loop (Suc l) record =
     (case strtoull record of (num, ptr) \<Rightarrow>
        if strpbrk ptr DATA_SPLIT = None then [num]
        else num # convert_loop l (tl ptr))"

definition convert_record_to_array :: "u64 list \<Rightarrow> nat \<Rightarrow> string \<Rightarrow> nat \<times> u64 list" where
  "convert_record_to_array array l_array record =
     (if l_array = 0 \<or> record = [] then (0, array)
      else (let ns = convert_loop l_array record in (length ns, ns @ drop (length ns) array)))"

datatype merge_mode = MERGE_NULL | MERGE_SUM | MERGE_AVG

fun merge_value :: "merge_mode \<Rightarrow> nat \<Rightarrow> u64 \<Rightarrow> u64 \<Rightarrow> u64" where
  "merge_value MERGE_SUM n_item a b = a + b"
| "merge_value MERGE_AVG n_item a b = (a * word_of_nat (n_item - 1) + b) div word_of_nat n_item"
| "merge_value MERGE_NULL n_item a b = a"

text \<open>Merging one item's numbers into the array; \<open>MAX_COL_NUM\<close> is 64.\<close>

fun merge_cols :: "merge_mode list \<Rightarrow> nat \<Rightarrow> u64 list \<Rightarrow> u64 list \<Rightarrow> u64 list" where
  "merge_cols (m # ms) n_item (a # as) (b # bs) = merge_value m n_item a b # merge_cols ms n_item as bs"
| "merge_cols ms n_item as bs = as"

definition merge_one_string :: "merge_mode list \<Rightarrow> u64 list \<Rightarrow> nat \<Rightarrow> string \<Rightarrow> nat \<Rightarrow> bool \<times> u64 list" where
  "merge_one_string modes array l_array str n_item =
     (case convert_record_to_array (replicate 64 0) l_array str of (len, array_2) \<Rightarrow>
        if len = 0 then (False, array)
        else (True, merge_cols modes n_item array (take len array_2)))"

text \<open>The next item's text, which runs to the end of the record, and the next start.\<close>

definition strtok_next_item :: "string \<Rightarrow> nat \<Rightarrow> (string \<times> nat) option" where
  "strtok_next_item record start =
     (if record = [] \<or> length record \<le> start then None
      else (let n_record = drop start record
            in case char_pos n_record ITEM_SPLIT of
                 None \<Rightarrow> None
               | Some e \<Rightarrow>
                   (case char_pos n_record ITEM_SPSTART of
                      None \<Rightarrow> None
                    | Some p \<Rightarrow> if e < p then None else Some (drop (p + 1) n_record, start + e + 2))))"

lemma strtok_next_item_start:
  "strtok_next_item record start = Some (item, start') \<Longrightarrow> start < length record \<and> start < start'"
  by (auto simp: strtok_next_item_def Let_def split: if_splits option.splits)

function merge_items :: "merge_mode list \<Rightarrow> nat \<Rightarrow> string \<Rightarrow> nat \<Rightarrow> nat \<Rightarrow> u64 list \<Rightarrow> bool \<times> u64 list" where
  "merge_items modes n_col record pos n_item array =
     (case strtok_next_item record pos of
        None \<Rightarrow> (True, array)
      | Some (item, pos') \<Rightarrow>
          (case merge_one_string modes array n_col item n_item of (ok, array') \<Rightarrow>
             if \<not> ok then (False, array') else merge_items modes n_col record pos' (n_item + 1) array'))"
  by pat_completeness auto

termination
  by (relation "measure (\<lambda>(modes, n_col, record, pos, n_item, array). length record - pos)")
    (auto dest!: strtok_next_item_start)

declare merge_items.simps [simp del]

definition merge_mult_item_to_array :: "merge_mode list \<Rightarrow> nat \<Rightarrow> string \<Rightarrow> u64 list \<Rightarrow> bool \<times> u64 list" where
  "merge_mult_item_to_array modes n_col record array =
     merge_items modes n_col record 0 1 (replicate n_col 0 @ drop n_col array)"

definition get_strtok_num :: "string \<Rightarrow> char \<Rightarrow> nat" where
  "get_strtok_num str c = length (strtok_all c str)"


section \<open>Reading back printed numbers\<close>

lemma digit_char:
  assumes "d < 10"
  shows "is_digit_char (char_of (48 + d))" and "digit_value (char_of (48 + d)) = d"
  using assms by (simp_all add: is_digit_char_def digit_value_def)

lemma digits_value_snoc: "digits_value (ds @ [c]) = 10 * digits_value ds + digit_value c"
  by (simp add: digits_value_def)

lemma dec_digits: "dec n \<noteq> [] \<and> list_all is_digit_char (dec n) \<and> digits_value (dec n) = n"
proof (induction n rule: dec.induct)
  case (1 n)
  show ?case
  proof (cases "n < 10")
    case True
    then show ?thesis using digit_char [of n] by (simp add: dec.simps [of n] digits_value_def)
  next
    case False
    with 1 digit_char [of "n mod 10"] show ?thesis
      by (subst (1 2 3) dec.simps) (simp add: digits_value_snoc)
  qed
qed

lemma digit_not_blank: "is_digit_char c \<Longrightarrow> \<not> is_blank c \<and> c \<noteq> CHR ''-'' \<and> c \<noteq> CHR ''+''"
  by (auto simp: is_digit_char_def is_blank_def)

definition ends_number :: "string \<Rightarrow> bool" where
  "ends_number r \<longleftrightarrow> (case r of [] \<Rightarrow> True | c # _ \<Rightarrow> \<not> is_digit_char c)"

lemma takeWhile_digits:
  "list_all is_digit_char ds \<Longrightarrow> ends_number r \<Longrightarrow> takeWhile is_digit_char (ds @ r) = ds"
  by (cases r) (auto simp: ends_number_def list_all_iff takeWhile_append2)

lemma digits_start:
  assumes "ds \<noteq> []" and "list_all is_digit_char ds"
  shows "dropWhile is_blank (ds @ r) = ds @ r" and "hd ds \<noteq> CHR ''-''" and "hd ds \<noteq> CHR ''+''"
  using assms digit_not_blank by (cases ds; simp)+

lemma strtoull_dec:
  assumes "n < 2 ^ 64" and "ends_number r"
  shows "strtoull (dec n @ r) = (word_of_nat n, r)"
proof -
  note d = dec_digits [of n]
  then have ds: "dec n \<noteq> []" "list_all is_digit_char (dec n)" "digits_value (dec n) = n" by simp_all
  note st = digits_start [OF ds(1,2)]
  show ?thesis
    using ds assms by (simp add: strtoull_def st takeWhile_digits Let_def)
qed

lemma atol_dec: "ends_number r \<Longrightarrow> atol (dec n @ r) = int n"
proof -
  assume r: "ends_number r"
  have ds: "dec n \<noteq> []" "list_all is_digit_char (dec n)" "digits_value (dec n) = n" using dec_digits by simp_all
  note st = digits_start [OF ds(1,2)]
  show ?thesis using ds r by (simp add: atol_def st takeWhile_digits Let_def)
qed

text \<open>Numbers joined by commas.\<close>

fun join_nums :: "u64 list \<Rightarrow> string" where
  "join_nums [] = []"
| "join_nums [n] = dec (unat n)"
| "join_nums (n # ns) = dec (unat n) @ DATA_SPLIT # join_nums ns"

lemma not_digit_seps [simp]:
  "\<not> is_digit_char (CHR '','')" "\<not> is_digit_char (CHR '';'')" "\<not> is_digit_char (CHR ''|'')"
  "\<not> is_digit_char (CHR ''='')" "\<not> is_digit_char (CHR '':'')"
  by (simp_all add: is_digit_char_def)

lemma strpbrk_None: "(strpbrk s c = None) = (c \<notin> set s)"
  by (induction s) auto

text \<open>
  With at most \<open>l\<close> numbers, and nothing but a comma-free rest behind them when there are fewer
  than \<open>l\<close>, the conversion returns exactly the numbers.
\<close>

lemma convert_loop_nums:
  assumes "ns \<noteq> []" and "length ns \<le> l" and "ends_number r" and "length ns < l \<Longrightarrow> DATA_SPLIT \<notin> set r"
  shows "convert_loop l (join_nums ns @ r) = ns"
  using assms
proof (induction ns arbitrary: l rule: join_nums.induct)
  case (2 n)
  then obtain l' where l: "l = Suc l'" by (cases l) auto
  have st: "strtoull (dec (unat n) @ r) = (n, r)"
    using strtoull_dec [of "unat n" r] unat_bound [of n] 2 by simp
  show ?case
  proof (cases "DATA_SPLIT \<in> set r")
    case True
    with 2 l have "l' = 0" by auto
    then show ?thesis using st l by (simp split: option.split)
  next
    case False
    then show ?thesis using st l by (simp add: strpbrk_None)
  qed
next
  case (3 n m ns)
  then obtain l' where l: "l = Suc l'" by (cases l) auto
  let ?rest = "join_nums (m # ns) @ r"
  have "strtoull (dec (unat n) @ DATA_SPLIT # ?rest) = (n, DATA_SPLIT # ?rest)"
    using strtoull_dec [of "unat n" "DATA_SPLIT # ?rest"] unat_bound [of n] by (simp add: ends_number_def)
  then show ?case using 3 l by simp
qed simp

lemma join_nums_chars: "c \<in> set (join_nums ns) \<Longrightarrow> is_digit_char c \<or> c = DATA_SPLIT"
  by (induction ns rule: join_nums.induct) (use dec_digits in \<open>auto simp: list_all_iff\<close>)

lemma join_nums_nonempty: "ns \<noteq> [] \<Longrightarrow> join_nums ns \<noteq> []"
  by (cases ns rule: join_nums.cases) (use dec_digits in auto)

end
