(* ===== verification/Tsar_Frame.thy ===== *)
theory Tsar_Frame
  imports Tsar_Text Complex_Main
begin

text \<open>
  The module framework of the metrics service, source/tools/monitor/mservice/master/src/framework.c
  and the state it shares with common.c: modules with their columns and arrays, selecting modules,
  reading a stored line back, and turning two successive records into statistics. Values the code
  keeps in \<open>double\<close> are rationals here: rounding is not modelled.
\<close>

section \<open>Modules\<close>

datatype stats_opt = STATS_NULL | STATS_SUB | STATS_SUB_INTER
datatype summary_bit = HIDE_BIT | DETAIL_BIT | SUMMARY_BIT | SPEC_BIT
datatype print_mode = DATA_NULL | DATA_SUMMARY | DATA_DETAIL | DATA_ALL

record mod_info =
  i_hdr :: string
  i_summary :: summary_bit
  i_merge :: merge_mode
  i_stats :: stats_opt

text \<open>An empty array stands for a null pointer; callbacks may be missing.\<close>

record tmod =
  m_name :: string
  m_opt :: string
  m_usage :: string
  m_record :: string
  m_param :: string
  m_info :: "mod_info list"
  m_lib :: bool
  m_enable :: bool
  m_spec :: bool
  m_n_item :: nat
  m_n_col :: nat
  m_n_record :: nat
  m_pre_flag :: bool
  m_st_flag :: bool
  m_pre :: "u64 list"
  m_cur :: "u64 list"
  m_st :: "rat list"
  m_max :: "rat list"
  m_mean :: "rat list"
  m_min :: "rat list"
  m_warn :: u64
  m_collect :: "(string \<Rightarrow> string) option"
  m_set_st :: "(u64 list \<Rightarrow> u64 list \<Rightarrow> int \<Rightarrow> rat list \<Rightarrow> rat list) option"

record tconf =
  c_merge :: bool
  c_interval :: int
  c_tail :: bool
  c_mode :: print_mode

definition register_mod_fields ::
  "tmod \<Rightarrow> string \<Rightarrow> string \<Rightarrow> mod_info list \<Rightarrow> nat \<Rightarrow> (string \<Rightarrow> string) option
     \<Rightarrow> (u64 list \<Rightarrow> u64 list \<Rightarrow> int \<Rightarrow> rat list \<Rightarrow> rat list) option \<Rightarrow> tmod" where
  "register_mod_fields m opt usage info n_col collect set_st =
     m\<lparr>m_opt := opt, m_usage := usage, m_info := info, m_n_col := n_col, m_collect := collect, m_set_st := set_st\<rparr>"

definition set_mod_record :: "tmod \<Rightarrow> string option \<Rightarrow> tmod" where
  "set_mod_record m r = (case r of None \<Rightarrow> m | Some t \<Rightarrow> m\<lparr>m_record := t\<rparr>)"

text \<open>
  Loading: \<open>dl name\<close> is the outcome of opening the module's library and looking up its register
  function: \<open>None\<close> when the library cannot be opened, \<open>Some None\<close> when the symbol is missing, which
  ends the loop. \<open>m_lib\<close> is set by the successful open alone.
\<close>

fun load_modules :: "(string \<Rightarrow> (tmod \<Rightarrow> tmod) option option) \<Rightarrow> tmod list \<Rightarrow> tmod list" where
  "load_modules dl [] = []"
| "load_modules dl (m # ms) =
     (if m_name m = [] \<or> m_lib m then m # load_modules dl ms
      else case dl (m_name m) of
        None \<Rightarrow> m # load_modules dl ms
      | Some None \<Rightarrow> m\<lparr>m_lib := True\<rparr> # ms
      | Some (Some reg) \<Rightarrow> (reg (m\<lparr>m_lib := True\<rparr>))\<lparr>m_enable := True, m_spec := False\<rparr> # load_modules dl ms)"

section \<open>Selecting modules\<close>

definition split_param :: "string \<Rightarrow> string \<times> string option" where
  "split_param t =
     (let name = takeWhile (\<lambda>c. c \<noteq> PARAM_SPLIT) t
      in (name, if length name = length t then None else Some (drop (length name + 1) t)))"

definition named :: "string \<Rightarrow> tmod \<Rightarrow> bool" where
  "named name m \<longleftrightarrow> name = m_name m \<or> name = m_opt m"

fun enable_first :: "string \<Rightarrow> string option \<Rightarrow> tmod list \<Rightarrow> bool \<times> tmod list" where
  "enable_first name param [] = (False, [])"
| "enable_first name param (m # ms) =
     (if named name m
      then (True, m\<lparr>m_enable := True, m_param := (case param of None \<Rightarrow> m_param m | Some p \<Rightarrow> p)\<rparr> # ms)
      else case enable_first name param ms of (b, ms') \<Rightarrow> (b, m # ms'))"

fun reload_tokens :: "string list \<Rightarrow> tmod list \<Rightarrow> bool \<times> tmod list" where
  "reload_tokens [] ms = (False, ms)"
| "reload_tokens (t # ts) ms =
     (case split_param t of (name, param) \<Rightarrow>
        (case enable_first name param ms of (b, ms1) \<Rightarrow>
           (case reload_tokens ts ms1 of (b', ms2) \<Rightarrow> (b \<or> b', ms2))))"

definition reload_modules :: "string \<Rightarrow> tmod list \<Rightarrow> bool \<times> tmod list" where
  "reload_modules s_mod ms =
     (if s_mod = [] then (False, ms)
      else reload_tokens (strtok_all DATA_SPLIT s_mod) (map (\<lambda>m. m\<lparr>m_enable := False\<rparr>) ms))"

definition check_names :: "string list" where
  "check_names = [''mod_apache'', ''mod_cpu'', ''mod_mem'', ''mod_load'', ''mod_partition'', ''mod_io'',
     ''mod_tcp'', ''mod_traffic'', ''mod_nginx'', ''mod_swap'']"

definition reload_check_modules :: "tmod list \<Rightarrow> tmod list" where
  "reload_check_modules = map (\<lambda>m. m\<lparr>m_enable := m_name m \<in> set check_names\<rparr>)"

definition col_shown :: "print_mode \<Rightarrow> mod_info \<Rightarrow> bool" where
  "col_shown mode i \<longleftrightarrow> mode = DATA_SUMMARY \<and> i_summary i = SUMMARY_BIT \<or>
     mode = DATA_DETAIL \<and> i_summary i \<noteq> HIDE_BIT"

definition disable_col_zero :: "tconf \<Rightarrow> tmod list \<Rightarrow> tmod list" where
  "disable_col_zero conf =
     map (\<lambda>m. if m_enable m \<and> (m_n_col m = 0 \<or> \<not> list_ex (col_shown (c_mode conf)) (take (m_n_col m) (m_info m)))
              then m\<lparr>m_enable := False\<rparr> else m)"

text \<open>The header of the shown columns, each name cut to six characters.\<close>

definition get_mod_hdr :: "tconf \<Rightarrow> tmod \<Rightarrow> string" where
  "get_mod_hdr conf m =
     concat (map (\<lambda>i. take 6 (i_hdr i) @ ''  '')
       (filter (\<lambda>i. if m_spec m then i_summary i = SPEC_BIT else col_shown (c_mode conf) i)
          (take (m_n_col m) (m_info m))))"

section \<open>Arrays\<close>

definition init_module_fields :: "tconf \<Rightarrow> tmod list \<Rightarrow> tmod list" where
  "init_module_fields conf =
     map (\<lambda>m. if \<not> m_enable m then m
       else (let n = (if c_merge conf then 1 else get_strtok_num (m_record m) ITEM_SPLIT);
                 m1 = m\<lparr>m_n_item := n\<rparr>; len = n * m_n_col m
             in if n = 0 then m1
                else (let m2 = m1\<lparr>m_pre := replicate len 0, m_cur := replicate len 0, m_st := replicate len 0\<rparr>
                      in if c_tail conf
                         then m2\<lparr>m_max := replicate len 0, m_mean := replicate len 0, m_min := replicate len 0\<rparr>
                         else m2)))"

text \<open>Growing the arrays: the cells \<open>realloc\<close> adds hold whatever was in memory.\<close>

definition grow :: "(nat \<Rightarrow> 'a) \<Rightarrow> nat \<Rightarrow> 'a list \<Rightarrow> 'a list" where
  "grow fresh len xs = xs @ map fresh [length xs..<len]"

definition realloc_module_array :: "(nat \<Rightarrow> u64) \<Rightarrow> (nat \<Rightarrow> rat) \<Rightarrow> tconf \<Rightarrow> tmod \<Rightarrow> nat \<Rightarrow> tmod" where
  "realloc_module_array fw fd conf m n =
     (if n \<le> m_n_item m then m
      else (let len = n * m_n_col m
            in if m_pre m \<noteq> []
               then (let m1 = m\<lparr>m_pre := grow fw len (m_pre m), m_cur := grow fw len (m_cur m), m_st := grow fd len (m_st m)\<rparr>
                     in if c_tail conf
                        then m1\<lparr>m_max := grow fd len (m_max m), m_mean := grow fd len (m_mean m), m_min := grow fd len (m_min m)\<rparr>
                        else m1)
               else (let m1 = m\<lparr>m_pre := replicate len 0, m_cur := replicate len 0, m_st := replicate len 0\<rparr>
                     in if c_tail conf
                        then m1\<lparr>m_max := replicate len 0, m_mean := replicate len 0, m_min := replicate len 0\<rparr>
                        else m1)))"

section \<open>Statistics\<close>

text \<open>One counter: the stored previous value, the statistic, and whether the counter did not go back.\<close>

definition stat_value :: "int \<Rightarrow> stats_opt \<Rightarrow> u64 \<Rightarrow> u64 \<Rightarrow> rat \<Rightarrow> u64 \<times> rat \<times> bool" where
  "stat_value interval opt pre cur st =
     (case opt of
        STATS_SUB \<Rightarrow> if cur < pre then (cur, st, False) else (pre, of_int (uint (cur - pre)), True)
      | STATS_SUB_INTER \<Rightarrow>
          if cur < pre then (cur, st, False)
          else (pre, of_int (uint ((cur - pre) div word_of_int interval)), True)
      | STATS_NULL \<Rightarrow> (pre, of_int (uint cur), True))"

text \<open>Maximum, mean and minimum of one column.\<close>

definition tail_value :: "nat \<Rightarrow> rat \<Rightarrow> rat \<times> rat \<times> rat \<Rightarrow> rat \<times> rat \<times> rat" where
  "tail_value n_record st t =
     (case t of (mx, mean, mn) \<Rightarrow>
        if n_record = 0 then (st, st, st)
        else (if st - mx > 1 / 10 then st else mx,
              if st \<ge> 0 then (of_int (int n_record - 1) * mean + st) / of_nat n_record else mean,
              if mn - st > 1 / 10 \<and> st \<ge> 0 then st else mn))"

definition stat_cell :: "tconf \<Rightarrow> nat \<Rightarrow> nat \<Rightarrow> tmod \<Rightarrow> tmod" where
  "stat_cell conf k j m =
     (let m1 =
        (if m_set_st m = None
         then (case stat_value (c_interval conf) (i_stats (m_info m ! j)) (m_pre m ! k) (m_cur m ! k) (m_st m ! k) of
                 (pre, st, ok) \<Rightarrow>
                   m\<lparr>m_pre := (m_pre m)[k := pre], m_st := (m_st m)[k := st], m_st_flag := m_st_flag m \<and> ok\<rparr>)
         else m)
      in if c_tail conf
         then (case tail_value (m_n_record m1) (m_st m1 ! k) (m_max m1 ! k, m_mean m1 ! k, m_min m1 ! k) of
                 (mx, mean, mn) \<Rightarrow>
                   m1\<lparr>m_max := (m_max m1)[k := mx], m_mean := (m_mean m1)[k := mean], m_min := (m_min m1)[k := mn]\<rparr>)
         else m1)"

text \<open>A module's own statistics function fills the row of an item.\<close>

definition stat_hook :: "tconf \<Rightarrow> nat \<Rightarrow> tmod \<Rightarrow> tmod" where
  "stat_hook conf i m =
     (case m_set_st m of
        None \<Rightarrow> m
      | Some f \<Rightarrow>
          (let n = m_n_col m
           in m\<lparr>m_st := take (i * n) (m_st m) @
                  f (take n (drop (i * n) (m_pre m))) (take n (drop (i * n) (m_cur m))) (c_interval conf)
                    (take n (drop (i * n) (m_st m))) @ drop (i * n + n) (m_st m)\<rparr>))"

definition stat_row :: "tconf \<Rightarrow> nat \<Rightarrow> tmod \<Rightarrow> tmod" where
  "stat_row conf i m = fold (\<lambda>j. stat_cell conf (i * m_n_col m + j) j) [0..<m_n_col m] (stat_hook conf i m)"

definition set_st_record :: "tconf \<Rightarrow> tmod \<Rightarrow> tmod" where
  "set_st_record conf m =
     (let m1 = fold (stat_row conf) [0..<m_n_item m] (m\<lparr>m_st_flag := True\<rparr>)
      in m1\<lparr>m_n_record := m_n_record m1 + 1\<rparr>)"

section \<open>Collecting\<close>

definition collect_record :: "tmod list \<Rightarrow> tmod list" where
  "collect_record =
     map (\<lambda>m. if \<not> m_enable m then m
              else m\<lparr>m_record := (case m_collect m of None \<Rightarrow> [] | Some f \<Rightarrow> f (m_param m))\<rparr>)"

text \<open>The items of a record stored one row after the other, until one fails.\<close>

function convert_items :: "nat \<Rightarrow> string \<Rightarrow> nat \<Rightarrow> nat \<Rightarrow> nat \<Rightarrow> u64 list \<Rightarrow> nat \<times> u64 list" where
  "convert_items n_col record pos num ret cur =
     (case strtok_next_item record pos of
        None \<Rightarrow> (ret, cur)
      | Some (item, pos') \<Rightarrow>
          (case convert_record_to_array (drop (num * n_col) cur) n_col item of (ret', row) \<Rightarrow>
             (let cur' = take (num * n_col) cur @ row
              in if ret' = 0 then (ret', cur') else convert_items n_col record pos' (num + 1) ret' cur')))"
  by pat_completeness auto

termination
  by (relation "measure (\<lambda>(n_col, record, pos, num, ret, cur). length record - pos)")
    (auto dest!: strtok_next_item_start)

declare convert_items.simps [simp del]

text \<open>One enabled module; the flag tells whether no module has changed its number of items so far.\<close>

definition stat_module ::
  "(nat \<Rightarrow> u64) \<Rightarrow> (nat \<Rightarrow> rat) \<Rightarrow> tconf \<Rightarrow> tmod \<Rightarrow> bool \<Rightarrow> bool \<times> u64 \<times> tmod" where
  "stat_module fw fd conf m no_p_hdr =
     (let m0 = m\<lparr>m_st_flag := False\<rparr>; n = get_strtok_num (m_record m) ITEM_SPLIT;
          swap = (\<lambda>m. m\<lparr>m_pre := m_cur m, m_cur := m_pre m\<rparr>)
      in if n = 0 then (no_p_hdr, 0, swap (m0\<lparr>m_pre_flag := False\<rparr>))
         else
           (let changed = (\<not> c_merge conf \<and> n \<noteq> m_n_item m);
                hdr = (no_p_hdr \<and> \<not> changed);
                m1 = (if changed then realloc_module_array fw fd conf m0 n else m0)\<lparr>m_n_item := n\<rparr>;
                (ret, m2) =
                  (if strpbrk (m_record m) ITEM_SPLIT \<noteq> None
                   then (if c_merge conf
                         then (case merge_mult_item_to_array (map i_merge (m_info m)) (m_n_col m) (m_record m) (m_cur m1) of
                                 (ok, cur) \<Rightarrow> (if ok then 1 else 0, m1\<lparr>m_n_item := 1, m_cur := cur\<rparr>))
                         else (case convert_items (m_n_col m) (m_record m) 0 0 0 (m_cur m1) of
                                 (r, cur) \<Rightarrow> (r, m1\<lparr>m_cur := cur\<rparr>)))
                   else (case convert_record_to_array (m_cur m1) (m_n_col m) (m_record m) of
                           (r, cur) \<Rightarrow> (r, m1\<lparr>m_cur := cur\<rparr>)));
                stat = (hdr \<and> m_pre_flag m2 \<and> ret \<noteq> (0 :: nat));
                m3 = (if stat then set_st_record conf m2 else m2)
            in (hdr, if stat then m_warn m3 else 0, swap (m3\<lparr>m_pre_flag := ret \<noteq> 0\<rparr>))))"

fun collect_mods ::
  "(nat \<Rightarrow> u64) \<Rightarrow> (nat \<Rightarrow> rat) \<Rightarrow> tconf \<Rightarrow> bool \<Rightarrow> u64 \<Rightarrow> tmod list \<Rightarrow> bool \<times> u64 \<times> tmod list" where
  "collect_mods fw fd conf hdr warn [] = (hdr, warn, [])"
| "collect_mods fw fd conf hdr warn (m # ms) =
     (if \<not> m_enable m
      then (case collect_mods fw fd conf hdr warn ms of (h, w, ms') \<Rightarrow> (h, w, m # ms'))
      else (case stat_module fw fd conf m hdr of (h1, w1, m') \<Rightarrow>
             (case collect_mods fw fd conf h1 (or warn w1) ms of (h, w, ms') \<Rightarrow> (h, w, m' # ms'))))"

text \<open>The last component is the value of \<open>fire_warn\<close> afterwards.\<close>

definition collect_record_stat ::
  "(nat \<Rightarrow> u64) \<Rightarrow> (nat \<Rightarrow> rat) \<Rightarrow> tconf \<Rightarrow> tmod list \<Rightarrow> u64 \<Rightarrow> bool \<times> tmod list \<times> u64" where
  "collect_record_stat fw fd conf ms fire_warn =
     (case collect_mods fw fd conf True 0 ms of (hdr, warn, ms') \<Rightarrow>
        (hdr, ms', if warn \<noteq> 0 then warn else fire_warn))"

section \<open>Stored lines\<close>

text \<open>The line written for the modules with a record.\<close>

definition store_line :: "int \<Rightarrow> tmod list \<Rightarrow> string" where
  "store_line cur_time ms =
     fmt_0d 0 cur_time @
     concat (map (\<lambda>m. SECTION_SPLIT # m_opt m @ STRING_SPLIT # m_record m)
       (filter (\<lambda>m. m_enable m \<and> m_record m \<noteq> []) ms))"

definition section_of :: "string \<Rightarrow> string \<Rightarrow> string option" where
  "section_of line opt =
     (case strstr line (SECTION_SPLIT # opt @ [STRING_SPLIT]) of
        None \<Rightarrow> None
      | Some t \<Rightarrow> Some (takeWhile (\<lambda>c. c \<noteq> SECTION_SPLIT) (drop (length opt + 2) t)))"

text \<open>Reading a line, which ends in a newline, back into the modules.\<close>

definition read_line_to_module_record :: "string \<Rightarrow> tmod list \<Rightarrow> int \<times> tmod list" where
  "read_line_to_module_record line ms =
     (let l = butlast line
      in (atol l,
          map (\<lambda>m. if m_enable m
                   then m\<lparr>m_record := (case section_of l (m_opt m) of None \<Rightarrow> [] | Some r \<Rightarrow> r)\<rparr> else m) ms))"


section \<open>Comparing with the previous run\<close>

text \<open>The first line of a file, as \<open>fgets\<close> reads it.\<close>

definition first_line :: "string \<Rightarrow> string" where
  "first_line s = takeWhile (\<lambda>c. c \<noteq> CHR 0x0A) s @ (if CHR 0x0A \<in> set s then [CHR 0x0A] else [])"

text \<open>
  \<open>prev\<close> is the content of the record file of the previous run, if it can be opened. The result is
  the returned code, the configuration with the interval, the modules, the value of \<open>fire_warn\<close>
  and what is written to the record file.
\<close>

definition get_st_array_from_file ::
  "(nat \<Rightarrow> u64) \<Rightarrow> (nat \<Rightarrow> rat) \<Rightarrow> bool \<Rightarrow> int \<Rightarrow> string option \<Rightarrow> tconf \<Rightarrow> tmod list \<Rightarrow> u64
     \<Rightarrow> int \<times> tconf \<times> tmod list \<times> u64 \<times> string" where
  "get_st_array_from_file fw fd have_collect cur_time prev conf0 ms0 fire_warn =
     (let ms = (if have_collect then ms0 else collect_record ms0);
          conf = conf0\<lparr>c_merge := True\<rparr>;
          line = store_line cur_time ms @ [CHR 0x0A];
          fail = (\<lambda>conf. (- 1, conf, ms, fire_warn, line @ [CHR 0x0A]))
      in case prev of
           None \<Rightarrow> fail conf
         | Some content \<Rightarrow>
             if content = [] then fail conf
             else (let pre_line = first_line content
                   in case char_pos pre_line SECTION_SPLIT of
                        None \<Rightarrow> fail conf
                      | Some p \<Rightarrow>
                          (let interval = to_c_int (cur_time - atol (take p pre_line));
                               conf1 = conf\<lparr>c_interval := interval\<rparr>
                           in if interval = 0 then fail conf1
                              else (let ms1 = init_module_fields conf1 (snd (read_line_to_module_record pre_line ms));
                                        (_, ms2, w1) = collect_record_stat fw fd conf1 ms1 fire_warn;
                                        ms3 = snd (read_line_to_module_record line ms2);
                                        (_, ms4, w2) = collect_record_stat fw fd conf1 ms3 w1
                                    in (0, conf1, ms4, w2, line)))))"

end
