(* ===== verification/Tsar_Theorems.thy ===== *)
theory Tsar_Theorems
  imports Tsar_Frame
begin

text \<open>
  The properties of the metrics service: records and stored lines are read back as they were
  written, items are merged column by column, and the statistics of a round are the differences
  of the counters.
\<close>

section \<open>Sections of a stored line\<close>

lemma strstr_skip: "c \<notin> set s \<Longrightarrow> strstr (s @ t) (c # p) = strstr t (c # p)"
  by (induction s) auto

lemma prefix_colon:
  "c \<notin> set a \<Longrightarrow> c \<notin> set b \<Longrightarrow> is_prefix (a @ [c]) (b @ c # r) = (a = b)"
  by (induction a arbitrary: b) (case_tac b; auto)+

definition section_text :: "string \<times> string \<Rightarrow> string" where
  "section_text p = SECTION_SPLIT # fst p @ STRING_SPLIT # snd p"

definition sections_ok :: "(string \<times> string) list \<Rightarrow> bool" where
  "sections_ok ps \<longleftrightarrow> distinct (map fst ps) \<and>
     (\<forall>p \<in> set ps. SECTION_SPLIT \<notin> set (fst p) \<and> STRING_SPLIT \<notin> set (fst p) \<and> SECTION_SPLIT \<notin> set (snd p))"

lemma section_of_sections:
  assumes "SECTION_SPLIT \<notin> set h" and "sections_ok ps"
    and "SECTION_SPLIT \<notin> set opt" and "STRING_SPLIT \<notin> set opt"
  shows "section_of (h @ concat (map section_text ps)) opt = map_of ps opt"
  using assms(1,2)
proof (induction ps arbitrary: h)
  case Nil
  have "strstr h (SECTION_SPLIT # opt @ [STRING_SPLIT]) = None"
    using strstr_skip [OF Nil(1), of "[]"] by simp
  then show ?case by (simp add: section_of_def)
next
  case (Cons p ps)
  obtain o' r where p: "p = (o', r)" by force
  have o': "STRING_SPLIT \<notin> set o'" "SECTION_SPLIT \<notin> set o'" "SECTION_SPLIT \<notin> set r" and ps: "sections_ok ps"
    using Cons.prems(2) by (auto simp: sections_ok_def p)
  let ?pat = "SECTION_SPLIT # opt @ [STRING_SPLIT]"
  let ?rest = "concat (map section_text ps)"
  have st: "strstr (h @ concat (map section_text (p # ps))) ?pat =
      strstr (SECTION_SPLIT # o' @ STRING_SPLIT # r @ ?rest) ?pat"
    using strstr_skip [OF Cons.prems(1)] by (simp add: section_text_def p)
  show ?case
  proof (cases "opt = o'")
    case True
    have "takeWhile (\<lambda>c. c \<noteq> SECTION_SPLIT) (r @ ?rest) = r"
    proof -
      have "takeWhile (\<lambda>c. c \<noteq> SECTION_SPLIT) ?rest = []"
        by (cases ps) (simp_all add: section_text_def)
      moreover have "takeWhile (\<lambda>c. c \<noteq> SECTION_SPLIT) (r @ ?rest) = r @ takeWhile (\<lambda>c. c \<noteq> SECTION_SPLIT) ?rest"
        by (rule takeWhile_append2) (use o'(3) in blast)
      ultimately show ?thesis by simp
    qed
    then show ?thesis
      using True st prefix_colon [OF assms(4) o'(1)] by (simp add: section_of_def p)
  next
    case False
    have "strstr (SECTION_SPLIT # o' @ STRING_SPLIT # r @ ?rest) ?pat = strstr ((o' @ STRING_SPLIT # r) @ ?rest) ?pat"
      using False prefix_colon [OF assms(4) o'(1)] by simp
    moreover have "SECTION_SPLIT \<notin> set (o' @ STRING_SPLIT # r)" using o' by simp
    ultimately have "section_of (h @ concat (map section_text (p # ps))) opt =
        section_of ((o' @ STRING_SPLIT # r) @ ?rest) opt"
      using st by (simp add: section_of_def)
    with Cons.IH [OF \<open>SECTION_SPLIT \<notin> set (o' @ STRING_SPLIT # r)\<close> ps] False show ?thesis
      by (simp add: p)
  qed
qed

text \<open>Modules that can be told apart in a line.\<close>

definition mods_ok :: "tmod list \<Rightarrow> bool" where
  "mods_ok ms \<longleftrightarrow> distinct (map m_opt (filter m_enable ms)) \<and>
     (\<forall>m \<in> set ms. SECTION_SPLIT \<notin> set (m_opt m) \<and> STRING_SPLIT \<notin> set (m_opt m) \<and> SECTION_SPLIT \<notin> set (m_record m))"

definition mod_sections :: "tmod list \<Rightarrow> (string \<times> string) list" where
  "mod_sections ms = map (\<lambda>m. (m_opt m, m_record m)) (filter (\<lambda>m. m_enable m \<and> m_record m \<noteq> []) ms)"

lemma store_line_sections:
  "store_line t ms = fmt_0d 0 t @ concat (map section_text (mod_sections ms))"
  by (simp add: store_line_def mod_sections_def section_text_def comp_def)

lemma distinct_mod_sections: "distinct (map m_opt (filter m_enable ms)) \<Longrightarrow> distinct (map fst (mod_sections ms))"
  by (induction ms) (auto simp: mod_sections_def comp_def split: if_splits)

lemma map_of_mod_sections:
  assumes "distinct (map m_opt (filter m_enable ms))" and "m \<in> set ms" and "m_enable m"
  shows "map_of (mod_sections ms) (m_opt m) = (if m_record m = [] then None else Some (m_record m))"
proof (cases "m_record m = []")
  case False
  then have "(m_opt m, m_record m) \<in> set (mod_sections ms)"
    using assms by (auto simp: mod_sections_def)
  with False distinct_mod_sections [OF assms(1)] show ?thesis by (simp add: map_of_is_SomeI)
next
  case True
  have "m_opt m \<notin> fst ` set (mod_sections ms)"
  proof
    assume "m_opt m \<in> fst ` set (mod_sections ms)"
    then obtain m' where "m' \<in> set ms" "m_enable m'" "m_record m' \<noteq> []" "m_opt m' = m_opt m"
      by (auto simp: mod_sections_def)
    with assms True show False by (auto simp: distinct_map inj_on_def)
  qed
  with True show ?thesis by (simp add: map_of_eq_None_iff)
qed

lemma no_bar_number: "SECTION_SPLIT \<notin> set (fmt_0d 0 (int n))"
  using dec_digits [of n] not_digit_seps(3) by (auto simp: fmt_0d_def list_all_iff)

section \<open>Items of a record\<close>

definition item_text :: "string \<times> u64 list \<Rightarrow> string" where
  "item_text it = fst it @ ITEM_SPSTART # join_nums (snd it) @ [ITEM_SPLIT]"

definition items_ok :: "nat \<Rightarrow> (string \<times> u64 list) list \<Rightarrow> bool" where
  "items_ok n_col its \<longleftrightarrow> 0 < n_col \<and>
     (\<forall>it \<in> set its. fst it \<noteq> [] \<and> ITEM_SPSTART \<notin> set (fst it) \<and> ITEM_SPLIT \<notin> set (fst it) \<and>
        length (snd it) = n_col)"

lemma char_pos_append: "c \<notin> set s \<Longrightarrow> char_pos (s @ c # r) c = Some (length s)"
  by (induction s) auto

lemma join_nums_seps: "ITEM_SPLIT \<notin> set (join_nums ns)" "ITEM_SPSTART \<notin> set (join_nums ns)"
  using join_nums_chars [of ITEM_SPLIT ns] join_nums_chars [of ITEM_SPSTART ns] not_digit_seps by auto

lemma next_item:
  assumes "drop pos record = sfx @ ITEM_SPSTART # join_nums ns @ ITEM_SPLIT # rest"
    and "ITEM_SPSTART \<notin> set sfx" and "ITEM_SPLIT \<notin> set sfx"
  shows "strtok_next_item record pos =
      Some (join_nums ns @ ITEM_SPLIT # rest, pos + length sfx + length (join_nums ns) + 3)"
proof -
  have "drop pos record \<noteq> []" using assms(1) by simp
  then have pos: "\<not> length record \<le> pos" "record \<noteq> []" by auto
  have e: "char_pos (drop pos record) ITEM_SPLIT = Some (length sfx + 1 + length (join_nums ns))"
    using char_pos_append [of ITEM_SPLIT "sfx @ ITEM_SPSTART # join_nums ns" rest] assms join_nums_seps [of ns]
    by simp
  have p: "char_pos (drop pos record) ITEM_SPSTART = Some (length sfx)"
    using char_pos_append [of ITEM_SPSTART sfx] assms by simp
  show ?thesis
    using pos e p by (simp add: strtok_next_item_def Let_def assms(1))
qed

fun merge_rows :: "merge_mode list \<Rightarrow> nat \<Rightarrow> u64 list list \<Rightarrow> u64 list \<Rightarrow> u64 list" where
  "merge_rows modes k [] arr = arr"
| "merge_rows modes k (ns # rows) arr = merge_rows modes (k + 1) rows (merge_cols modes k arr ns)"

lemma merge_items_rows:
  assumes "items_ok n_col its" and "drop pos record = (case its of [] \<Rightarrow> [] | it # _ \<Rightarrow> drop skip (item_text it)) @
      concat (map item_text (tl its))" and "its \<noteq> [] \<Longrightarrow> skip \<le> 1"
  shows "merge_items modes n_col record pos k arr = (True, merge_rows modes k (map snd its) arr)"
  using assms
proof (induction its arbitrary: pos skip k arr)
  case Nil
  then have "strtok_next_item record pos = None" by (simp add: strtok_next_item_def)
  then show ?case by (subst merge_items.simps) simp
next
  case (Cons it its)
  obtain name ns where it: "it = (name, ns)" by force
  have ok: "name \<noteq> []" "ITEM_SPSTART \<notin> set name" "ITEM_SPLIT \<notin> set name" "length ns = n_col" "0 < n_col"
    and rest: "items_ok n_col its"
    using Cons.prems(1) by (auto simp: items_ok_def it)
  let ?sfx = "drop skip name" and ?rest = "concat (map item_text its)"
  have "skip \<le> length name" using ok(1) Cons.prems(3) by (cases name) auto
  then have dr: "drop pos record = ?sfx @ ITEM_SPSTART # join_nums ns @ ITEM_SPLIT # ?rest"
    using Cons.prems(2) by (simp add: item_text_def [of it]) (simp add: it)
  have sfx: "ITEM_SPSTART \<notin> set ?sfx" "ITEM_SPLIT \<notin> set ?sfx"
    using ok by (meson in_set_dropD)+
  let ?pos = "pos + length ?sfx + length (join_nums ns) + 3"
  have ne: "ns \<noteq> []" using ok by auto
  have cv: "convert_loop n_col (join_nums ns @ ITEM_SPLIT # ?rest) = ns"
    using ok ne by (intro convert_loop_nums) (simp_all add: ends_number_def)
  have m1: "merge_one_string modes arr n_col (join_nums ns @ ITEM_SPLIT # ?rest) k = (True, merge_cols modes k arr ns)"
    using ok ne by (simp add: merge_one_string_def convert_record_to_array_def cv Let_def)
  have dr': "drop ?pos record = drop 1 ?rest"
  proof -
    have "drop ?pos record = drop (length ?sfx + length (join_nums ns) + 3) (drop pos record)"
      by (simp add: add.commute add.left_commute del: length_drop)
    also have "\<dots> = drop 1 ?rest" unfolding dr by (simp add: numeral_3_eq_3)
    finally show ?thesis .
  qed
  have "drop 1 ?rest = (case its of [] \<Rightarrow> [] | it # _ \<Rightarrow> drop 1 (item_text it)) @ concat (map item_text (tl its))"
  proof (cases its)
    case (Cons x xs)
    obtain c t where "item_text x = c # t" by (cases "item_text x") (auto simp: item_text_def)
    with Cons show ?thesis by simp
  qed simp
  with dr' have "merge_items modes n_col record ?pos (k + 1) (merge_cols modes k arr ns) =
      (True, merge_rows modes (k + 1) (map snd its) (merge_cols modes k arr ns))"
    by (intro Cons.IH [OF rest, where skip = 1]) simp_all
  then show ?case
    using next_item [OF dr sfx] m1 by (subst merge_items.simps) (simp add: it)
qed


lemma merge_cols_nth:
  assumes "j < length bs" and "length bs \<le> length modes" and "length bs \<le> length as"
  shows "merge_cols modes k as bs ! j = merge_value (modes ! j) k (as ! j) (bs ! j)"
  using assms
proof (induction modes k as bs arbitrary: j rule: merge_cols.induct)
  case (1 m ms n a as b bs)
  then show ?case by (cases j) auto
qed auto

lemma length_merge_cols [simp]: "length (merge_cols modes k as bs) = length as"
  by (induction modes k as bs rule: merge_cols.induct) auto

lemma merge_rows_sum:
  assumes "j < n_col" and "list_all (\<lambda>ns. length ns = n_col) rows" and "n_col \<le> length modes" and "n_col \<le> length arr"
    and "modes ! j = MERGE_SUM"
  shows "merge_rows modes k rows arr ! j = arr ! j + (\<Sum>ns \<leftarrow> rows. ns ! j) \<and>
    length (merge_rows modes k rows arr) = length arr"
  using assms(2,4)
proof (induction rows arbitrary: k arr)
  case Nil
  then show ?case by simp
next
  case (Cons ns rows)
  have "merge_cols modes k arr ns ! j = arr ! j + ns ! j"
    using merge_cols_nth [of j ns modes arr k] Cons.prems assms(1,3,5) by simp
  with Cons show ?case by (simp add: add.assoc)
qed

section \<open>Statistics of all cells\<close>

definition cell_new :: "tconf \<Rightarrow> tmod \<Rightarrow> nat \<Rightarrow> u64 \<times> rat \<times> bool" where
  "cell_new conf m k = stat_value (c_interval conf) (i_stats (m_info m ! (k mod m_n_col m)))
     (m_pre m ! k) (m_cur m ! k) (m_st m ! k)"

text \<open>The module after its first \<open>n\<close> cells.\<close>

definition cells_done :: "tconf \<Rightarrow> tmod \<Rightarrow> nat \<Rightarrow> tmod" where
  "cells_done conf m n =
     m\<lparr>m_pre := map (\<lambda>k. fst (cell_new conf m k)) [0..<n] @ drop n (m_pre m),
       m_st := map (\<lambda>k. fst (snd (cell_new conf m k))) [0..<n] @ drop n (m_st m),
       m_st_flag := (\<forall>k < n. snd (snd (cell_new conf m k)))\<rparr>"

lemma cells_done_simps [simp]:
  "m_set_st (cells_done conf m n) = m_set_st m" "m_info (cells_done conf m n) = m_info m"
  "m_cur (cells_done conf m n) = m_cur m" "m_n_col (cells_done conf m n) = m_n_col m"
  "m_n_item (cells_done conf m n) = m_n_item m" "m_n_record (cells_done conf m n) = m_n_record m"
  by (simp_all add: cells_done_def)






section \<open>The tail statistics of one column\<close>

text \<open>Successive samples of a column, starting at record number \<open>n\<close>.\<close>

fun tail_run :: "nat \<Rightarrow> rat \<times> rat \<times> rat \<Rightarrow> rat list \<Rightarrow> rat \<times> rat \<times> rat" where
  "tail_run n t [] = t"
| "tail_run n t (x # xs) = tail_run (Suc n) (tail_value n x t) xs"

lemma tail_run_mean:
  "list_all (\<lambda>x. 0 \<le> x) xs \<Longrightarrow> xs \<noteq> [] \<Longrightarrow>
     fst (snd (tail_run (Suc n) (mx, mean, mn) xs)) = (of_nat n * mean + sum_list xs) / of_nat (n + length xs)"
proof (induction xs arbitrary: n mx mean mn)
  case Nil
  then show ?case by simp
next
  case (Cons x xs)
  obtain mx' mn' where tv: "tail_value (Suc n) x (mx, mean, mn) = (mx', (of_nat n * mean + x) / of_nat (Suc n), mn')"
    using Cons.prems(1) by (simp add: tail_value_def)
  show ?case
  proof (cases "xs = []")
    case True
    then show ?thesis using tv by simp
  next
    case False
    have "of_nat (Suc n) * ((of_nat n * mean + x) / of_nat (Suc n)) = of_nat n * mean + x"
      by (simp del: of_nat_Suc)
    with Cons.IH [of "Suc n" mx' "(of_nat n * mean + x) / of_nat (Suc n)" mn'] Cons.prems(1) False tv
    show ?thesis by (simp add: add.assoc del: of_nat_Suc)
  qed
qed

section \<open>Properties\<close>

text \<open>C5: storing a round and reading the line back gives every enabled module its own record again,
  and the time of the round: sections are found by their full name, whatever the other modules'
  names and records are, as long as the separators occur in none of them.\<close>

theorem store_read_line:
  assumes "mods_ok ms"
  shows "read_line_to_module_record (store_line (int t) ms @ [CHR 0x0A])
      (map (\<lambda>m. if m_enable m then m\<lparr>m_record := old m\<rparr> else m) ms) = (int t, ms)"
proof -
  have so: "sections_ok (mod_sections ms)"
    using assms distinct_mod_sections [of ms] by (auto simp: mods_ok_def sections_ok_def mod_sections_def)
  have sec: "(case section_of (store_line (int t) ms) (m_opt m) of None \<Rightarrow> [] | Some r \<Rightarrow> r) = m_record m"
    if "m \<in> set ms" "m_enable m" for m
    using section_of_sections [OF no_bar_number so, of "m_opt m" t] map_of_mod_sections [of ms m] assms that
    by (simp add: mods_ok_def store_line_sections)
  have "ends_number (concat (map section_text (mod_sections ms)))"
    by (cases "mod_sections ms") (simp_all add: ends_number_def section_text_def)
  then have "atol (store_line (int t) ms) = int t"
    by (simp add: store_line_sections fmt_0d_def atol_dec)
  with sec show ?thesis
    by (simp add: read_line_to_module_record_def Let_def comp_def map_idI)
qed

text \<open>Two modules, one of whose names ends in the other's.\<close>

definition demo_mod :: "string \<Rightarrow> string \<Rightarrow> tmod" where
  "demo_mod opt r = \<lparr>m_name = [], m_opt = opt, m_usage = [], m_record = r, m_param = [],
     m_info = [\<lparr>i_hdr = ''a'', i_summary = SUMMARY_BIT, i_merge = MERGE_SUM, i_stats = STATS_SUB\<rparr>,
               \<lparr>i_hdr = ''b'', i_summary = SUMMARY_BIT, i_merge = MERGE_SUM, i_stats = STATS_SUB_INTER\<rparr>],
     m_lib = True, m_enable = True, m_spec = False, m_n_item = 1, m_n_col = 2, m_n_record = 0,
     m_pre_flag = True, m_st_flag = False, m_pre = [10, 20], m_cur = [15, 60], m_st = [0, 0],
     m_max = [], m_mean = [], m_min = [], m_warn = 0, m_collect = None, m_set_st = None\<rparr>"

theorem store_read_line_witness:
  "read_line_to_module_record (store_line (int 77) [demo_mod ''--cpu'' ''1,2'', demo_mod ''cpu'' ''3''] @ [CHR 0x0A])
     (map (\<lambda>m. if m_enable m then m\<lparr>m_record := ''old''\<rparr> else m) [demo_mod ''--cpu'' ''1,2'', demo_mod ''cpu'' ''3'']) =
   (int 77, [demo_mod ''--cpu'' ''1,2'', demo_mod ''cpu'' ''3''])"
  by (rule store_read_line) (simp add: mods_ok_def demo_mod_def)

text \<open>converting a record of printed numbers gives the numbers back: at most as many as there are
  columns, stored from the start of the array, the rest of which is left alone.\<close>

theorem convert_record_roundtrip:
  assumes "ns \<noteq> []" and "length ns \<le> l_array"
  shows "convert_record_to_array array l_array (join_nums ns) = (length ns, ns @ drop (length ns) array)"
proof -
  have "convert_loop l_array (join_nums ns) = ns"
    using convert_loop_nums [OF assms, of "[]"] by (simp add: ends_number_def)
  moreover have "l_array \<noteq> 0" using assms by (cases ns) auto
  ultimately show ?thesis
    using join_nums_nonempty [OF assms(1)] by (simp add: convert_record_to_array_def)
qed

theorem convert_record_roundtrip_witness:
  "convert_record_to_array [7, 7, 7] 3 (join_nums [18446744073709551615, 0]) = (2, [18446744073709551615, 0, 7])"
  using convert_record_roundtrip [of "[18446744073709551615, 0]" 3 "[7, 7, 7]"] by simp

text \<open>C19: merging the items of a record adds up their columns: for a record of named items with all
  their columns, the merge succeeds and every summed column holds the sum of the items' values,
  modulo \<open>2 ^ 64\<close>.\<close>

theorem merge_items_sum:
  assumes "items_ok n_col its" and "j < n_col" and "n_col \<le> length modes" and "modes ! j = MERGE_SUM"
  shows "\<exists>arr'. merge_mult_item_to_array modes n_col (concat (map item_text its)) arr = (True, arr') \<and>
    arr' ! j = (\<Sum>it \<leftarrow> its. snd it ! j)"
proof -
  let ?arr = "replicate n_col 0 @ drop n_col arr" and ?text = "concat (map item_text its)"
  have rows: "list_all (\<lambda>ns. length ns = n_col) (map snd its)"
    using assms(1) by (auto simp: items_ok_def list_all_iff)
  have "drop 0 ?text = (case its of [] \<Rightarrow> [] | it # _ \<Rightarrow> drop 0 (item_text it)) @ concat (map item_text (tl its))"
    by (cases its) simp_all
  from merge_items_rows [OF assms(1) this, of modes 1 ?arr]
  have "merge_mult_item_to_array modes n_col ?text arr = (True, merge_rows modes 1 (map snd its) ?arr)"
    by (simp add: merge_mult_item_to_array_def)
  moreover have "merge_rows modes 1 (map snd its) ?arr ! j = (\<Sum>it \<leftarrow> its. snd it ! j)"
    using merge_rows_sum [OF assms(2) rows assms(3) _ assms(4), of ?arr 1] assms(2)
    by (simp add: nth_append comp_def)
  ultimately show ?thesis by blast
qed

theorem merge_items_sum_witness:
  "\<exists>arr'. merge_mult_item_to_array [MERGE_SUM, MERGE_AVG] 2
      (concat (map item_text [(''eth0'', [3, 4]), (''eth1'', [5, 6])])) [0, 0] = (True, arr') \<and> arr' ! 0 = 8"
  using merge_items_sum [of 2 "[(''eth0'', [3, 4]), (''eth1'', [5, 6])]" 0 "[MERGE_SUM, MERGE_AVG]" "[0, 0]"]
  by (simp add: items_ok_def)



text \<open>C40: the mean printed at the end leaves out the first sample: after a first sample and any
  further non-negative samples it is the average of the further ones alone.\<close>

theorem tail_mean_skips_first:
  assumes "xs \<noteq> []" and "list_all (\<lambda>x. 0 \<le> x) xs"
  shows "fst (snd (tail_run 0 t (x # xs))) = sum_list xs / of_nat (length xs)"
proof -
  have "tail_value 0 x t = (x, x, x)" by (simp add: tail_value_def split: prod.split)
  then show ?thesis using tail_run_mean [OF assms(2,1), of 0 x x x] by simp
qed

theorem tail_mean_skips_first_witness: "fst (snd (tail_run 0 (0, 0, 0) [90, 10, 20])) = 15"
  using tail_mean_skips_first [of "[10, 20]" "(0, 0, 0)" 90] by simp

end
