(* ===== verification/Npb.thy ===== *)
theory Npb
  imports Sysak_Prelude
begin

unbundle bit_operations_syntax

text \<open>
  The protocol-buffer primitives of source/tools/monitor/unity/protobuf/npb.c: variable-length and
  fixed-width integers, zig-zag encoding, and the output buffer. The functions are called from Lua,
  whose numbers are doubles; here a Lua number is an integer, and a conversion of a 64-bit integer
  to a Lua number rounds it to 53 significant bits.
\<close>

section \<open>Lua values\<close>

fun bit_len :: "nat \<Rightarrow> nat" where
  "bit_len n = (if n = 0 then 0 else Suc (bit_len (n div 2)))"

declare bit_len.simps [simp del]

text \<open>The double nearest to a natural number, ties to even.\<close>

definition round53 :: "nat \<Rightarrow> nat" where
  "round53 n =
     (if bit_len n \<le> 53 then n
      else (let u = 2 ^ (bit_len n - 53); q = n div u; r = n mod u
            in if 2 * r > u \<or> 2 * r = u \<and> odd q then (q + 1) * u else q * u))"

definition to_double :: "int \<Rightarrow> int" where
  "to_double i = (if i < 0 then - int (round53 (nat (- i))) else int (round53 (nat i)))"

text \<open>A call either raises a Lua error, returns, or reads memory outside its argument.\<close>

datatype 'a lua_result = Lua_error | Lua_ok 'a | Outside

text \<open>
  The memory of a Lua string: its bytes, the terminating zero Lua keeps behind them, and then
  whatever follows.
\<close>

definition str_mem :: "(nat \<Rightarrow> byte) \<Rightarrow> byte list \<Rightarrow> nat \<Rightarrow> byte" where
  "str_mem junk s i = (if i < length s then s ! i else if i = length s then 0 else junk i)"

section \<open>Variable-length integers\<close>

text \<open>The nested conditionals of \<open>pack_varint\<close>, nine deep.\<close>

fun pack_varint_n :: "nat \<Rightarrow> u64 \<Rightarrow> byte list" where
  "pack_varint_n 0 value = [ucast value]"
| "pack_varint_n (Suc n) value =
     (if value \<ge> 0x80 then ucast (value OR 0x80) # pack_varint_n n (drop_bit 7 value) else [ucast value])"

definition pack_varint :: "u64 \<Rightarrow> byte list" where
  "pack_varint value = pack_varint_n 9 value"

definition varint_encoder :: "int \<Rightarrow> byte list" where
  "varint_encoder l_value = pack_varint (word_of_int l_value)"

definition signed_varint_encoder :: "int \<Rightarrow> byte list" where
  "signed_varint_encoder l_value =
     (let value = (word_of_int l_value :: u64) in if sint value < 0 then pack_varint value else pack_varint value)"

text \<open>
  \<open>size_varint\<close> on the memory from \<open>buffer\<close> on, \<open>None\<close> for the result -1. The comparison is with the
  length of the whole string, and one byte behind it is read before the test can fail.
\<close>

function size_varint_from :: "(nat \<Rightarrow> byte) \<Rightarrow> nat \<Rightarrow> nat \<Rightarrow> nat option" where
  "size_varint_from buffer len pos =
     (if buffer pos AND 0x80 \<noteq> 0
      then (if pos + 1 > len then None else size_varint_from buffer len (pos + 1))
      else Some (pos + 1))"
  by pat_completeness auto

termination
  by (relation "measure (\<lambda>(buffer, len, pos). len + 1 - pos)") auto

declare size_varint_from.simps [simp del]

definition size_varint :: "(nat \<Rightarrow> byte) \<Rightarrow> nat \<Rightarrow> nat option" where
  "size_varint buffer len = size_varint_from buffer len 0"

fun unpack_loop :: "(nat \<Rightarrow> byte) \<Rightarrow> nat list \<Rightarrow> nat \<Rightarrow> u64 \<Rightarrow> u64" where
  "unpack_loop buffer [] shift value = value"
| "unpack_loop buffer (pos # ps) shift value =
     unpack_loop buffer ps (shift + 7) (value OR push_bit shift (ucast (buffer pos AND 0x7f)))"

definition unpack_varint :: "(nat \<Rightarrow> byte) \<Rightarrow> nat \<Rightarrow> u64" where
  "unpack_varint buffer len = unpack_loop buffer [1..<len] 7 (ucast (buffer 0 AND 0x7f))"

definition varint_decoder :: "(nat \<Rightarrow> byte) \<Rightarrow> byte list \<Rightarrow> nat \<Rightarrow> (int \<times> nat) lua_result" where
  "varint_decoder junk s pos =
     (let buffer = (\<lambda>i. str_mem junk s (pos + i))
      in case size_varint buffer (length s) of
           None \<Rightarrow> Lua_error
         | Some len \<Rightarrow> Lua_ok (to_double (uint (unpack_varint buffer len)), len + pos))"

definition signed_varint_decoder :: "(nat \<Rightarrow> byte) \<Rightarrow> byte list \<Rightarrow> nat \<Rightarrow> (int \<times> nat) lua_result" where
  "signed_varint_decoder junk s pos =
     (let buffer = (\<lambda>i. str_mem junk s (pos + i))
      in case size_varint buffer (length s) of
           None \<Rightarrow> Lua_error
         | Some len \<Rightarrow> Lua_ok (to_double (sint (unpack_varint buffer len)), len + pos))"

definition read_tag :: "(nat \<Rightarrow> byte) \<Rightarrow> byte list \<Rightarrow> nat \<Rightarrow> (byte list \<times> nat) lua_result" where
  "read_tag junk s pos =
     (let buffer = (\<lambda>i. str_mem junk s (pos + i))
      in case size_varint buffer (length s) of
           None \<Rightarrow> Lua_error
         | Some len \<Rightarrow> Lua_ok (map buffer [0..<len], len + pos))"

section \<open>Zig-zag encoding\<close>

text \<open>The results are pushed as signed 64-bit integers, which Lua stores as doubles.\<close>

definition zig_zag_encode32 :: "int \<Rightarrow> int" where
  "zig_zag_encode32 i =
     (let n = (word_of_int i :: u32); value = push_bit 1 n XOR signed_drop_bit 31 n
      in to_double (uint value))"

definition zig_zag_decode32 :: "int \<Rightarrow> int" where
  "zig_zag_decode32 i =
     (let n = (word_of_int i :: u32); value = drop_bit 1 n XOR - (n AND 1) in to_double (sint value))"

definition zig_zag_encode64 :: "int \<Rightarrow> int" where
  "zig_zag_encode64 i =
     (let n = (word_of_int i :: u64); value = push_bit 1 n XOR signed_drop_bit 63 n
      in to_double (sint value))"

definition zig_zag_decode64 :: "int \<Rightarrow> int" where
  "zig_zag_decode64 i =
     (let n = (word_of_int i :: u64); value = drop_bit 1 n XOR - (n AND 1) in to_double (sint value))"

section \<open>Fixed-width integers\<close>

definition pack_fixed32 :: "u32 \<Rightarrow> byte list" where "pack_fixed32 v = le_bytes 4 (unat v)"
definition pack_fixed64 :: "u64 \<Rightarrow> byte list" where "pack_fixed64 v = le_bytes 8 (unat v)"

text \<open>
  The formats are character codes, reduced to a byte; \<open>f32\<close> and \<open>f64\<close> are the bit patterns of a number
  as a float and as a double.
\<close>

abbreviation (input) chr_i :: byte where "chr_i \<equiv> 105"
abbreviation (input) chr_q :: byte where "chr_q \<equiv> 113"
abbreviation (input) chr_f :: byte where "chr_f \<equiv> 102"
abbreviation (input) chr_d :: byte where "chr_d \<equiv> 100"
abbreviation (input) chr_I :: byte where "chr_I \<equiv> 73"
abbreviation (input) chr_Q :: byte where "chr_Q \<equiv> 81"

definition struct_pack :: "(int \<Rightarrow> u32) \<Rightarrow> (int \<Rightarrow> u64) \<Rightarrow> int \<Rightarrow> int \<Rightarrow> byte list lua_result" where
  "struct_pack f32 f64 format_arg value =
     (let format = (word_of_int format_arg :: byte)
      in if format = chr_i then Lua_ok (pack_fixed32 (word_of_int value))
         else if format = chr_q then Lua_ok (pack_fixed64 (word_of_int value))
         else if format = chr_f then Lua_ok (pack_fixed32 (f32 value))
         else if format = chr_d then Lua_ok (pack_fixed64 (f64 value))
         else if format = chr_I then Lua_ok (pack_fixed32 (word_of_int value))
         else if format = chr_Q then Lua_ok (pack_fixed64 (word_of_int value))
         else Lua_error)"

definition unpack_fixed32 :: "(nat \<Rightarrow> byte) \<Rightarrow> u32" where
  "unpack_fixed32 buffer = word_of_nat (le_val (map buffer [0..<4]))"

definition unpack_fixed64 :: "(nat \<Rightarrow> byte) \<Rightarrow> u64" where
  "unpack_fixed64 buffer = word_of_nat (le_val (map buffer [0..<8]))"

definition struct_unpack ::
  "(u32 \<Rightarrow> int) \<Rightarrow> (u64 \<Rightarrow> int) \<Rightarrow> (nat \<Rightarrow> byte) \<Rightarrow> int \<Rightarrow> byte list \<Rightarrow> nat \<Rightarrow> int lua_result" where
  "struct_unpack g32 g64 junk format_arg s pos =
     (let format = (word_of_int format_arg :: byte); buffer = (\<lambda>i. str_mem junk s (pos + i))
      in if format = chr_i then Lua_ok (to_double (sint (unpack_fixed32 buffer)))
         else if format = chr_q then Lua_ok (to_double (sint (unpack_fixed64 buffer)))
         else if format = chr_f then Lua_ok (g32 (unpack_fixed32 buffer))
         else if format = chr_d then Lua_ok (g64 (unpack_fixed64 buffer))
         else if format = chr_I then Lua_ok (to_double (uint (unpack_fixed32 buffer)))
         else if format = chr_Q then Lua_ok (to_double (uint (unpack_fixed64 buffer)))
         else Lua_error)"

text \<open>The numbers a format holds, given how floats and doubles are read.\<close>

definition struct_fits :: "(int \<Rightarrow> u32) \<Rightarrow> (int \<Rightarrow> u64) \<Rightarrow> (u32 \<Rightarrow> int) \<Rightarrow> (u64 \<Rightarrow> int) \<Rightarrow> byte \<Rightarrow> int \<Rightarrow> bool" where
  "struct_fits f32 f64 g32 g64 fmt v =
     (fmt = chr_i \<and> - (2 ^ 31) \<le> v \<and> v < 2 ^ 31 \<or> fmt = chr_I \<and> 0 \<le> v \<and> v < 2 ^ 32 \<or>
      fmt = chr_q \<and> \<bar>v\<bar> < 2 ^ 53 \<or> fmt = chr_Q \<and> 0 \<le> v \<and> v < 2 ^ 53 \<or>
      fmt = chr_f \<and> g32 (f32 v) = v \<or> fmt = chr_d \<and> g64 (f64 v) = v)"

section \<open>The output buffer\<close>

abbreviation (input) IOSTRING_BUF_LEN :: nat where "IOSTRING_BUF_LEN \<equiv> 65535"

record iostring =
  io_size :: nat
  io_buf :: "byte list"

definition iostring_new :: "byte list \<Rightarrow> iostring" where
  "iostring_new garbage = \<lparr>io_size = 0, io_buf = garbage\<rparr>"

definition iostring_str :: "iostring \<Rightarrow> byte list" where
  "iostring_str io = take (io_size io) (io_buf io)"

definition iostring_len :: "iostring \<Rightarrow> int" where
  "iostring_len io = int (io_size io)"

definition iostring_write :: "byte list \<Rightarrow> iostring \<Rightarrow> iostring lua_result" where
  "iostring_write str io =
     (if io_size io + length str > IOSTRING_BUF_LEN then Lua_error
      else Lua_ok \<lparr>io_size = io_size io + length str,
             io_buf = take (io_size io) (io_buf io) @ str @ drop (io_size io + length str) (io_buf io)\<rparr>)"

text \<open>
  \<open>begin\<close> and \<open>end\<close> are converted to \<open>size_t\<close>; with \<open>begin\<close> 0 the copy starts one byte before the buffer.
\<close>

definition iostring_sub :: "int \<Rightarrow> int \<Rightarrow> iostring \<Rightarrow> byte list lua_result" where
  "iostring_sub b e io =
     (let bg = nat (b mod 2 ^ 64); en = nat (e mod 2 ^ 64)
      in if bg > en \<or> en > io_size io then Lua_error
         else if bg = 0 then Outside
         else Lua_ok (bslice (bg - 1) (en - bg + 1) (io_buf io)))"

definition iostring_clear :: "iostring \<Rightarrow> iostring" where
  "iostring_clear io = io\<lparr>io_size := 0\<rparr>"

section \<open>Doubles\<close>

lemma bit_len_bound: "n < 2 ^ bit_len n"
proof (induction n rule: bit_len.induct)
  case (1 n)
  then show ?case by (subst bit_len.simps) auto
qed

lemma bit_len_le: "n < 2 ^ k \<Longrightarrow> bit_len n \<le> k"
proof (induction k arbitrary: n)
  case 0
  then show ?case by (simp add: bit_len.simps)
next
  case (Suc k)
  from Suc.prems have "n div 2 < 2 ^ k" by simp
  from Suc.IH [OF this] show ?case by (subst bit_len.simps) simp
qed

lemma to_double_exact:
  assumes "\<bar>i\<bar> < 2 ^ 53"
  shows "to_double i = i"
proof -
  have "nat \<bar>i\<bar> < nat (2 ^ 53)" using assms by linarith
  then have "nat \<bar>i\<bar> < 2 ^ 53" by (simp add: nat_power_eq)
  then have "bit_len (nat \<bar>i\<bar>) \<le> 53" by (rule bit_len_le)
  then show ?thesis by (cases "i < 0") (simp_all add: to_double_def round53_def)
qed

lemma bit_len_lower: "0 < n \<Longrightarrow> 2 ^ (bit_len n - 1) \<le> n"
proof (induction n rule: bit_len.induct)
  case (1 n)
  show ?case
  proof (cases "n div 2 = 0")
    case True
    then show ?thesis using 1(2) by (subst bit_len.simps) (simp add: bit_len.simps)
  next
    case False
    then obtain j where j: "bit_len (n div 2) = Suc j" by (subst (asm) bit_len.simps) (auto simp: bit_len.simps)
    have "2 ^ j \<le> n div 2" using 1 False j by simp
    then show ?thesis using 1(2) j by (subst bit_len.simps) simp
  qed
qed

lemma round53_pos: "0 < n \<Longrightarrow> 0 < round53 n"
proof -
  assume n: "0 < n"
  have "(2 :: nat) ^ (bit_len n - 53) \<le> 2 ^ (bit_len n - 1)" by (rule power_increasing) simp_all
  then have "2 ^ (bit_len n - 53) \<le> n" using bit_len_lower [OF n] by linarith
  then have "0 < n div 2 ^ (bit_len n - 53)" by (simp add: div_greater_zero_iff)
  then show ?thesis using n by (auto simp: round53_def Let_def)
qed

lemma to_double_neg: "i < 0 \<Longrightarrow> to_double i < 0"
  using round53_pos [of "nat (- i)"] by (simp add: to_double_def)

section \<open>The shape and the value of an encoded integer\<close>

fun is_varint :: "byte list \<Rightarrow> bool" where
  "is_varint [] = False"
| "is_varint [b] = (b AND 0x80 = 0)"
| "is_varint (b # bs) = (b AND 0x80 \<noteq> 0 \<and> is_varint bs)"

fun varint_val :: "byte list \<Rightarrow> u64" where
  "varint_val [] = 0"
| "varint_val (b # bs) = ucast (b AND 0x7f) OR push_bit 7 (varint_val bs)"

lemma mask7: "(0x7f :: 'a :: len word) = mask 7" by (simp add: mask_eq_exp_minus_1)

lemma below_0x80: "\<not> (0x80 \<le> (v :: u64)) \<Longrightarrow> drop_bit 7 v = 0"
proof -
  assume "\<not> 0x80 \<le> v"
  then have "unat v < 128" by (simp add: word_le_nat_alt)
  then have "unat (drop_bit 7 v) = 0" by (simp add: drop_bit_eq_div unat_div)
  then show ?thesis by (simp only: unat_eq_zero)
qed

lemma bit_0x80:
  "bit (0x80 :: byte) i \<longleftrightarrow> i = 7"
  "bit (0x80 :: u64) i \<longleftrightarrow> i = 7"
  "bit (0x80 :: int) i \<longleftrightarrow> i = 7"
  using bit_exp_iff [where ?'a = byte, of 7 i] bit_exp_iff [where ?'a = u64, of 7 i]
    bit_exp_iff [where ?'a = int, of 7 i] by auto

lemma no_high_bit: "drop_bit 7 (v :: u64) = 0 \<Longrightarrow> bit v i \<Longrightarrow> i < 7"
proof (rule ccontr)
  assume v: "drop_bit 7 v = 0" "bit v i" and i: "\<not> i < 7"
  have "bit (drop_bit 7 v) (i - 7) = bit v i" using i by (simp add: bit_drop_bit_eq)
  with v show False by simp
qed

lemma low_bits_last: "drop_bit 7 (v :: u64) = 0 \<Longrightarrow> ucast (ucast v AND 0x7f :: byte) = v"
  unfolding mask7
  by (intro bit_word_eqI) (auto simp: bit_simps dest: no_high_bit)

lemma low_bits_split: "ucast (ucast (v OR 0x80) AND 0x7f :: byte) OR push_bit 7 (drop_bit 7 v) = (v :: u64)"
proof (rule bit_word_eqI)
  fix i assume "i < LENGTH(64)"
  then show "bit (ucast (ucast (v OR 0x80) AND 0x7f :: byte) OR push_bit 7 (drop_bit 7 v)) i = bit v i"
    unfolding mask7 by (cases "i < 7") (auto simp: bit_simps bit_0x80)
qed

lemma continuation_bit: "ucast (v OR 0x80 :: u64) AND 0x80 \<noteq> (0 :: byte)"
proof -
  have "bit (ucast (v OR 0x80 :: u64) AND 0x80 :: byte) 7" by (simp add: bit_simps bit_0x80)
  then show ?thesis by auto
qed

lemma no_continuation_bit: "drop_bit 7 (v :: u64) = 0 \<Longrightarrow> ucast v AND 0x80 = (0 :: byte)"
  by (intro bit_word_eqI) (auto simp: bit_simps bit_0x80 dest: no_high_bit)

lemma pack_varint_n_not_Nil [simp]: "pack_varint_n n v \<noteq> []"
  by (cases n) simp_all

lemma is_varint_Cons: "bs \<noteq> [] \<Longrightarrow> is_varint (b # bs) = (b AND 0x80 \<noteq> 0 \<and> is_varint bs)"
  by (cases bs) simp_all

lemma pack_varint_n_shape: "drop_bit (7 * Suc n) v = 0 \<Longrightarrow> is_varint (pack_varint_n n v)"
proof (induction n arbitrary: v)
  case 0
  then show ?case by (simp add: no_continuation_bit)
next
  case (Suc n)
  have "drop_bit (7 * Suc n) (drop_bit 7 v) = 0" using Suc.prems by (simp add: algebra_simps)
  from Suc.IH [OF this] show ?case
    by (simp add: is_varint_Cons continuation_bit no_continuation_bit [OF below_0x80])
qed

lemma pack_varint_n_val: "drop_bit (7 * Suc n) v = 0 \<Longrightarrow> varint_val (pack_varint_n n v) = v"
proof (induction n arbitrary: v)
  case 0
  then show ?case by (simp add: low_bits_last)
next
  case (Suc n)
  have "drop_bit (7 * Suc n) (drop_bit 7 v) = 0" using Suc.prems by (simp add: algebra_simps)
  from Suc.IH [OF this] show ?case
    by (simp add: low_bits_split low_bits_last [OF below_0x80])
qed

lemma drop_bit_70: "drop_bit (7 * Suc 9) (v :: u64) = 0"
  by (simp add: drop_bit_eq_zero_iff_not_bit_last)

lemmas pack_varint_shape = pack_varint_n_shape [OF drop_bit_70, folded pack_varint_def]
lemmas pack_varint_val = pack_varint_n_val [OF drop_bit_70, folded pack_varint_def]

lemma pack_varint_n_length: "length (pack_varint_n n v) \<le> Suc n"
proof (induction n arbitrary: v)
  case (Suc n)
  show ?case using Suc [of "drop_bit 7 v"] by simp
qed simp

lemma size_varint_from_shape:
  "is_varint bs \<Longrightarrow> \<forall>i < length bs. buffer (pos + i) = bs ! i \<Longrightarrow> pos + length bs \<le> len + 1
   \<Longrightarrow> size_varint_from buffer len pos = Some (pos + length bs)"
proof (induction bs arbitrary: pos rule: is_varint.induct)
  case (2 b)
  then show ?case by (subst size_varint_from.simps) simp
next
  case (3 b b' bs)
  have "buffer pos = b" using 3(3) by (auto dest: spec [where x = 0])
  moreover have "\<forall>i < length (b' # bs). buffer (pos + 1 + i) = (b' # bs) ! i"
    using 3(3) by auto
  then have "size_varint_from buffer len (pos + 1) = Some (pos + 1 + length (b' # bs))"
    using 3 by (intro 3(1)) simp_all
  ultimately show ?case using 3(2,4) by (subst size_varint_from.simps) simp
qed simp

lemma unpack_loop_val:
  "unpack_loop buffer ps shift acc = acc OR push_bit shift (varint_val (map buffer ps))"
proof (induction ps arbitrary: shift acc)
  case (Cons p ps)
  then show ?case by (simp add: push_bit_or ac_simps)
qed simp

lemma unpack_varint_val:
  assumes "bs \<noteq> []" "\<forall>i < length bs. buffer i = bs ! i"
  shows "unpack_varint buffer (length bs) = varint_val bs"
proof -
  have bs: "map buffer [0..<length bs] = bs" using assms by (auto intro: nth_equalityI)
  have "unpack_varint buffer (length bs) = varint_val (map buffer (0 # [1..<length bs]))"
    by (simp add: unpack_varint_def unpack_loop_val)
  also have "0 # [1..<length bs] = [0..<length bs]" using assms(1) by (simp add: upt_conv_Cons)
  finally show ?thesis by (simp add: bs)
qed

text \<open>Reading an encoding embedded in a string.\<close>

lemma str_mem_mid: "i < length b \<Longrightarrow> str_mem junk (a @ b @ c) (length a + i) = b ! i"
  by (simp add: str_mem_def nth_append)

lemma size_varint_mid:
  assumes "is_varint bs"
  shows "size_varint (\<lambda>i. str_mem junk (a @ bs @ c) (length a + i)) (length (a @ bs @ c)) = Some (length bs)"
proof -
  have "size_varint_from (\<lambda>i. str_mem junk (a @ bs @ c) (length a + i)) (length (a @ bs @ c)) 0 =
     Some (0 + length bs)"
    using assms by (intro size_varint_from_shape) (simp_all add: str_mem_mid)
  then show ?thesis by (simp add: size_varint_def)
qed

lemma unpack_varint_mid:
  assumes "is_varint bs"
  shows "unpack_varint (\<lambda>i. str_mem junk (a @ bs @ c) (length a + i)) (length bs) = varint_val bs"
proof (rule unpack_varint_val)
  show "bs \<noteq> []" using assms by auto
qed (simp add: str_mem_mid)

lemma varint_decoder_mid:
  assumes "0 \<le> x" "x < 2 ^ 64"
  shows "varint_decoder junk (a @ varint_encoder x @ c) (length a) =
    Lua_ok (to_double x, length a + length (varint_encoder x))"
proof -
  have u: "uint (word_of_int x :: u64) = x" using assms by (simp add: unsigned_of_int take_bit_int_eq_self)
  note m = size_varint_mid [OF pack_varint_shape] unpack_varint_mid [OF pack_varint_shape]
  show ?thesis unfolding varint_decoder_def varint_encoder_def Let_def m
    by (simp add: m(2) pack_varint_val u)
qed

section \<open>Zig-zag\<close>

lemma zig_zag_word:
  fixes n :: "'a :: len word"
  defines "m \<equiv> push_bit 1 n XOR signed_drop_bit (LENGTH('a) - 1) n"
  shows "drop_bit 1 m XOR - (m AND 1) = n"
proof -
  define neg where "neg = bit n (LENGTH('a) - 1)"
  have "bit (signed_drop_bit (LENGTH('a) - 1) n) i = neg" if "i < LENGTH('a)" for i
    using that by (cases i) (auto simp: neg_def bit_signed_drop_bit_iff)
  then have m: "bit m i = (if i = 0 then neg else bit n (i - 1) \<noteq> neg)" if "i < LENGTH('a)" for i
    using that unfolding m_def bit_xor_iff bit_push_bit_iff by (cases i) (auto dest: bit_imp_le_length)
  have "bit m 0 = neg" using m [of 0] by simp
  then have m1: "- (m AND 1) = (if neg then - 1 else 0)"
    by (simp add: and_one_eq mod_2_eq_odd bit_0)
  show ?thesis
  proof (rule bit_word_eqI)
    fix i assume i: "i < LENGTH('a)"
    show "bit (drop_bit 1 m XOR - (m AND 1)) i = bit n i"
    proof (cases "Suc i < LENGTH('a)")
      case True
      then show ?thesis using i m [of "Suc i"] by (simp add: m1 bit_xor_iff bit_drop_bit_eq bit_simps)
    next
      case False
      then have "i = LENGTH('a) - 1" using i by simp
      then show ?thesis using i
        by (auto simp: m1 neg_def bit_xor_iff bit_drop_bit_eq bit_simps dest: bit_imp_le_length)
    qed
  qed
qed

lemma zig_zag_value:
  fixes n :: "'a :: len word"
  shows "push_bit 1 n XOR signed_drop_bit (LENGTH('a) - 1) n = word_of_int (if sint n < 0 then - 2 * sint n - 1 else 2 * sint n)"
proof -
  have "sint (signed_drop_bit (LENGTH('a) - 1) n) = (if sint n < 0 then - 1 else 0)"
    using sint_lt [of n] sint_ge [of n]
      int_div_pos_eq [of "sint n" "2 ^ (LENGTH('a) - 1)" "- 1" "sint n + 2 ^ (LENGTH('a) - 1)"]
    by (simp add: sint_signed_drop_bit_eq drop_bit_eq_div div_pos_pos_trivial)
  then have d: "signed_drop_bit (LENGTH('a) - 1) n = (if sint n < 0 then - 1 else 0)"
    by (intro signed_word_eqI [where ?'a = int]) simp
  have p: "push_bit 1 n = word_of_int (2 * sint n)" by (simp add: push_bit_eq_mult)
  show ?thesis
  proof (cases "sint n < 0")
    case True
    then show ?thesis using d p by (simp add: not_eq_complement)
  next
    case False
    then show ?thesis using d p by simp
  qed
qed

section \<open>The number of bytes\<close>

lemma drop_bit_ge_0x80: "drop_bit (7 * Suc n) (v :: u64) \<noteq> 0 \<Longrightarrow> 0x80 \<le> v"
proof (rule ccontr)
  assume d: "drop_bit (7 * Suc n) v \<noteq> 0" and "\<not> 0x80 \<le> v"
  then have "drop_bit (7 * n) (drop_bit 7 v) = 0" by (simp add: below_0x80)
  with d show False by (simp add: algebra_simps)
qed

lemma pack_varint_n_full: "drop_bit (7 * n) v \<noteq> 0 \<Longrightarrow> length (pack_varint_n n v) = Suc n"
proof (induction n arbitrary: v)
  case (Suc n)
  have "drop_bit (7 * n) (drop_bit 7 v) \<noteq> 0" using Suc.prems by (simp add: algebra_simps)
  from Suc.IH [OF this] drop_bit_ge_0x80 [OF Suc.prems] show ?case by simp
qed simp

lemma pack_varint_length: "0 < length (pack_varint v)" "length (pack_varint v) \<le> 10"
  using pack_varint_n_length [of 9 v] by (simp_all add: pack_varint_def)

section \<open>Fixed-width fields embedded in a string\<close>

lemma map_str_mem_mid: "map (\<lambda>i. str_mem junk (a @ b @ c) (length a + i)) [0..<length b] = b"
  by (rule nth_equalityI) (simp_all add: str_mem_mid)

lemma unpack_fixed32_mid:
  "unpack_fixed32 (\<lambda>i. str_mem junk (a @ pack_fixed32 v @ c) (length a + i)) = v"
  using map_str_mem_mid [of junk a "pack_fixed32 v" c] unat_bound [of v]
  by (simp add: unpack_fixed32_def pack_fixed32_def le_val_le_bytes)

lemma unpack_fixed64_mid:
  "unpack_fixed64 (\<lambda>i. str_mem junk (a @ pack_fixed64 v @ c) (length a + i)) = v"
  using map_str_mem_mid [of junk a "pack_fixed64 v" c] unat_bound [of v]
  by (simp add: unpack_fixed64_def pack_fixed64_def le_val_le_bytes)

lemma sint_word_of_int32: "- (2 ^ 31) \<le> i \<Longrightarrow> i < 2 ^ 31 \<Longrightarrow> sint (word_of_int i :: u32) = i"
  by (simp add: signed_of_int signed_take_bit_int_eq_self)

lemma sint_word_of_int64: "- (2 ^ 63) \<le> i \<Longrightarrow> i < 2 ^ 63 \<Longrightarrow> sint (word_of_int i :: u64) = i"
  by (simp add: signed_of_int signed_take_bit_int_eq_self)

section \<open>The output buffer as a byte sequence\<close>

datatype io_op = Io_write "byte list" | Io_clear

fun io_exec :: "io_op \<Rightarrow> iostring \<Rightarrow> iostring \<times> bool" where
  "io_exec (Io_write s) io =
     (case iostring_write s io of Lua_ok io' \<Rightarrow> (io', True) | _ \<Rightarrow> (io, False))"
| "io_exec Io_clear io = (iostring_clear io, True)"

fun io_run :: "io_op list \<Rightarrow> iostring \<Rightarrow> iostring \<times> bool list" where
  "io_run [] io = (io, [])"
| "io_run (op # ops) io =
     (let (io1, ok) = io_exec op io; (io2, oks) = io_run ops io1 in (io2, ok # oks))"

fun spec_exec :: "io_op \<Rightarrow> byte list \<Rightarrow> byte list \<times> bool" where
  "spec_exec (Io_write s) bs = (if length bs + length s \<le> IOSTRING_BUF_LEN then (bs @ s, True) else (bs, False))"
| "spec_exec Io_clear bs = ([], True)"

fun spec_run :: "io_op list \<Rightarrow> byte list \<Rightarrow> byte list \<times> bool list" where
  "spec_run [] bs = (bs, [])"
| "spec_run (op # ops) bs =
     (let (bs1, ok) = spec_exec op bs; (bs2, oks) = spec_run ops bs1 in (bs2, ok # oks))"

definition io_inv :: "iostring \<Rightarrow> bool" where
  "io_inv io = (io_size io \<le> length (io_buf io) \<and> length (io_buf io) = IOSTRING_BUF_LEN)"

lemma io_exec_inv: "io_inv io \<Longrightarrow> io_inv (fst (io_exec op io))"
  by (cases op) (simp_all add: io_inv_def iostring_write_def iostring_clear_def not_less)

lemma io_exec_refines:
  "io_inv io \<Longrightarrow> (iostring_str (fst (io_exec op io)), snd (io_exec op io)) = spec_exec op (iostring_str io)"
  by (cases op) (simp_all add: io_inv_def iostring_write_def iostring_str_def iostring_clear_def not_less)

lemma io_run_refines:
  "io_inv io \<Longrightarrow> io_inv (fst (io_run ops io)) \<and>
     (iostring_str (fst (io_run ops io)), snd (io_run ops io)) = spec_run ops (iostring_str io)"
proof (induction ops arbitrary: io)
  case (Cons op ops)
  obtain io1 ok where e: "io_exec op io = (io1, ok)" by fastforce
  with io_exec_inv [OF Cons.prems, of op] io_exec_refines [OF Cons.prems, of op]
  have "io_inv io1" and s: "spec_exec op (iostring_str io) = (iostring_str io1, ok)" by simp_all
  from Cons.IH [OF this(1)] show ?case by (auto simp: e s split: prod.splits)
qed simp

lemma iostring_sub_slice:
  assumes "io_inv io" "1 \<le> b" "b \<le> e" "e \<le> iostring_len io"
  shows "iostring_sub b e io = Lua_ok (bslice (nat b - 1) (nat (e - b + 1)) (iostring_str io))"
proof -
  have "e < 2 ^ 64" using assms by (simp add: io_inv_def iostring_len_def)
  then have m: "b mod 2 ^ 64 = b" "e mod 2 ^ 64 = e" using assms by simp_all
  have n: "nat b \<le> nat e" "nat e \<le> io_size io" "nat b \<noteq> 0" "nat (e - b + 1) = nat e - nat b + 1"
    using assms by (simp_all add: iostring_len_def)
  have "bslice (nat b - 1) (nat e - nat b + 1) (take (io_size io) (io_buf io)) =
      bslice (nat b - 1) (nat e - nat b + 1) (io_buf io)"
  proof -
    have "nat e - nat b + 1 \<le> io_size io - (nat b - 1)" using n by arith
    then show ?thesis by (simp add: bslice_def drop_take min_absorb1)
  qed
  then show ?thesis using n unfolding iostring_sub_def m Let_def by (simp add: iostring_str_def)
qed

end
