(* ===== verification/Npb_Theorems.thy ===== *)
theory Npb_Theorems
  imports Npb
begin

text \<open>
  Properties of the protocol-buffer primitives: the integer encodings are inverted by their decoders
  wherever they stand in a message, and the output buffer behaves like a bounded byte sequence.
\<close>

section \<open>Zig-zag on Lua numbers\<close>





section \<open>Properties\<close>

text \<open>C13: For every unsigned 64-bit value, varint_encoder writes between one and ten bytes, and
  varint_decoder, started at the position of these bytes in any message, returns the value (as the
  double Lua has for it) and the position just behind them.\<close>

theorem npb_varint_roundtrip:
  assumes "0 \<le> x" "x < 2 ^ 64"
  shows "varint_decoder junk (a @ varint_encoder x @ c) (length a) =
           Lua_ok (to_double x, length a + length (varint_encoder x)) \<and>
         1 \<le> length (varint_encoder x) \<and> length (varint_encoder x) \<le> 10"
  using varint_decoder_mid [OF assms, of junk a c] pack_varint_length [of "word_of_int x"]
  by (simp add: varint_encoder_def Suc_le_eq)

theorem npb_varint_roundtrip_witness:
  "varint_decoder (\<lambda>_. 255) ([8] @ varint_encoder 300 @ [16]) (length [8 :: byte]) =
     Lua_ok (to_double 300, length [8 :: byte] + length (varint_encoder 300)) \<and>
   1 \<le> length (varint_encoder 300) \<and> length (varint_encoder 300) \<le> 10"
  by (rule npb_varint_roundtrip) simp_all

text \<open>Every signed 64-bit value written by signed_varint_encoder is read back by
  signed_varint_decoder, exactly when it has at most 53 bits; a negative value always takes ten bytes.\<close>

theorem npb_signed_varint_roundtrip:
  assumes "- (2 ^ 63) \<le> x" "x < 2 ^ 63"
  shows "signed_varint_decoder junk (a @ signed_varint_encoder x @ c) (length a) =
           Lua_ok (if \<bar>x\<bar> < 2 ^ 53 then x else to_double x, length a + length (signed_varint_encoder x)) \<and>
         (x < 0 \<longrightarrow> length (signed_varint_encoder x) = 10)"
proof
  have e: "signed_varint_encoder x = pack_varint (word_of_int x)"
    by (simp add: signed_varint_encoder_def)
  note m = size_varint_mid [OF pack_varint_shape] unpack_varint_mid [OF pack_varint_shape]
  have "(if \<bar>x\<bar> < 2 ^ 53 then x else to_double x) = to_double x" using to_double_exact [of x] by simp
  then show "signed_varint_decoder junk (a @ signed_varint_encoder x @ c) (length a) =
      Lua_ok (if \<bar>x\<bar> < 2 ^ 53 then x else to_double x, length a + length (signed_varint_encoder x))"
    unfolding signed_varint_decoder_def e Let_def m
    using sint_word_of_int64 [OF assms] by (simp add: m(2) pack_varint_val)
  show "x < 0 \<longrightarrow> length (signed_varint_encoder x) = 10"
  proof
    assume "x < 0"
    then have "sint (word_of_int x :: u64) < 0" using sint_word_of_int64 [OF assms] by simp
    then have "bit (word_of_int x :: u64) 63" using bit_last_iff [of "word_of_int x :: u64"] by simp
    then have "bit (drop_bit (7 * 9) (word_of_int x :: u64)) 0" by (simp add: bit_drop_bit_eq)
    then have "drop_bit (7 * 9) (word_of_int x :: u64) \<noteq> 0" by auto
    from pack_varint_n_full [OF this] show "length (signed_varint_encoder x) = 10"
      by (simp add: e pack_varint_def)
  qed
qed

theorem npb_signed_varint_roundtrip_witness:
  "signed_varint_decoder (\<lambda>_. 0) ([] @ signed_varint_encoder (- 5) @ [1]) (length ([] :: byte list)) =
     Lua_ok (if \<bar>- 5 :: int\<bar> < 2 ^ 53 then - 5 else to_double (- 5),
             length ([] :: byte list) + length (signed_varint_encoder (- 5))) \<and>
   ((- 5 :: int) < 0 \<longrightarrow> length (signed_varint_encoder (- 5)) = 10)"
  by (rule npb_signed_varint_roundtrip) simp_all

text \<open>C35: A varint cut off at the end of the message is not rejected: every remaining byte asks for a
  continuation, and the decoder still returns a value, with a position one beyond the end of the
  message.\<close>

theorem npb_truncated_varint_accepted:
  assumes "bs \<noteq> []" "\<forall>b \<in> set bs. b AND 0x80 \<noteq> 0"
  shows "\<exists>v. varint_decoder junk (a @ bs) (length a) = Lua_ok (v, length (a @ bs) + 1)"
proof -
  have "\<forall>b \<in> set cs. b AND 0x80 \<noteq> 0 \<Longrightarrow> is_varint (cs @ [0])" for cs
    by (induction cs) (auto simp: is_varint_Cons)
  then have v: "is_varint (bs @ [0])" using assms(2) by simp
  have "size_varint_from (\<lambda>i. str_mem junk (a @ bs) (length a + i)) (length (a @ bs)) 0 =
      Some (0 + length (bs @ [0]))"
    using v by (rule size_varint_from_shape) (auto simp: str_mem_def nth_append less_Suc_eq)
  then show ?thesis by (simp add: varint_decoder_def size_varint_def)
qed

theorem npb_truncated_varint_accepted_witness:
  "\<exists>v. varint_decoder (\<lambda>_. 7) ([8] @ [0x96]) (length [8 :: byte]) = Lua_ok (v, length ([8 :: byte] @ [0x96 :: byte]) + 1)"
  by (rule npb_truncated_varint_accepted) simp_all



text \<open>A number packed by struct_pack in a format whose range it fits is read back by struct_unpack
  from its position in any message.\<close>

theorem npb_struct_roundtrip:
  assumes "struct_fits f32 f64 g32 g64 (word_of_int fmt) v"
  shows "\<exists>bs. struct_pack f32 f64 fmt v = Lua_ok bs \<and> length bs \<in> {4, 8} \<and>
              struct_unpack g32 g64 junk fmt (a @ bs @ c) (length a) = Lua_ok v"
proof -
  have u32: "uint (word_of_int v :: u32) = v" if "0 \<le> v" "v < 2 ^ 32"
    using that by (simp add: unsigned_of_int take_bit_int_eq_self)
  have u64: "uint (word_of_int v :: u64) = v" if "0 \<le> v" "v < 2 ^ 53"
    using that by (simp add: unsigned_of_int take_bit_int_eq_self)
  note simps = struct_pack_def struct_unpack_def Let_def unpack_fixed32_mid unpack_fixed64_mid
    sint_word_of_int32 sint_word_of_int64 to_double_exact u32 u64
  have len: "length (pack_fixed32 w) = 4" "length (pack_fixed64 w') = 8" for w w'
    by (simp_all add: pack_fixed32_def pack_fixed64_def)
  from assms show ?thesis unfolding struct_fits_def
    by (elim disjE conjE) (simp_all add: simps len)
qed

theorem npb_struct_roundtrip_witness:
  "\<exists>bs. struct_pack (\<lambda>_. 0) (\<lambda>_. 0) 113 (- 9000) = Lua_ok bs \<and> length bs \<in> {4, 8} \<and>
        struct_unpack (\<lambda>_. 0) (\<lambda>_. 0) (\<lambda>_. 0) 113 ([1, 2] @ bs @ []) (length [1 :: byte, 2]) = Lua_ok (- 9000)"
  by (rule npb_struct_roundtrip) (simp add: struct_fits_def)

text \<open>C14: A new output buffer, whatever its memory held, refines a byte sequence bounded by 65535: after
  any sequence of writes and clears its contents, its length and the accepted and refused writes are
  those of the sequence, and every substring from position 1 on is the slice of the contents; a substring
  from position 0 is not refused and reads outside the buffer.\<close>

theorem npb_iostring_refines:
  assumes "length garbage = 65535" and "io_run ops (iostring_new garbage) = (io, oks)"
  shows "spec_run ops [] = (iostring_str io, oks) \<and> iostring_len io = int (length (iostring_str io)) \<and>
    (\<forall>b e. 1 \<le> b \<and> b \<le> e \<and> e \<le> iostring_len io \<longrightarrow>
       iostring_sub b e io = Lua_ok (bslice (nat b - 1) (nat (e - b + 1)) (iostring_str io))) \<and>
    (\<forall>e. 0 \<le> e \<and> e \<le> iostring_len io \<longrightarrow> iostring_sub 0 e io = Outside)"
proof -
  have "io_inv (iostring_new garbage)" using assms(1) by (simp add: io_inv_def iostring_new_def)
  from io_run_refines [OF this, of ops] assms(2)
  have inv: "io_inv io" and run: "spec_run ops [] = (iostring_str io, oks)"
    by (simp_all add: iostring_new_def iostring_str_def)
  have len: "iostring_len io = int (length (iostring_str io))"
    using inv by (simp add: io_inv_def iostring_len_def iostring_str_def)
  have "iostring_sub 0 e io = Outside" if "0 \<le> e" "e \<le> iostring_len io" for e
  proof -
    have "e mod 2 ^ 64 = e" using that inv by (simp add: io_inv_def iostring_len_def)
    then show ?thesis using that unfolding iostring_sub_def Let_def by (simp add: iostring_len_def nat_le_iff)
  qed
  then show ?thesis using run len iostring_sub_slice [OF inv] by blast
qed

theorem npb_iostring_refines_witness:
  "spec_run [Io_write [1, 2, 3]] [] =
     (iostring_str (fst (io_run [Io_write [1, 2, 3]] (iostring_new (replicate 65535 0)))),
      snd (io_run [Io_write [1, 2, 3]] (iostring_new (replicate 65535 0)))) \<and>
   iostring_sub 1 2 (fst (io_run [Io_write [1, 2, 3]] (iostring_new (replicate 65535 0)))) = Lua_ok [1, 2]"
proof -
  define g where "g = replicate 65535 (0 :: byte)"
  have l: "length g = 65535" by (simp add: g_def)
  have r: "io_run [Io_write [1, 2, 3]] (iostring_new g) =
      (\<lparr>io_size = 3, io_buf = [1, 2, 3] @ drop 3 g\<rparr>, [True])"
    by (simp add: iostring_new_def iostring_write_def numeral_3_eq_3)
  show ?thesis using npb_iostring_refines [OF l r] unfolding g_def [symmetric] r
    by (simp add: iostring_str_def iostring_len_def bslice_def)
qed

end
