(* ===== verification/Noise_Bpf.thy ===== *)
theory Noise_Bpf
  imports Sysak_Prelude "HOL-Library.AList"
begin

unbundle bit_operations_syntax

text \<open>
  The kernel side of the application-noise tracer, source/tools/detect/sched/appnoise/bpf/appnoise.bpf.c:
  one handler per trace point, which filters on the traced process and adds the duration of the
  event to a histogram and to a table by interrupt, softirq vector, system call or thread. A handler
  runs as one step; the maps shared by the processors are updated with atomic additions in the source.
\<close>

section \<open>Maps\<close>

abbreviation (input) MAX_SLOTS :: nat where "MAX_SLOTS \<equiv> 11"
abbreviation (input) MAX_ENTRIES_IRQ :: nat where "MAX_ENTRIES_IRQ \<equiv> 256"
abbreviation (input) MAX_ENTRIES :: nat where "MAX_ENTRIES \<equiv> 8192"
abbreviation (input) NR_SOFTIRQS :: nat where "NR_SOFTIRQS \<equiv> 10"

abbreviation (input) hist_irq :: nat where "hist_irq \<equiv> 0"
abbreviation (input) hist_softirq :: nat where "hist_softirq \<equiv> 1"
abbreviation (input) hist_nmi :: nat where "hist_nmi \<equiv> 2"
abbreviation (input) hist_wait :: nat where "hist_wait \<equiv> 3"
abbreviation (input) hist_sleep :: nat where "hist_sleep \<equiv> 4"
abbreviation (input) hist_block :: nat where "hist_block \<equiv> 5"
abbreviation (input) hist_iowait :: nat where "hist_iowait \<equiv> 6"
abbreviation (input) hist_syscall :: nat where "hist_syscall \<equiv> 7"
abbreviation (input) nr_hist :: nat where "nr_hist \<equiv> 8"

text \<open>An array map has every key below its size; a hash map refuses a new key when it is full.\<close>

definition arr_lookup :: "'v list \<Rightarrow> nat \<Rightarrow> 'v option" where
  "arr_lookup m k = (if k < length m then Some (m ! k) else None)"

definition arr_update :: "'v list \<Rightarrow> nat \<Rightarrow> 'v \<Rightarrow> 'v list" where
  "arr_update m k v = (if k < length m then m[k := v] else m)"

definition hash_update :: "nat \<Rightarrow> 'k \<Rightarrow> 'v \<Rightarrow> ('k \<times> 'v) list \<Rightarrow> ('k \<times> 'v) list" where
  "hash_update cap k v m = (if map_of m k \<noteq> None \<or> length m < cap then AList.update k v m else m)"

record noise_args =
  a_pid :: u32
  a_tgid :: u32

record thread_info_t =
  t_pid :: u32
  t_name :: string
  t_count :: u64

record histinfo =
  h_count :: u64
  h_slots :: "u32 list"
  h_total :: u64

record irq_info_t =
  q_name :: "byte list"
  q_count :: u64
  q_total :: u64

record info =
  i_count :: u64
  i_total :: u64

record noise =
  n_filter :: "noise_args list"
  n_hist :: "histinfo list"
  n_start :: "nat \<Rightarrow> u64 list"
  n_irq :: "(u32 \<times> irq_info_t) list"
  n_softirq :: "info list"
  n_sysinfo :: "(u32 \<times> info) list"
  n_sysstart :: "(u32 \<times> u64) list"
  n_numa :: "(u32 \<times> thread_info_t) list"
  n_wait :: "(u32 \<times> thread_info_t) list"

text \<open>What a handler reads of the machine: the processor, the current task, the clock, its name.\<close>

record bpf_ctx =
  c_cpu :: nat
  c_pid_tgid :: u64
  c_now :: u64
  c_comm :: string

definition cur_pid :: "bpf_ctx \<Rightarrow> u32" where "cur_pid c = ucast (c_pid_tgid c)"
definition cur_tgid :: "bpf_ctx \<Rightarrow> u32" where "cur_tgid c = ucast (drop_bit 32 (c_pid_tgid c))"

section \<open>Histograms\<close>

definition log2 :: "u32 \<Rightarrow> u32" where
  "log2 v0 =
     (let r = (if v0 > 0xFFFF then 16 else 0); v = drop_bit (unat r) v0;
          shift = (if v > 0xFF then 8 else 0); v = drop_bit (unat shift) v; r = r OR shift;
          shift = (if v > 0xF then 4 else 0); v = drop_bit (unat shift) v; r = r OR shift;
          shift = (if v > 0x3 then 2 else 0); v = drop_bit (unat shift) v; r = r OR shift
      in r OR drop_bit 1 v)"

text \<open>The slot of a duration: the argument of \<open>log2\<close> is converted to 32 bits.\<close>

definition slot_of :: "u64 \<Rightarrow> nat" where
  "slot_of duration = (let slot = unat (log2 (ucast duration)) in if slot \<ge> MAX_SLOTS then MAX_SLOTS - 1 else slot)"

definition hist_bump :: "u64 \<Rightarrow> histinfo \<Rightarrow> histinfo" where
  "hist_bump duration h =
     h\<lparr>h_count := h_count h + 1, h_total := h_total h + duration,
       h_slots := (h_slots h)[slot_of duration := h_slots h ! slot_of duration + 1]\<rparr>"

text \<open>The update of a histogram, \<open>None\<close> where the handler returns for want of the map's entry.\<close>

definition hist_add :: "nat \<Rightarrow> u64 \<Rightarrow> noise \<Rightarrow> noise option" where
  "hist_add hist_key duration st =
     (case arr_lookup (n_hist st) hist_key of
        None \<Rightarrow> None
      | Some h \<Rightarrow> Some (st\<lparr>n_hist := (n_hist st)[hist_key := hist_bump duration h]\<rparr>))"

definition filtered :: "u32 \<Rightarrow> u32 \<Rightarrow> noise \<Rightarrow> bool" where
  "filtered pid tgid st =
     (case arr_lookup (n_filter st) 0 of
        None \<Rightarrow> True
      | Some args \<Rightarrow> a_pid args \<noteq> 0 \<and> a_pid args \<noteq> pid \<or> a_tgid args \<noteq> 0 \<and> a_tgid args \<noteq> tgid)"

text \<open>The microseconds since a start time, \<open>None\<close> for an unset start or a clock that went back.\<close>

definition elapsed_us :: "u64 option \<Rightarrow> u64 \<Rightarrow> u64 option" where
  "elapsed_us tsp now =
     (case tsp of
        None \<Rightarrow> None
      | Some ts \<Rightarrow>
          if ts = 0 then None
          else (let duration = now - ts in if sint duration < 0 then None else Some (duration div 1000)))"

definition info_bump :: "u64 \<Rightarrow> info \<Rightarrow> info" where
  "info_bump duration i = i\<lparr>i_total := i_total i + duration, i_count := i_count i + 1\<rparr>"

definition thread_bump :: "thread_info_t \<Rightarrow> thread_info_t" where
  "thread_bump t = t\<lparr>t_count := t_count t + 1\<rparr>"

section \<open>Handlers\<close>

definition handle_irq_entry :: "u32 \<Rightarrow> byte list \<Rightarrow> bpf_ctx \<Rightarrow> noise \<Rightarrow> noise" where
  "handle_irq_entry irq name c st =
     (if filtered (cur_pid c) (cur_tgid c) st then st
      else (let st1 = st\<lparr>n_start := (n_start st)(c_cpu c := arr_update (n_start st (c_cpu c)) 0 (c_now c))\<rparr>
            in case map_of (n_irq st1) irq of
                 None \<Rightarrow> st1\<lparr>n_irq := hash_update MAX_ENTRIES_IRQ irq
                               \<lparr>q_name = take 32 name, q_count = 0, q_total = 0\<rparr> (n_irq st1)\<rparr>
               | Some i \<Rightarrow> st1))"

definition handle_irq_exit :: "u32 \<Rightarrow> bpf_ctx \<Rightarrow> noise \<Rightarrow> noise" where
  "handle_irq_exit irq c st =
     (if filtered (cur_pid c) (cur_tgid c) st then st
      else (case elapsed_us (arr_lookup (n_start st (c_cpu c)) 0) (c_now c) of
              None \<Rightarrow> st
            | Some duration \<Rightarrow>
                (case hist_add hist_irq duration st of
                   None \<Rightarrow> st
                 | Some st1 \<Rightarrow>
                     (case map_of (n_irq st1) irq of
                        None \<Rightarrow> st1
                      | Some i \<Rightarrow> st1\<lparr>n_irq := AList.update irq
                           (i\<lparr>q_total := q_total i + duration, q_count := q_count i + 1\<rparr>) (n_irq st1)\<rparr>))))"

definition handler_softirq_entry :: "bpf_ctx \<Rightarrow> noise \<Rightarrow> noise" where
  "handler_softirq_entry c st =
     (if filtered (cur_pid c) (cur_tgid c) st then st
      else st\<lparr>n_start := (n_start st)(c_cpu c := arr_update (n_start st (c_cpu c)) 1 (c_now c))\<rparr>)"

definition handler_softirq_exit :: "u32 \<Rightarrow> bpf_ctx \<Rightarrow> noise \<Rightarrow> noise" where
  "handler_softirq_exit vec c st =
     (if filtered (cur_pid c) (cur_tgid c) st then st
      else (case elapsed_us (arr_lookup (n_start st (c_cpu c)) 1) (c_now c) of
              None \<Rightarrow> st
            | Some duration \<Rightarrow>
                (case hist_add hist_softirq duration st of
                   None \<Rightarrow> st
                 | Some st1 \<Rightarrow>
                     (case arr_lookup (n_softirq st1) (unat vec) of
                        None \<Rightarrow> st1
                      | Some i \<Rightarrow> st1\<lparr>n_softirq := (n_softirq st1)[unat vec := info_bump duration i]\<rparr>))))"

definition handler_nmi :: "u64 \<Rightarrow> bpf_ctx \<Rightarrow> noise \<Rightarrow> noise" where
  "handler_nmi delta_ns c st =
     (if filtered (cur_pid c) (cur_tgid c) st then st
      else (case hist_add hist_nmi (delta_ns div 1000) st of None \<Rightarrow> st | Some st1 \<Rightarrow> st1))"

text \<open>
  The scheduler's handlers filter on the task of the event; the wait handler then counts the task
  that was running, unless it belongs to the traced process.
\<close>

definition handler_sched_stat_wait :: "u32 \<Rightarrow> u32 \<Rightarrow> u64 \<Rightarrow> bpf_ctx \<Rightarrow> noise \<Rightarrow> noise" where
  "handler_sched_stat_wait pid tgid delta c st =
     (if filtered pid tgid st then st
      else (case hist_add hist_wait (delta div 1000) st of
              None \<Rightarrow> st
            | Some st1 \<Rightarrow>
                (let args = n_filter st ! 0; pid_prev = cur_pid c; tgid_prev = cur_tgid c
                 in if a_pid args \<noteq> 0 \<and> a_pid args = pid_prev then st1
                    else if a_tgid args \<noteq> 0 \<and> a_tgid args = tgid_prev then st1
                    else (case map_of (n_wait st1) pid_prev of
                            None \<Rightarrow> st1\<lparr>n_wait := hash_update MAX_ENTRIES pid_prev
                                \<lparr>t_pid = pid_prev, t_name = c_comm c, t_count = 1\<rparr> (n_wait st1)\<rparr>
                          | Some i \<Rightarrow> st1\<lparr>n_wait := AList.update pid_prev (thread_bump i) (n_wait st1)\<rparr>))))"

definition handler_sched_stat_sleep :: "u32 \<Rightarrow> u32 \<Rightarrow> u64 \<Rightarrow> noise \<Rightarrow> noise" where
  "handler_sched_stat_sleep pid tgid delta st =
     (if filtered pid tgid st then st
      else (case hist_add hist_sleep (delta div 1000000000) st of None \<Rightarrow> st | Some st1 \<Rightarrow> st1))"

definition handler_sched_stat_blocked :: "u32 \<Rightarrow> u32 \<Rightarrow> u64 \<Rightarrow> noise \<Rightarrow> noise" where
  "handler_sched_stat_blocked pid tgid delta st =
     (if filtered pid tgid st then st
      else (case hist_add hist_block (delta div 1000000000) st of None \<Rightarrow> st | Some st1 \<Rightarrow> st1))"

definition handler_sched_stat_iowait :: "u32 \<Rightarrow> u32 \<Rightarrow> u64 \<Rightarrow> noise \<Rightarrow> noise" where
  "handler_sched_stat_iowait pid tgid delta st =
     (if filtered pid tgid st then st
      else (case hist_add hist_iowait (delta div 1000000000) st of None \<Rightarrow> st | Some st1 \<Rightarrow> st1))"

definition handler_sys_enter :: "bpf_ctx \<Rightarrow> noise \<Rightarrow> noise" where
  "handler_sys_enter c st =
     (if filtered (cur_pid c) (cur_tgid c) st then st
      else st\<lparr>n_sysstart := hash_update MAX_ENTRIES (cur_pid c) (c_now c) (n_sysstart st)\<rparr>)"

definition handler_sys_exit :: "u64 \<Rightarrow> bpf_ctx \<Rightarrow> noise \<Rightarrow> noise" where
  "handler_sys_exit call_id c st =
     (if filtered (cur_pid c) (cur_tgid c) st then st
      else (case elapsed_us (map_of (n_sysstart st) (cur_pid c)) (c_now c) of
              None \<Rightarrow> st
            | Some duration \<Rightarrow>
                (case hist_add hist_syscall duration st of
                   None \<Rightarrow> st
                 | Some st1 \<Rightarrow>
                     (let id = ucast call_id
                      in case map_of (n_sysinfo st1) id of
                           None \<Rightarrow> st1\<lparr>n_sysinfo := hash_update MAX_ENTRIES id
                                        \<lparr>i_count = 1, i_total = duration\<rparr> (n_sysinfo st1)\<rparr>
                         | Some i \<Rightarrow> st1\<lparr>n_sysinfo := AList.update id (info_bump duration i) (n_sysinfo st1)\<rparr>))))"

definition migrate_misplaced_page_hook :: "bpf_ctx \<Rightarrow> noise \<Rightarrow> noise" where
  "migrate_misplaced_page_hook c st =
     (if filtered (cur_pid c) (cur_tgid c) st then st
      else (case map_of (n_numa st) (cur_pid c) of
              None \<Rightarrow> st\<lparr>n_numa := hash_update MAX_ENTRIES (cur_pid c)
                           \<lparr>t_pid = cur_pid c, t_name = c_comm c, t_count = 1\<rparr> (n_numa st)\<rparr>
            | Some i \<Rightarrow> st\<lparr>n_numa := AList.update (cur_pid c) (thread_bump i) (n_numa st)\<rparr>))"

section \<open>Events\<close>

datatype noise_event =
    Irq_entry u32 "byte list" bpf_ctx
  | Irq_exit u32 bpf_ctx
  | Softirq_entry bpf_ctx
  | Softirq_exit u32 bpf_ctx
  | Nmi u64 bpf_ctx
  | Stat_wait u32 u32 u64 bpf_ctx
  | Stat_sleep u32 u32 u64
  | Stat_blocked u32 u32 u64
  | Stat_iowait u32 u32 u64
  | Sys_enter bpf_ctx
  | Sys_exit u64 bpf_ctx
  | Migrate_page bpf_ctx

fun noise_event_step :: "noise_event \<Rightarrow> noise \<Rightarrow> noise" where
  "noise_event_step (Irq_entry irq name c) = handle_irq_entry irq name c"
| "noise_event_step (Irq_exit irq c) = handle_irq_exit irq c"
| "noise_event_step (Softirq_entry c) = handler_softirq_entry c"
| "noise_event_step (Softirq_exit vec c) = handler_softirq_exit vec c"
| "noise_event_step (Nmi delta c) = handler_nmi delta c"
| "noise_event_step (Stat_wait pid tgid delta c) = handler_sched_stat_wait pid tgid delta c"
| "noise_event_step (Stat_sleep pid tgid delta) = handler_sched_stat_sleep pid tgid delta"
| "noise_event_step (Stat_blocked pid tgid delta) = handler_sched_stat_blocked pid tgid delta"
| "noise_event_step (Stat_iowait pid tgid delta) = handler_sched_stat_iowait pid tgid delta"
| "noise_event_step (Sys_enter c) = handler_sys_enter c"
| "noise_event_step (Sys_exit call_id c) = handler_sys_exit call_id c"
| "noise_event_step (Migrate_page c) = migrate_misplaced_page_hook c"

definition zero_hist :: histinfo where
  "zero_hist = \<lparr>h_count = 0, h_slots = replicate MAX_SLOTS 0, h_total = 0\<rparr>"

definition zero_info :: info where "zero_info = \<lparr>i_count = 0, i_total = 0\<rparr>"

text \<open>The maps after loading, with the filter the tool writes.\<close>

definition noise_init :: "noise_args \<Rightarrow> noise" where
  "noise_init args =
     \<lparr>n_filter = [args], n_hist = replicate nr_hist zero_hist, n_start = (\<lambda>_. replicate 4 0),
      n_irq = [], n_softirq = replicate NR_SOFTIRQS zero_info, n_sysinfo = [], n_sysstart = [],
      n_numa = [], n_wait = []\<rparr>"

section \<open>The base-2 logarithm\<close>

text \<open>Each step of \<open>log2\<close> halves the width that is left.\<close>

lemma log2_step:
  fixes v :: u32
  assumes "unat v < 2 ^ (2 * k)" "0 < k" "k \<le> 16"
  defines "s \<equiv> (if unat v \<ge> 2 ^ k then k else 0)"
  shows "unat (drop_bit s v) < 2 ^ k"
    and "(unat v = 0 \<longleftrightarrow> unat (drop_bit s v) = 0)"
    and "2 ^ j \<le> unat (drop_bit s v) \<Longrightarrow> 2 ^ (s + j) \<le> unat v"
    and "unat (drop_bit s v) < 2 ^ j \<Longrightarrow> unat v < 2 ^ (s + j)"
proof -
  have d: "unat (drop_bit s v) = unat v div 2 ^ s" unfolding unat_drop_bit_eq by (simp add: drop_bit_eq_div)
  show "unat (drop_bit s v) < 2 ^ k"
    unfolding d using assms(1) by (auto simp: s_def less_mult_imp_div_less mult_2 power_add)
  have "0 < unat v" if "2 ^ k \<le> unat v" using that zero_less_power [of "2 :: nat" k] by linarith
  then show "(unat v = 0 \<longleftrightarrow> unat (drop_bit s v) = 0)"
    unfolding d by (auto simp: s_def div_eq_0_iff)
  show "2 ^ (s + j) \<le> unat v" if "2 ^ j \<le> unat (drop_bit s v)"
    using that unfolding d by (simp add: power_add less_eq_div_iff_mult_less_eq mult.commute)
  show "unat v < 2 ^ (s + j)" if "unat (drop_bit s v) < 2 ^ j"
    using that unfolding d by (simp add: power_add div_less_iff_less_mult mult.commute)
qed

lemma log2_if:
  "(if v > 0xFFFF then 16 else 0 :: u32) = word_of_nat (if unat v \<ge> 2 ^ 16 then 16 else 0)"
  "(if v > 0xFF then 8 else 0 :: u32) = word_of_nat (if unat v \<ge> 2 ^ 8 then 8 else 0)"
  "(if v > 0xF then 4 else 0 :: u32) = word_of_nat (if unat v \<ge> 2 ^ 4 then 4 else 0)"
  "(if v > 0x3 then 2 else 0 :: u32) = word_of_nat (if unat v \<ge> 2 ^ 2 then 2 else 0)"
  for v :: u32
  by (auto simp: word_less_nat_alt)

lemma log2_sum:
  fixes v0 :: u32
  obtains s w where "unat (log2 v0) = s + w div 2" "w < 4" "unat v0 = 0 \<longleftrightarrow> w = 0"
    "\<And>j. 2 ^ j \<le> w \<Longrightarrow> 2 ^ (s + j) \<le> unat v0" "\<And>j. w < 2 ^ j \<Longrightarrow> unat v0 < 2 ^ (s + j)"
proof -
  define a where "a = (if unat v0 \<ge> 2 ^ 16 then 16 else 0 :: nat)"
  define v1 where "v1 = drop_bit a v0"
  define b where "b = (if unat v1 \<ge> 2 ^ 8 then 8 else 0 :: nat)"
  define v2 where "v2 = drop_bit b v1"
  define c where "c = (if unat v2 \<ge> 2 ^ 4 then 4 else 0 :: nat)"
  define v3 where "v3 = drop_bit c v2"
  define d where "d = (if unat v3 \<ge> 2 ^ 2 then 2 else 0 :: nat)"
  define v4 where "v4 = drop_bit d v3"
  have "unat v0 < 2 ^ (2 * 16)" using unat_bound [of v0] by simp
  note s1 = log2_step [OF this, simplified, folded a_def [simplified], folded v1_def]
  note s2 = log2_step [of v1 8, simplified, OF s1(1) [simplified], folded b_def [simplified], folded v2_def]
  note s3 = log2_step [of v2 4, simplified, OF s2(1) [simplified], folded c_def [simplified], folded v3_def]
  note s4 = log2_step [of v3 2, simplified, OF s3(1) [simplified], folded d_def [simplified], folded v4_def]
  have w: "unat (word_of_nat (if P then 16 else 0) :: u32) = (if P then 16 else 0)"
    "unat (word_of_nat (if P then 8 else 0) :: u32) = (if P then 8 else 0)"
    "unat (word_of_nat (if P then 4 else 0) :: u32) = (if P then 4 else 0)"
    "unat (word_of_nat (if P then 2 else 0) :: u32) = (if P then 2 else 0)" for P
    by simp_all
  have l: "log2 v0 = (((word_of_nat a OR word_of_nat b) OR word_of_nat c) OR word_of_nat d) OR drop_bit 1 v4"
    unfolding log2_def Let_def log2_if w
    by (simp only: v1_def v2_def v3_def v4_def a_def b_def c_def d_def)
  have "unat (drop_bit 1 v4) = unat v4 div 2" unfolding unat_drop_bit_eq by (simp add: drop_bit_eq_div)
  moreover have "word_of_nat (unat (drop_bit 1 v4)) = drop_bit 1 v4" by simp
  ultimately have u: "drop_bit 1 v4 = word_of_nat (unat v4 div 2)" by simp
  have u2: "unat v4 div 2 \<in> {0, 1}" using s4(1) by auto
  have "a \<in> {0, 16}" "b \<in> {0, 8}" "c \<in> {0, 4}" "d \<in> {0, 2}" by (simp_all add: a_def b_def c_def d_def)
  then have "unat (log2 v0) = a + b + c + d + unat v4 div 2"
    using u2 unfolding l u by auto
  moreover have "unat v4 < 4" using s4(1) by simp
  moreover have "unat v0 = 0 \<longleftrightarrow> unat v4 = 0" using s1(2) s2(2) s3(2) s4(2) by simp
  moreover have "2 ^ (a + b + c + d + j) \<le> unat v0" if "2 ^ j \<le> unat v4" for j
    using s1(3) [OF s2(3) [OF s3(3) [OF s4(3) [OF that]]]] by (simp add: algebra_simps)
  moreover have "unat v0 < 2 ^ (a + b + c + d + j)" if "unat v4 < 2 ^ j" for j
    using s1(4) [OF s2(4) [OF s3(4) [OF s4(4) [OF that]]]] by (simp add: algebra_simps)
  ultimately show ?thesis by (rule that)
qed

lemma log2_floor:
  fixes v :: u32
  assumes "v \<noteq> 0"
  shows "2 ^ unat (log2 v) \<le> unat v" "unat v < 2 ^ (unat (log2 v) + 1)"
proof -
  obtain s w where s: "unat (log2 v) = s + w div 2" and w: "w < 4" "unat v = 0 \<longleftrightarrow> w = 0"
    and lo: "\<And>j. 2 ^ j \<le> w \<Longrightarrow> 2 ^ (s + j) \<le> unat v" and hi: "\<And>j. w < 2 ^ j \<Longrightarrow> unat v < 2 ^ (s + j)"
    by (rule log2_sum [of v], rule that)
  have "w = 1 \<or> w = 2 \<or> w = 3" using w assms by (auto simp: unat_eq_0)
  then have "2 ^ (w div 2) \<le> w" "w < 2 ^ (w div 2 + 1)" by auto
  from lo [OF this(1)] hi [OF this(2)]
  show "2 ^ unat (log2 v) \<le> unat v" "unat v < 2 ^ (unat (log2 v) + 1)"
    unfolding s by (simp_all add: add.assoc)
qed

lemma log2_zero: "log2 0 = 0"
  by (simp add: log2_def)

section \<open>Well-formed maps\<close>

definition hash_wf :: "nat \<Rightarrow> ('k \<times> 'v) list \<Rightarrow> bool" where
  "hash_wf cap m = (distinct (map fst m) \<and> length m \<le> cap)"

definition noise_wf :: "noise \<Rightarrow> bool" where
  "noise_wf st =
     (length (n_filter st) = 1 \<and> length (n_hist st) = nr_hist \<and>
      list_all (\<lambda>h. length (h_slots h) = MAX_SLOTS) (n_hist st) \<and>
      (\<forall>cpu. length (n_start st cpu) = 4) \<and> length (n_softirq st) = NR_SOFTIRQS \<and>
      hash_wf MAX_ENTRIES_IRQ (n_irq st) \<and> hash_wf MAX_ENTRIES (n_sysinfo st) \<and>
      hash_wf MAX_ENTRIES (n_sysstart st) \<and> hash_wf MAX_ENTRIES (n_numa st) \<and> hash_wf MAX_ENTRIES (n_wait st))"

named_theorems noise_maps \<open>how the map operations keep maps well-formed\<close>

lemma hash_wf_Nil [simp, noise_maps]: "hash_wf cap []"
  by (simp add: hash_wf_def)

lemma length_alist_update:
  "length (AList.update k v m) = (if map_of m k = None then length m + 1 else length m)"
  by (induction m) auto

lemma hash_wf_update [noise_maps]:
  "hash_wf cap m \<Longrightarrow> map_of m k = Some w \<Longrightarrow> hash_wf cap (AList.update k v m)"
  by (simp add: hash_wf_def distinct_update length_alist_update)

lemma hash_wf_hash_update [noise_maps]: "hash_wf cap m \<Longrightarrow> hash_wf cap (hash_update cap k v m)"
  by (auto simp: hash_wf_def hash_update_def distinct_update length_alist_update)

lemma hash_wf_delete [noise_maps]: "hash_wf cap m \<Longrightarrow> hash_wf cap (AList.delete k m)"
  using length_delete_le [of k m] by (auto simp: hash_wf_def distinct_delete)

lemma length_arr_update [simp]: "length (arr_update m k v) = length m"
  by (simp add: arr_update_def)

lemma hist_add_wf:
  assumes "noise_wf st" "hist_add k d st = Some st1"
  shows "noise_wf st1"
proof -
  have "k < length (n_hist st)" and st1: "st1 = st\<lparr>n_hist := (n_hist st)[k := hist_bump d (n_hist st ! k)]\<rparr>"
    using assms(2) by (auto simp: hist_add_def arr_lookup_def split: if_splits)
  then have "list_all (\<lambda>h. length (h_slots h) = MAX_SLOTS) ((n_hist st)[k := hist_bump d (n_hist st ! k)])"
    using assms(1) by (auto simp: noise_wf_def hist_bump_def list_all_length nth_list_update)
  with assms(1) show ?thesis unfolding st1 noise_wf_def by simp
qed

lemma noise_wf_fields [noise_maps]:
  "noise_wf st \<Longrightarrow> length xs = 4 \<Longrightarrow> noise_wf (st\<lparr>n_start := (n_start st)(cpu := xs)\<rparr>)"
  "noise_wf st \<Longrightarrow> hash_wf MAX_ENTRIES_IRQ qs \<Longrightarrow> noise_wf (st\<lparr>n_irq := qs\<rparr>)"
  "noise_wf st \<Longrightarrow> length is = NR_SOFTIRQS \<Longrightarrow> noise_wf (st\<lparr>n_softirq := is\<rparr>)"
  "noise_wf st \<Longrightarrow> hash_wf MAX_ENTRIES ss \<Longrightarrow> noise_wf (st\<lparr>n_sysinfo := ss\<rparr>)"
  "noise_wf st \<Longrightarrow> hash_wf MAX_ENTRIES ts \<Longrightarrow> noise_wf (st\<lparr>n_sysstart := ts\<rparr>)"
  "noise_wf st \<Longrightarrow> hash_wf MAX_ENTRIES ms \<Longrightarrow> noise_wf (st\<lparr>n_numa := ms\<rparr>)"
  "noise_wf st \<Longrightarrow> hash_wf MAX_ENTRIES ms \<Longrightarrow> noise_wf (st\<lparr>n_wait := ms\<rparr>)"
  by (simp_all add: noise_wf_def)

lemma noise_wf_maps [noise_maps]:
  assumes "noise_wf st"
  shows "hash_wf MAX_ENTRIES_IRQ (n_irq st)" "hash_wf MAX_ENTRIES (n_sysinfo st)" "hash_wf MAX_ENTRIES (n_sysstart st)"
    "hash_wf MAX_ENTRIES (n_numa st)" "hash_wf MAX_ENTRIES (n_wait st)" "length (n_start st cpu) = 4"
    "length (n_softirq st) = NR_SOFTIRQS"
  using assms by (simp_all add: noise_wf_def)

lemmas handler_defs = handle_irq_entry_def handle_irq_exit_def handler_softirq_entry_def handler_softirq_exit_def
  handler_nmi_def handler_sched_stat_wait_def handler_sched_stat_sleep_def handler_sched_stat_blocked_def
  handler_sched_stat_iowait_def handler_sys_enter_def handler_sys_exit_def migrate_misplaced_page_hook_def

lemma noise_event_step_wf: "noise_wf st \<Longrightarrow> noise_wf (noise_event_step e st)"
  by (cases e) (simp_all add: handler_defs Let_def noise_maps hist_add_wf split: option.split)

lemma noise_init_wf: "noise_wf (noise_init args)"
  by (simp add: noise_wf_def noise_init_def zero_hist_def list_all_iff)

lemma n_filter_step [simp]: "n_filter (noise_event_step e st) = n_filter st"
proof -
  have "n_filter st1 = n_filter st" if "hist_add k d st = Some st1" for k d st1
    using that by (auto simp: hist_add_def split: option.splits)
  then show ?thesis by (cases e) (simp_all add: handler_defs Let_def split: option.split)
qed

section \<open>What a step does to the histograms\<close>

lemma hist_add_hist:
  "hist_add k d st = Some st1 \<Longrightarrow> k < length (n_hist st) \<and> n_hist st1 = (n_hist st)[k := hist_bump d (n_hist st ! k)]"
  by (auto simp: hist_add_def arr_lookup_def split: if_splits)

text \<open>Every event either leaves the histograms alone or adds one duration to one of them.\<close>

lemma noise_event_step_hist:
  "n_hist (noise_event_step e st) = n_hist st \<or>
   (\<exists>k d. k < length (n_hist st) \<and> n_hist (noise_event_step e st) = (n_hist st)[k := hist_bump d (n_hist st ! k)])"
  by (cases e) (auto simp: handler_defs Let_def split: option.split dest: hist_add_hist)

text \<open>A histogram that has counted \<open>m\<close> events has \<open>m\<close> of them in its slots.\<close>

definition hist_counts :: "nat \<Rightarrow> histinfo \<Rightarrow> bool" where
  "hist_counts m h = (length (h_slots h) = MAX_SLOTS \<and> unat (h_count h) = m \<and> sum_list (map unat (h_slots h)) = m)"

lemma slot_of_bound: "slot_of d < MAX_SLOTS"
  by (simp add: slot_of_def Let_def)

lemma sum_list_update_Suc:
  "k < length xs \<Longrightarrow> sum_list (xs[k := Suc (xs ! k)]) = Suc (sum_list xs)"
  by (induction xs arbitrary: k) (auto split: nat.split)

lemma hist_counts_bump:
  assumes "hist_counts m h" "m < 2 ^ 32 - 1"
  shows "hist_counts (Suc m) (hist_bump d h)"
proof -
  define i where "i = slot_of d"
  have i: "i < length (h_slots h)" using assms(1) slot_of_bound [of d] by (simp add: hist_counts_def i_def)
  have "unat (h_slots h ! i) \<le> m"
    using assms(1) i member_le_sum_list [of "unat (h_slots h ! i)" "map unat (h_slots h)"]
    by (simp add: hist_counts_def)
  then have "unat (h_slots h ! i + 1) = Suc (unat (h_slots h ! i))"
    using assms(2) by (simp add: unat_plus_simple [THEN iffD1] unat_word_ariths)
  then have "map unat ((h_slots h)[i := h_slots h ! i + 1]) = (map unat (h_slots h))[i := Suc (map unat (h_slots h) ! i)]"
    using i by (simp add: map_update)
  then have "sum_list (map unat ((h_slots h)[i := h_slots h ! i + 1])) = Suc m"
    using assms(1) i sum_list_update_Suc [of i "map unat (h_slots h)"] by (simp add: hist_counts_def)
  moreover have "unat (h_count h + 1) = Suc m"
    using assms by (simp add: hist_counts_def unat_word_ariths)
  ultimately show ?thesis using assms(1) by (simp add: hist_counts_def hist_bump_def i_def [symmetric])
qed

lemma zero_hist_counts: "hist_counts 0 zero_hist"
  by (simp add: hist_counts_def zero_hist_def)

definition hists_count :: "nat \<Rightarrow> noise \<Rightarrow> bool" where
  "hists_count n st = (\<forall>h \<in> set (n_hist st). \<exists>m \<le> n. hist_counts m h)"

lemma hists_count_step:
  assumes "hists_count n st" "n < 2 ^ 32 - 1"
  shows "hists_count (Suc n) (noise_event_step e st)"
  using noise_event_step_hist [of e st]
proof (elim disjE exE conjE)
  assume "n_hist (noise_event_step e st) = n_hist st"
  then show ?thesis using assms(1) by (auto simp: hists_count_def intro: le_SucI)
next
  fix k d assume k: "k < length (n_hist st)"
    and st: "n_hist (noise_event_step e st) = (n_hist st)[k := hist_bump d (n_hist st ! k)]"
  obtain m where "m \<le> n" "hist_counts m (n_hist st ! k)"
    using assms(1) nth_mem [OF k] unfolding hists_count_def by blast
  then have "Suc m \<le> Suc n \<and> hist_counts (Suc m) (hist_bump d (n_hist st ! k))"
    using hist_counts_bump assms(2) by auto
  moreover have "\<exists>m \<le> Suc n. hist_counts m h" if "h \<in> set (n_hist st)" for h
    using assms(1) that by (auto simp: hists_count_def intro: le_SucI)
  ultimately show ?thesis
    unfolding hists_count_def st using set_update_subset_insert [of "n_hist st" k] by blast
qed

section \<open>Sums over a table\<close>

lemma sum_alist_update:
  fixes f :: "'v \<Rightarrow> 'a :: ab_group_add"
  shows "sum_list (map (f \<circ> snd) (AList.update k v m)) =
    sum_list (map (f \<circ> snd) m) + f v - (case map_of m k of None \<Rightarrow> 0 | Some w \<Rightarrow> f w)"
  by (induction m) (auto split: option.split)

text \<open>As long as the table of system calls is not full, it adds up to their histogram.\<close>

definition syscalls_agree :: "noise \<Rightarrow> bool" where
  "syscalls_agree st =
     (length (n_hist st) = nr_hist \<and>
      (length (n_sysinfo st) < MAX_ENTRIES \<longrightarrow>
        sum_list (map (i_count \<circ> snd) (n_sysinfo st)) = h_count (n_hist st ! hist_syscall) \<and>
        sum_list (map (i_total \<circ> snd) (n_sysinfo st)) = h_total (n_hist st ! hist_syscall)))"

lemma syscalls_agree_other:
  assumes "syscalls_agree st" "hist_add k d st = Some st1" "k \<noteq> hist_syscall"
  shows "syscalls_agree st1"
  using assms by (auto simp: syscalls_agree_def hist_add_def arr_lookup_def split: if_splits)

lemma syscalls_agree_fields:
  "syscalls_agree st \<Longrightarrow> syscalls_agree (st\<lparr>n_start := x1\<rparr>)"
  "syscalls_agree st \<Longrightarrow> syscalls_agree (st\<lparr>n_irq := x2\<rparr>)"
  "syscalls_agree st \<Longrightarrow> syscalls_agree (st\<lparr>n_softirq := x3\<rparr>)"
  "syscalls_agree st \<Longrightarrow> syscalls_agree (st\<lparr>n_sysstart := x4\<rparr>)"
  "syscalls_agree st \<Longrightarrow> syscalls_agree (st\<lparr>n_numa := x5\<rparr>)"
  "syscalls_agree st \<Longrightarrow> syscalls_agree (st\<lparr>n_wait := x6\<rparr>)"
  by (simp_all add: syscalls_agree_def)

lemma syscalls_agree_exit: "syscalls_agree st \<Longrightarrow> syscalls_agree (handler_sys_exit call_id c st)"
proof -
  assume a: "syscalls_agree st"
  have "syscalls_agree (st1\<lparr>n_sysinfo := hash_update MAX_ENTRIES i \<lparr>i_count = 1, i_total = d\<rparr> (n_sysinfo st1)\<rparr>)"
    if "hist_add hist_syscall d st = Some st1" "map_of (n_sysinfo st1) i = None" for st1 d i
    using that a
    by (auto simp: syscalls_agree_def hist_add_def arr_lookup_def hist_bump_def hash_update_def sum_alist_update
        length_alist_update split: if_splits)
  moreover have "syscalls_agree (st1\<lparr>n_sysinfo := AList.update i (info_bump d x) (n_sysinfo st1)\<rparr>)"
    if "hist_add hist_syscall d st = Some st1" "map_of (n_sysinfo st1) i = Some x" for st1 d i x
    using that a
    by (auto simp: syscalls_agree_def hist_add_def arr_lookup_def hist_bump_def info_bump_def sum_alist_update
        length_alist_update split: if_splits)
  ultimately show ?thesis using a by (simp add: handler_sys_exit_def Let_def split: option.split)
qed

lemma syscalls_agree_step: "syscalls_agree st \<Longrightarrow> syscalls_agree (noise_event_step e st)"
proof (cases "\<exists>i c. e = Sys_exit i c")
  case True
  then show "syscalls_agree st \<Longrightarrow> ?thesis" by (auto simp: syscalls_agree_exit)
next
  case False
  then show "syscalls_agree st \<Longrightarrow> ?thesis"
    by (cases e) (simp_all add: handler_defs Let_def syscalls_agree_fields syscalls_agree_other split: option.split)
qed

end
