(* ===== verification/Noise_Report.thy ===== *)
theory Noise_Report
  imports Noise_Bpf Syscall_Names
begin

unbundle bit_operations_syntax

text \<open>
  The user side of the application-noise tracer, source/tools/detect/sched/appnoise/appnoise.c: the
  command line, the choice of handlers by kernel version, the reports printed from the maps, and the
  main loop. A printed line is a value of \<open>noise_row\<close>; padding and column widths are left out.
\<close>

section \<open>Command line\<close>

record noise_env =
  e_pid :: int
  e_tid :: int
  e_interval :: int
  e_times :: int
  e_top :: int
  e_duration :: u64
  e_pos_args :: nat

definition env_default :: noise_env where
  "env_default = \<lparr>e_pid = 0, e_tid = 0, e_interval = 1, e_times = 0, e_top = 10, e_duration = 0, e_pos_args = 0\<rparr>"

datatype argp_key = Key_h | Key_p | Key_t | Key_T | Key_s | Key_arg | Key_end | Key_other

text \<open>\<open>argp_usage\<close> and \<open>argp_state_help\<close> end the process.\<close>

datatype argp_out = Argp_exit | Argp_ok noise_env | Argp_unknown noise_env | Argp_fail noise_env

definition noise_parse_arg :: "argp_key \<Rightarrow> string \<Rightarrow> noise_env \<Rightarrow> argp_out" where
  "noise_parse_arg key arg env =
     (case strtol arg of (v, erange, _) \<Rightarrow>
        (case key of
           Key_h \<Rightarrow> Argp_exit
         | Key_p \<Rightarrow> if erange \<or> to_c_int v \<le> 0 then Argp_exit else Argp_ok (env\<lparr>e_pid := to_c_int v\<rparr>)
         | Key_t \<Rightarrow> if erange \<or> to_c_int v \<le> 0 then Argp_exit else Argp_ok (env\<lparr>e_tid := to_c_int v\<rparr>)
         | Key_T \<Rightarrow> if erange \<or> to_c_int v \<le> 0 then Argp_exit else Argp_ok (env\<lparr>e_top := to_c_int v\<rparr>)
         | Key_s \<Rightarrow> if erange then Argp_exit else Argp_ok (env\<lparr>e_duration := word_of_int v\<rparr>)
         | Key_arg \<Rightarrow>
             if e_pos_args env = 0 then
               (if erange then Argp_exit
                else Argp_ok (env\<lparr>e_interval := v, e_pos_args := e_pos_args env + 1\<rparr>))
             else if e_pos_args env = 1 then
               Argp_ok (env\<lparr>e_times := to_c_int v, e_pos_args := e_pos_args env + 1\<rparr>)
             else Argp_exit
         | Key_end \<Rightarrow> if e_pid env = 0 \<and> e_tid env = 0 then Argp_fail env else Argp_unknown env
         | Key_other \<Rightarrow> Argp_unknown env))"

text \<open>
  \<open>check_and_fix_autoload\<close>: three numbers of the release string, whose buffer is filled up with
  zeros, and whether the handlers for non-maskable interrupts and the scheduler are switched off.
  \<open>errno\<close> has some value before the first conversion.
\<close>

fun release_numbers :: "nat \<Rightarrow> int \<Rightarrow> string \<Rightarrow> u64 list option" where
  "release_numbers 0 errno str = Some []"
| "release_numbers (Suc i) errno str =
     (case strtoull str of (ver, endptr) \<Rightarrow>
        if errno = ERANGE \<and> (ver = 2 ^ 63 - 1 \<or> ver = 2 ^ 63) \<or> errno \<noteq> 0 \<and> ver = 0 then None
        else map_option (Cons ver) (release_numbers i 0 (tl endptr)))"

definition check_and_fix_autoload :: "int \<Rightarrow> string \<Rightarrow> bool option" where
  "check_and_fix_autoload errno release =
     map_option (\<lambda>ver. ver ! 0 < 4 \<or> ver ! 1 < 19) (release_numbers 3 errno release)"

section \<open>Histograms\<close>

datatype noise_row =
    Hist_name nat
  | Hist_row u64 u64 u32 nat bool
  | Hist_last u64 u32 nat bool
  | Hist_total u64
  | Wait_head
  | Wait_row string u32 u64
  | Irq_head
  | Irq_row "byte list" u64 u64
  | Softirq_head
  | Softirq_row nat u64 u64
  | Syscall_head
  | Syscall_row string u64 u64
  | Numa_head
  | Numa_row string u32 u64

text \<open>The number of stars, in 32-bit arithmetic, and whether a plus follows.\<close>

definition print_stars :: "u32 \<Rightarrow> u32 \<Rightarrow> u32 \<Rightarrow> nat \<times> bool" where
  "print_stars val val_max width = (unat (min val val_max * width div val_max), val > val_max)"

fun hist_scan :: "u32 list \<Rightarrow> nat \<Rightarrow> int \<Rightarrow> u32 \<Rightarrow> int \<times> u32" where
  "hist_scan [] i idx_max val_max = (idx_max, val_max)"
| "hist_scan (val # vals) i idx_max val_max =
     hist_scan vals (i + 1) (if val > 0 then int i else idx_max) (if val > val_max then val else val_max)"

definition slot_low :: "nat \<Rightarrow> u64" where
  "slot_low i = (let low = drop_bit 1 (push_bit (i + 1) 1); high = push_bit (i + 1) 1 - 1
                 in if low = high then low - 1 else low)"

definition slot_high :: "nat \<Rightarrow> u64" where
  "slot_high i = push_bit (i + 1) 1 - 1"

definition print_log2_hist :: "u32 list \<Rightarrow> noise_row list" where
  "print_log2_hist vals =
     (case hist_scan vals 0 (- 1) 0 of (idx_max, val_max) \<Rightarrow>
        if idx_max < 0 then []
        else (let stars = (if idx_max \<le> 32 then 40 else 20)
              in map (\<lambda>i. case print_stars (vals ! i) val_max stars of (n, pl) \<Rightarrow>
                        if int i = idx_max \<and> idx_max \<ge> int MAX_SLOTS - 1 then Hist_last (slot_low i) (vals ! i) n pl
                        else Hist_row (slot_low i) (slot_high i) (vals ! i) n pl)
                   [0..<nat idx_max + 1]))"

text \<open>Reading a key that is not there leaves the zero histogram, which prints nothing.\<close>

definition print_hist_1 :: "nat \<Rightarrow> noise \<Rightarrow> noise_row list \<times> noise" where
  "print_hist_1 i st =
     (case arr_lookup (n_hist st) i of
        None \<Rightarrow> ([], st)
      | Some h \<Rightarrow>
          if h_total h = 0 then ([], st)
          else (Hist_name i # print_log2_hist (h_slots h) @ [Hist_total (h_total h)],
                st\<lparr>n_hist := (n_hist st)[i := zero_hist]\<rparr>))"

fun print_hist_from :: "nat list \<Rightarrow> noise \<Rightarrow> noise_row list \<times> noise" where
  "print_hist_from [] st = ([], st)"
| "print_hist_from (i # is) st =
     (case print_hist_1 i st of (rows, st1) \<Rightarrow>
        case print_hist_from is st1 of (rows', st2) \<Rightarrow> (rows @ rows', st2))"

definition print_hist :: "noise \<Rightarrow> bool \<times> noise_row list \<times> noise" where
  "print_hist st = (True, print_hist_from [0..<nr_hist] st)"

section \<open>Tables\<close>

text \<open>
  \<open>bpf_map_get_next_key\<close>: the key behind the given one in the map's order, or the first key when the
  given one is not in the map.
\<close>

fun key_after :: "'k list \<Rightarrow> 'k \<Rightarrow> 'k option" where
  "key_after [] k = None"
| "key_after (x # xs) k =
     (if x = k then (case xs of [] \<Rightarrow> None | y # _ \<Rightarrow> Some y) else key_after xs k)"

definition get_next_key :: "('k \<times> 'v) list \<Rightarrow> 'k \<Rightarrow> 'k option" where
  "get_next_key m pre =
     (if pre \<in> set (map fst m) then key_after (map fst m) pre
      else (case m of [] \<Rightarrow> None | (k, _) # _ \<Rightarrow> Some k))"

fun collect_keys :: "nat \<Rightarrow> ('k \<times> 'v) list \<Rightarrow> 'k \<Rightarrow> 'k list" where
  "collect_keys 0 m pre = []"
| "collect_keys (Suc n) m pre =
     (case get_next_key m pre of None \<Rightarrow> [] | Some key \<Rightarrow> key # collect_keys n m key)"

text \<open>A failed lookup leaves the variable as it was.\<close>

fun lookup_all :: "('k \<times> 'v) list \<Rightarrow> 'v \<Rightarrow> 'k list \<Rightarrow> 'v list" where
  "lookup_all m prev [] = []"
| "lookup_all m prev (k # ks) =
     (let v = (case map_of m k of None \<Rightarrow> prev | Some v \<Rightarrow> v) in v # lookup_all m v ks)"

fun delete_all :: "'k list \<Rightarrow> ('k \<times> 'v) list \<Rightarrow> bool \<times> ('k \<times> 'v) list" where
  "delete_all [] m = (True, m)"
| "delete_all (k # ks) m = (if map_of m k = None then (False, m) else delete_all ks (AList.delete k m))"

definition compar :: "u64 \<Rightarrow> u64 \<Rightarrow> int" where
  "compar x y = (if x > y then - 1 else if x = y then 0 else 1)"

text \<open>
  The comparison functions read the elements at fixed offsets: \<open>compar\<close> takes the eight bytes at offset
  8, which are the total time of a system call's element and the second eight bytes of the name in an
  interrupt's element; \<open>compar_\<close> takes the count of a thread's element.
\<close>

definition irq_key :: "irq_info_t \<Rightarrow> u64" where
  "irq_key q = word_of_nat (le_val (bslice 8 8 (q_name q)))"

definition compar_irq :: "irq_info_t \<Rightarrow> irq_info_t \<Rightarrow> int" where
  "compar_irq x y = compar (irq_key x) (irq_key y)"

definition compar_syscall :: "u32 \<times> info \<Rightarrow> u32 \<times> info \<Rightarrow> int" where
  "compar_syscall x y = compar (i_total (snd x)) (i_total (snd y))"

definition compar_thread :: "thread_info_t \<Rightarrow> thread_info_t \<Rightarrow> int" where
  "compar_thread x y = compar (t_count x) (t_count y)"

text \<open>\<open>g\<close> is what the stack variable the lookups fill holds at first.\<close>

definition print_wait :: "thread_info_t \<Rightarrow> noise \<Rightarrow> bool \<times> noise_row list \<times> noise" where
  "print_wait g st =
     (let keys = collect_keys MAX_ENTRIES (n_wait st) (- 1)
      in if keys = [] then (True, [], st)
         else (let values = lookup_all (n_wait st) g keys
               in case delete_all keys (n_wait st) of (ok, m) \<Rightarrow>
                    if \<not> ok then (False, [], st\<lparr>n_wait := m\<rparr>)
                    else (True, Wait_head # map (\<lambda>v. Wait_row (t_name v) (t_pid v) (t_count v)) (qsort compar_thread values),
                          st\<lparr>n_wait := m\<rparr>)))"

definition print_irq :: "int \<Rightarrow> irq_info_t \<Rightarrow> noise \<Rightarrow> bool \<times> noise_row list \<times> noise" where
  "print_irq env_top g st =
     (let keys = collect_keys MAX_ENTRIES_IRQ (n_irq st) (- 1)
      in if keys = [] then (True, [], st)
         else (let infos = lookup_all (n_irq st) g keys
               in case delete_all keys (n_irq st) of (ok, m) \<Rightarrow>
                    if \<not> ok then (False, [], st\<lparr>n_irq := m\<rparr>)
                    else (True, Irq_head # map (\<lambda>v. Irq_row (q_name v) (q_count v) (q_total v)) (take (nat env_top) (qsort compar_irq infos)),
                          st\<lparr>n_irq := m\<rparr>)))"

definition print_softirq :: "noise \<Rightarrow> bool \<times> noise_row list \<times> noise" where
  "print_softirq st =
     (if length (n_softirq st) < NR_SOFTIRQS then (False, [], st)
      else (let infos = take NR_SOFTIRQS (n_softirq st); total = sum_list (map i_total infos)
            in if total = 0 then (True, [], st)
               else (True, Softirq_head #
                       map (\<lambda>v. Softirq_row v (i_count (infos ! v)) (i_total (infos ! v)))
                         (filter (\<lambda>v. i_count (infos ! v) > 0) [0..<NR_SOFTIRQS]),
                     st\<lparr>n_softirq := replicate NR_SOFTIRQS zero_info @ drop NR_SOFTIRQS (n_softirq st)\<rparr>)))"

text \<open>A name is printed from a buffer of 32 bytes; \<open>None\<close> when looking it up reads the null array.\<close>

definition print_syscall :: "syscall_table \<Rightarrow> int \<Rightarrow> info \<Rightarrow> noise \<Rightarrow> (bool \<times> noise_row list \<times> noise) option" where
  "print_syscall tab env_top g st =
     (let keys = collect_keys MAX_ENTRIES (n_sysinfo st) (- 1)
      in if keys = [] then Some (True, [], st)
         else (let infos = zip keys (lookup_all (n_sysinfo st) g keys)
               in if list_ex (\<lambda>k. syscall_name tab (unat k) 32 = None) keys then None
                  else case delete_all keys (n_sysinfo st) of (ok, m) \<Rightarrow>
                    Some (if \<not> ok then (False, [], st\<lparr>n_sysinfo := m\<rparr>)
                          else (True, Syscall_head #
                                  map (\<lambda>(k, v). Syscall_row (the (syscall_name tab (unat k) 32)) (i_count v) (i_total v))
                                    (take (nat env_top) (qsort compar_syscall infos)),
                                st\<lparr>n_sysinfo := m\<rparr>))))"

definition print_numa :: "thread_info_t \<Rightarrow> noise \<Rightarrow> bool \<times> noise_row list \<times> noise" where
  "print_numa g st =
     (let keys = collect_keys MAX_ENTRIES (n_numa st) (- 1)
      in if keys = [] then (True, [], st)
         else (let values = lookup_all (n_numa st) g keys
               in case delete_all keys (n_numa st) of (ok, m) \<Rightarrow>
                    if \<not> ok then (False, [], st\<lparr>n_numa := m\<rparr>)
                    else (True, Numa_head # map (\<lambda>v. Numa_row (t_name v) (t_pid v) (t_count v)) (qsort compar_thread values),
                          st\<lparr>n_numa := m\<rparr>)))"

section \<open>Main loop\<close>

text \<open>The stack contents the report functions start with.\<close>

record noise_stack =
  g_thread :: thread_info_t
  g_irq :: irq_info_t
  g_info :: info

text \<open>The report functions in the order of \<open>init_output\<close>, up to the first that fails.\<close>

definition print_funcs ::
  "syscall_table \<Rightarrow> int \<Rightarrow> noise_stack \<Rightarrow> (noise \<Rightarrow> (bool \<times> noise_row list \<times> noise) option) list" where
  "print_funcs tab env_top g =
     [Some \<circ> print_hist, Some \<circ> print_wait (g_thread g), Some \<circ> print_irq env_top (g_irq g), Some \<circ> print_softirq,
      print_syscall tab env_top (g_info g), Some \<circ> print_numa (g_thread g)]"

fun print_report ::
  "(noise \<Rightarrow> (bool \<times> noise_row list \<times> noise) option) list \<Rightarrow> noise \<Rightarrow> (noise_row list \<times> noise) option" where
  "print_report [] st = Some ([], st)"
| "print_report (f # fs) st =
     (case f st of
        None \<Rightarrow> None
      | Some (res, rows, st1) \<Rightarrow>
          if \<not> res then Some (rows, st1)
          else (case print_report fs st1 of None \<Rightarrow> None | Some (rows', st2) \<Rightarrow> Some (rows @ rows', st2)))"

text \<open>
  One round per interval: the events that happen in it and whether a signal has arrived at its end.
  The result has one entry per report; \<open>None\<close> inside says that the rounds given are used up before the
  loop ends, and a crash of the tool is the outer \<open>None\<close>.
\<close>

fun noise_loop ::
  "(noise \<Rightarrow> (noise_row list \<times> noise) option) \<Rightarrow> (noise_event list \<times> bool) list \<Rightarrow> int \<Rightarrow> noise
   \<Rightarrow> (noise_row list list \<times> noise) option option" where
  "noise_loop report [] ntimes st = Some None"
| "noise_loop report ((evs, exiting) # rounds) ntimes st =
     (let st1 = fold noise_event_step evs st
      in if ntimes \<noteq> 0 then
           (case report st1 of
              None \<Rightarrow> None
            | Some (rows, st2) \<Rightarrow>
                if ntimes - 1 = 0 \<or> exiting then Some (Some ([rows], st2))
                else map_option (map_option (\<lambda>(out, st3). (rows # out, st3))) (noise_loop report rounds (ntimes - 1) st2))
         else if exiting then Some (Some ([], st1))
         else noise_loop report rounds ntimes st1)"

text \<open>
  \<open>ok\<close> says which of the five set-up calls succeed: opening and loading the object, writing the filter,
  installing the signal handlers, attaching the programs. After a failure nothing is printed.
\<close>

definition noise_main ::
  "(nat \<Rightarrow> bool) \<Rightarrow> syscall_table \<Rightarrow> noise_stack \<Rightarrow> noise_env \<Rightarrow> (noise_event list \<times> bool) list
   \<Rightarrow> (noise_row list list \<times> noise) option option" where
  "noise_main ok tab g env rounds =
     (let report = print_report (print_funcs tab (e_top env) g);
          args = \<lparr>a_pid = word_of_int (e_tid env), a_tgid = word_of_int (e_pid env)\<rparr>
      in if \<not> list_all ok [0..<5] then Some (Some ([], noise_init args))
         else (case noise_loop report rounds (e_times env) (noise_init args) of
                 Some (Some (out, st)) \<Rightarrow>
                   (case report st of None \<Rightarrow> None | Some (rows, st1) \<Rightarrow> Some (Some (out @ [rows], st1)))
               | r \<Rightarrow> r))"

section \<open>The order of the tables\<close>

interpretation by_total: qsort_compare compar_syscall "\<lambda>x y. i_total (snd y) \<le> i_total (snd x)"
  by unfold_locales (auto simp: compar_syscall_def compar_def)

interpretation by_count: qsort_compare compar_thread "\<lambda>x y. t_count y \<le> t_count x"
  by unfold_locales (auto simp: compar_thread_def compar_def)

section \<open>Walking a table\<close>

lemma key_after_split:
  "distinct ks \<Longrightarrow> ks = xs @ k # ys \<Longrightarrow> key_after ks k = (case ys of [] \<Rightarrow> None | y # _ \<Rightarrow> Some y)"
  by (induction xs arbitrary: ks) (auto split: list.split)

lemma collect_keys_from:
  assumes "distinct (map fst m)"
  shows "map fst m = xs @ k # ys \<Longrightarrow> length ys \<le> n \<Longrightarrow> collect_keys n m k = ys"
proof (induction n arbitrary: xs k ys)
  case (Suc n)
  have "get_next_key m k = (case ys of [] \<Rightarrow> None | y # _ \<Rightarrow> Some y)"
    using key_after_split [OF assms Suc.prems(1)] Suc.prems(1) by (simp add: get_next_key_def)
  then show ?case using Suc.IH [of "xs @ [k]"] Suc.prems by (cases ys) auto
qed simp

text \<open>Every key is found, once, unless the start value -1 is a key itself.\<close>

lemma collect_keys_all:
  assumes "distinct (map fst m)" "length m \<le> n" "pre \<notin> fst ` set m"
  shows "collect_keys n m pre = map fst m"
proof (cases m)
  case Nil
  then show ?thesis by (cases n) (simp_all add: get_next_key_def)
next
  case (Cons kv m')
  then obtain n' where "n = Suc n'" using assms(2) by (cases n) auto
  then show ?thesis using Cons assms collect_keys_from [OF assms(1), of "[]" "fst kv" "map fst m'" n']
    by (cases kv) (simp add: get_next_key_def)
qed

lemma lookup_all_present:
  "\<forall>k \<in> set ks. map_of m k \<noteq> None \<Longrightarrow> lookup_all m g ks = map (\<lambda>k. the (map_of m k)) ks"
  by (induction ks arbitrary: g) (auto simp: Let_def)

lemma lookup_all_keys:
  assumes "distinct (map fst m)"
  shows "lookup_all m g (map fst m) = map snd m"
proof -
  have "lookup_all m g (map fst m) = map (\<lambda>k. the (map_of m k)) (map fst m)"
    by (rule lookup_all_present) (auto simp: map_of_eq_None_iff)
  also have "\<dots> = map snd m" using assms by (auto simp: map_of_is_SomeI intro!: map_cong)
  finally show ?thesis .
qed

lemma delete_all_keys: "distinct (map fst m) \<Longrightarrow> delete_all (map fst m) m = (True, [])"
proof (induction m)
  case (Cons kv m)
  have "AList.delete (fst kv) m = m" using Cons.prems by (simp add: delete_id)
  then show ?case using Cons by (cases kv) simp
qed simp

lemma delete_all_wf: "hash_wf cap m \<Longrightarrow> hash_wf cap (snd (delete_all ks m))"
  by (induction ks arbitrary: m) (simp_all add: hash_wf_delete)

section \<open>Reports keep the maps well-formed\<close>

lemma print_hist_1_wf: "noise_wf st \<Longrightarrow> noise_wf (snd (print_hist_1 i st))"
  by (auto simp: print_hist_1_def noise_wf_def arr_lookup_def list_all_length nth_list_update zero_hist_def split: option.split)

lemma print_hist_from_wf: "noise_wf st \<Longrightarrow> noise_wf (snd (print_hist_from is st))"
proof (induction "is" arbitrary: st)
  case (Cons i "is")
  then show ?case using print_hist_1_wf [OF Cons.prems, of i] Cons.IH [of "snd (print_hist_1 i st)"]
    by (simp add: case_prod_beta)
qed simp

lemma print_funcs_wf:
  assumes "f \<in> set (print_funcs tab t g)" "noise_wf st" "f st = Some (res, rows, st1)"
  shows "noise_wf st1"
proof -
  note d = delete_all_wf [OF noise_wf_maps(1) [OF assms(2)]] delete_all_wf [OF noise_wf_maps(2) [OF assms(2)]]
    delete_all_wf [OF noise_wf_maps(4) [OF assms(2)]] delete_all_wf [OF noise_wf_maps(5) [OF assms(2)]]
  consider "f = Some \<circ> print_hist" | "f = Some \<circ> print_wait (g_thread g)" | "f = Some \<circ> print_irq t (g_irq g)"
    | "f = Some \<circ> print_softirq" | "f = print_syscall tab t (g_info g)" | "f = Some \<circ> print_numa (g_thread g)"
    using assms(1) by (auto simp: print_funcs_def)
  then show ?thesis
  proof cases
    case 1
    then show ?thesis using assms print_hist_from_wf [OF assms(2), of "[0..<nr_hist]"] by (auto simp: print_hist_def)
  next
    case 2
    then show ?thesis using assms d(4) [of "collect_keys MAX_ENTRIES (n_wait st) (- 1)"]
      by (auto simp: print_wait_def Let_def noise_wf_fields split: if_splits prod.splits)
  next
    case 3
    then show ?thesis using assms d(1) [of "collect_keys MAX_ENTRIES_IRQ (n_irq st) (- 1)"]
      by (auto simp: print_irq_def Let_def noise_wf_fields split: if_splits prod.splits)
  next
    case 4
    then show ?thesis using assms noise_wf_maps(7) [OF assms(2)]
      by (auto simp: print_softirq_def Let_def noise_wf_fields split: if_splits)
  next
    case 5
    then show ?thesis using assms d(2) [of "collect_keys MAX_ENTRIES (n_sysinfo st) (- 1)"]
      by (auto simp: print_syscall_def Let_def noise_wf_fields split: if_splits prod.splits)
  next
    case 6
    then show ?thesis using assms d(3) [of "collect_keys MAX_ENTRIES (n_numa st) (- 1)"]
      by (auto simp: print_numa_def Let_def noise_wf_fields split: if_splits prod.splits)
  qed
qed

end
