(* ===== verification/Noise_Theorems.thy ===== *)
theory Noise_Theorems
  imports Noise_Report
begin

text \<open>
  Properties of the application-noise tracer: what the histograms and tables hold after any run of
  events and reports, that the printed ranges are those of the recorded durations, and that the main
  loop ends.
\<close>

section \<open>Runs\<close>





section \<open>The ranges of the slots\<close>

lemma slot_range:
  assumes "i < 11"
  shows "unat (slot_low i) = (if i = 0 then 0 else 2 ^ i) \<and> unat (slot_high i) = 2 ^ (i + 1) - 1"
proof -
  have "i = 0 \<or> i = 1 \<or> i = 2 \<or> i = 3 \<or> i = 4 \<or> i = 5 \<or> i = 6 \<or> i = 7 \<or> i = 8 \<or> i = 9 \<or> i = 10"
    using assms by arith
  then show ?thesis by (elim disjE) (simp_all add: slot_low_def slot_high_def)
qed

section \<open>The main loop\<close>

lemma print_funcs_Some:
  assumes "s_names tab \<noteq> None \<or> s_size tab = 0"
  shows "\<forall>f \<in> set (print_funcs tab t g). \<forall>st. \<exists>r. f st = Some r"
proof -
  have "(syscall_name tab n k = None) = False" for n k using assms by (auto simp: syscall_name_def Let_def)
  then have "\<exists>r. print_syscall tab t i st = Some r" for i st
    by (auto simp: print_syscall_def Let_def list_ex_iff simp del: not_None_eq split: prod.split)
  then show ?thesis by (auto simp: print_funcs_def simp del: split_paired_Ex)
qed

lemma print_report_Some: "\<forall>f \<in> set fs. \<forall>st. \<exists>r. f st = Some r \<Longrightarrow> \<exists>rows st1. print_report fs st = Some (rows, st1)"
proof (induction fs arbitrary: st)
  case (Cons f fs)
  obtain res rows st1 where f: "f st = Some (res, rows, st1)" using Cons.prems
    by (metis list.set_intros(1) prod_cases3)
  obtain rows' st2 where "print_report fs st1 = Some (rows', st2)" using Cons by fastforce
  with f show ?case by simp
qed simp

lemma noise_loop_ends:
  assumes "\<And>st. \<exists>rows st1. report st = Some (rows, st1)"
  shows "0 < k \<Longrightarrow> nat k \<le> length rounds \<Longrightarrow>
    \<exists>out st1. noise_loop report rounds k st = Some (Some (out, st1)) \<and> length out \<le> nat k"
proof (induction rounds arbitrary: k st)
  case (Cons r rounds)
  obtain evs ex where r: "r = (evs, ex)" by fastforce
  obtain rows st1 where s: "report (fold noise_event_step evs st) = Some (rows, st1)" using assms by blast
  show ?case
  proof (cases "k - 1 = 0 \<or> ex")
    case True
    then show ?thesis using Cons.prems by (simp add: r s Suc_le_eq)
  next
    case False
    then have "0 < k - 1" "nat (k - 1) \<le> length rounds" using Cons.prems by auto
    from Cons.IH [OF this, of st1] False Cons.prems show ?thesis by (auto simp: r s)
  qed
qed simp

section \<open>Properties\<close>







text \<open>C10: The range printed for the slot of a duration contains the duration, for every duration below
  2 ^ 32 units; beyond that the high bits are dropped before the slot is chosen, so that the duration
  is counted as if they were not there.\<close>

theorem noise_slot_label:
  assumes "unat d < 2 ^ 32"
  shows "slot_of d < 11 \<and> slot_low (slot_of d) \<le> d \<and> (slot_of d < 10 \<longrightarrow> d \<le> slot_high (slot_of d)) \<and>
         slot_of (d + 2 ^ 32) = slot_of d"
proof -
  define v where "v = (ucast d :: u32)"
  define i where "i = slot_of d"
  have v: "unat v = unat d" using assms by (simp add: v_def unsigned_ucast_eq unsigned_take_bit_eq take_bit_nat_eq_self)
  have i: "i < 11" using slot_of_bound by (simp add: i_def)
  have si: "i = (if unat (log2 v) \<ge> 11 then 10 else unat (log2 v))" by (simp add: i_def slot_of_def v_def)
  have "unat (slot_low i) \<le> unat d \<and> (i < 10 \<longrightarrow> unat d \<le> unat (slot_high i))"
  proof (cases "v = 0")
    case True
    then have "unat d = 0" "i = 0" using v by (simp_all add: si log2_zero)
    then show ?thesis using slot_range [of 0] by simp
  next
    case False
    note f = log2_floor [OF False, unfolded v]
    have "(2 :: nat) ^ i \<le> 2 ^ unat (log2 v)" by (intro power_increasing) (simp_all add: si)
    then have lo: "2 ^ i \<le> unat d" by (rule le_trans) (rule f(1))
    have "unat d < 2 ^ (i + 1)" if "i < 10" using f(2) that by (simp add: si split: if_splits)
    then show ?thesis using lo slot_range [OF i] by (auto split: if_splits)
  qed
  moreover have "slot_of (d + 2 ^ 32) = slot_of d"
  proof -
    have "(ucast (d + 2 ^ 32) :: u32) = ucast d"
      by transfer (simp add: take_bit_eq_mod mod_mod_cancel)
    then show ?thesis by (simp only: slot_of_def)
  qed
  ultimately show ?thesis using i by (simp add: i_def word_le_nat_alt)
qed

theorem noise_slot_label_witness:
  "slot_of 100 = 6 \<and> slot_low 6 \<le> 100 \<and> 100 \<le> slot_high 6 \<and> slot_of (100 + 2 ^ 32) = 6"
proof -
  have s: "slot_of 100 = 6" by (simp add: slot_of_def log2_def Let_def)
  show ?thesis using noise_slot_label [of 100] unfolding s by simp
qed

text \<open>C18: The report on system calls lists the calls with the greatest total times first, all of them up
  to the limit, and empties the table, provided that no call was recorded under the number -1.\<close>

theorem noise_print_syscall:
  assumes "noise_wf st" "n_sysinfo st \<noteq> []" "- 1 \<notin> fst ` set (n_sysinfo st)" "s_names tab \<noteq> None \<or> s_size tab = 0"
  shows "\<exists>infos. mset infos = mset (n_sysinfo st) \<and> sorted_wrt (\<lambda>x y. i_total (snd y) \<le> i_total (snd x)) infos \<and>
    print_syscall tab t g st =
      Some (True, Syscall_head # map (\<lambda>(k, v). Syscall_row (the (syscall_name tab (unat k) 32)) (i_count v) (i_total v)) (take (nat t) infos),
            st\<lparr>n_sysinfo := []\<rparr>)"
proof -
  define m where "m = n_sysinfo st"
  have d: "distinct (map fst m)" "length m \<le> 8192"
    using noise_wf_maps(2) [OF assms(1)] by (simp_all add: m_def hash_wf_def)
  have k: "collect_keys 8192 m (- 1) = map fst m" using assms(3) d by (intro collect_keys_all) (simp_all add: m_def)
  have z: "zip (map fst m) (lookup_all m g (map fst m)) = m" using d by (simp add: lookup_all_keys zip_map_fst_snd)
  have n: "\<not> list_ex (\<lambda>k. syscall_name tab (unat k) 32 = None) (map fst m)"
    using assms(4) by (auto simp: list_ex_iff syscall_name_def Let_def)
  have "print_syscall tab t g st = Some (True, Syscall_head #
      map (\<lambda>(k, v). Syscall_row (the (syscall_name tab (unat k) 32)) (i_count v) (i_total v)) (take (nat t) (qsort compar_syscall m)),
      st\<lparr>n_sysinfo := []\<rparr>)"
    using assms(2) n z d
    by (simp add: print_syscall_def m_def [symmetric] k Let_def delete_all_keys)
  then show ?thesis using by_total.sorted_qsort [of m] qsort_mset [of compar_syscall m] by (auto simp: m_def)
qed

theorem noise_print_syscall_witness:
  "\<exists>infos. mset infos = mset [(3 :: u32, \<lparr>i_count = 1, i_total = 7\<rparr>)] \<and>
    print_syscall \<lparr>s_names = None, s_size = 0\<rparr> 10 zero_info
        ((noise_init \<lparr>a_pid = 7, a_tgid = 0\<rparr>)\<lparr>n_sysinfo := [(3, \<lparr>i_count = 1, i_total = 7\<rparr>)]\<rparr>) =
      Some (True, Syscall_head # map (\<lambda>(k, v). Syscall_row (the (syscall_name \<lparr>s_names = None, s_size = 0\<rparr> (unat k) 32)) (i_count v) (i_total v)) (take 10 infos),
            noise_init \<lparr>a_pid = 7, a_tgid = 0\<rparr>)"
proof -
  let ?st = "(noise_init \<lparr>a_pid = 7, a_tgid = 0\<rparr>)\<lparr>n_sysinfo := [(3, \<lparr>i_count = 1, i_total = 7\<rparr>)]\<rparr>"
  have w: "noise_wf ?st"
    by (rule noise_wf_fields(4) [OF noise_init_wf]) (simp add: hash_wf_def)
  have i: "?st\<lparr>n_sysinfo := []\<rparr> = noise_init \<lparr>a_pid = 7, a_tgid = 0\<rparr>" by (simp add: noise_init_def)
  show ?thesis using noise_print_syscall [OF w, of "\<lparr>s_names = None, s_size = 0\<rparr>" 10 zero_info] unfolding i by auto
qed

text \<open>C15: With a positive number of summaries the tool ends after at most that many intervals, having
  printed at most one report for each and one more at the end; looking names up does not fail unless
  enlarging the table of names did.\<close>

theorem noise_main_ends:
  assumes "0 < e_times env" "nat (e_times env) \<le> length rounds" "s_names tab \<noteq> None \<or> s_size tab = 0"
  shows "\<exists>out st. noise_main ok tab g env rounds = Some (Some (out, st)) \<and> length out \<le> nat (e_times env) + 1"
proof -
  define report where "report = print_report (print_funcs tab (e_top env) g)"
  have r: "\<exists>rows st1. report st = Some (rows, st1)" for st
    using print_report_Some [OF print_funcs_Some [OF assms(3)]] by (simp add: report_def)
  obtain out st where l: "noise_loop report rounds (e_times env) (noise_init
      \<lparr>a_pid = word_of_int (e_tid env), a_tgid = word_of_int (e_pid env)\<rparr>) = Some (Some (out, st))"
    and len: "length out \<le> nat (e_times env)"
    using noise_loop_ends [of report, OF r assms(1,2)] by blast
  obtain rows st1 where "report st = Some (rows, st1)" using r by blast
  with l len show ?thesis by (simp add: noise_main_def Let_def report_def [symmetric])
qed

theorem noise_main_ends_witness:
  "\<exists>out st. noise_main (\<lambda>_. True) \<lparr>s_names = None, s_size = 0\<rparr>
      \<lparr>g_thread = \<lparr>t_pid = 0, t_name = [], t_count = 0\<rparr>, g_irq = \<lparr>q_name = [], q_count = 0, q_total = 0\<rparr>, g_info = zero_info\<rparr>
      (env_default\<lparr>e_pid := 7, e_times := 2\<rparr>) [([], False), ([], False)] =
      Some (Some (out, st)) \<and> length out \<le> nat (e_times (env_default\<lparr>e_pid := 7, e_times := 2\<rparr>)) + 1"
  by (rule noise_main_ends) simp_all

text \<open>C34: The handlers of the scheduler and of non-maskable interrupts are switched off for every kernel
  release whose second number is below 19, whatever the first: also for the kernels 5.0 to 5.18 and
  6.0 to 6.18, which are later than 4.19.\<close>

theorem noise_autoload_by_minor:
  assumes "a < 2 ^ 64" "b < 2 ^ 64" "ends_number rest"
  shows "check_and_fix_autoload 0 (dec a @ CHR ''.'' # dec b @ rest) = Some (a < 4 \<or> b < 19)"
proof -
  have e: "ends_number (CHR ''.'' # s)" for s by (simp add: ends_number_def is_digit_char_def)
  obtain v p where v: "strtoull (tl rest) = (v, p)" by fastforce
  have "release_numbers 3 0 (dec a @ CHR ''.'' # dec b @ rest) = Some [word_of_nat a, word_of_nat b, v]"
    by (simp add: numeral_3_eq_3 strtoull_dec [OF assms(1) e] strtoull_dec [OF assms(2,3)] v)
  moreover have "(word_of_nat a :: u64) < 4 \<longleftrightarrow> a < 4" "(word_of_nat b :: u64) < 19 \<longleftrightarrow> b < 19"
    using assms by (simp_all add: word_less_nat_alt unat_of_nat)
  ultimately show ?thesis by (simp add: check_and_fix_autoload_def)
qed

theorem noise_autoload_by_minor_witness:
  "check_and_fix_autoload 0 (dec 5 @ CHR ''.'' # dec 10 @ ''.134'') = Some ((5 :: nat) < 4 \<or> (10 :: nat) < 19)"
  by (rule noise_autoload_by_minor) (simp_all add: ends_number_def is_digit_char_def)

end
