(* ===== verification/Sysak_Cli.thy ===== *)
theory Sysak_Cli
  imports Syscall_Names
begin

text \<open>
  The front end, source/sysak.c: it finds the directory of its components, looks a tool up in the
  rule files, installs what the tool depends on, and runs the tool through the shell. Files are a map
  from paths to contents; the shell is a parameter that maps a command and the files to an exit
  status and new files. Strings stand for the contents of character buffers and are assumed to fit
  where the source copies them without a bound; \<open>snprintf\<close> truncates.
\<close>

section \<open>State\<close>

type_synonym files = "string \<Rightarrow> string option"
type_synonym shell = "string \<Rightarrow> files \<Rightarrow> int \<times> files"

record tool_info =
  ti_module :: string
  ti_name :: string
  ti_help :: string

text \<open>The global variables, the files, the commands run so far and the answers typed.\<close>

record cli =
  kern_version :: string
  machine :: string
  prev_dep :: string
  post_dep :: string
  run_depend :: string
  tools_path :: string
  tools_exec :: string
  sysak_rule :: string
  module_path :: string
  module_tag :: string
  sysak_work_path :: string
  sysak_other_rule :: string
  components_server :: string
  pre_module :: bool
  post_module :: bool
  btf_depend :: bool
  auto_get_components :: bool
  child_pid :: int
  tool_lists :: "tool_info list list"
  fs :: files
  cmds :: "string list"
  answers :: string

abbreviation (input) log_path :: string where "log_path \<equiv> ''/var/log/sysak''"
abbreviation (input) system_modules :: string where "system_modules \<equiv> ''/proc/modules''"
abbreviation (input) sysak_root_path :: string where "sysak_root_path \<equiv> ''/usr/local/sysak''"
abbreviation (input) module_ko :: string where "module_ko \<equiv> ''/sysak.ko''"
abbreviation (input) EEXIST :: int where "EEXIST \<equiv> 17"
abbreviation (input) ERR_NOSUBTOOL :: int where "ERR_NOSUBTOOL \<equiv> 2"
abbreviation (input) ERR_MISSARG :: int where "ERR_MISSARG \<equiv> 3"

definition exists :: "string \<Rightarrow> cli \<Rightarrow> bool" where
  "exists path c = (fs c path \<noteq> None)"

definition run_system :: "shell \<Rightarrow> string \<Rightarrow> cli \<Rightarrow> int \<times> cli" where
  "run_system sh cmd c = (case sh cmd (fs c) of (status, fs') \<Rightarrow> (status, c\<lparr>fs := fs', cmds := cmds c @ [cmd]\<rparr>))"

definition snprintf :: "nat \<Rightarrow> string \<Rightarrow> string" where
  "snprintf n s = take (n - 1) s"

text \<open>The pieces \<open>fgets\<close> reads of a file, with room for \<open>Suc n\<close> characters at a time.\<close>

function read_lines :: "nat \<Rightarrow> string \<Rightarrow> string list" where
  "read_lines n s = (if s = [] then [] else case fgets (Suc n) s of (l, r) \<Rightarrow> l # read_lines n r)"
  by pat_completeness auto

termination
  by (relation "measure (\<lambda>(n, s). length s)")
    (simp, (simp only: in_measure case_prod_conv, blast intro: fgets_Suc_shorter sym))

declare read_lines.simps [simp del]

section \<open>Text\<close>

text \<open>
  The loop of \<open>strim\<close> over the bytes of the buffer: white space becomes zero, and the offset of the
  first other character is remembered. The string is then copied from there.
\<close>

fun strim_loop :: "string \<Rightarrow> nat \<Rightarrow> nat option \<Rightarrow> string \<times> nat option" where
  "strim_loop [] i start = ([], start)"
| "strim_loop (x # s) i start =
     (if is_blank x then (case strim_loop s (i + 1) start of (t, st) \<Rightarrow> (NUL # t, st))
      else (case strim_loop s (i + 1) (if start = None then Some i else start) of (t, st) \<Rightarrow> (x # t, st)))"

definition strim :: "string \<Rightarrow> string" where
  "strim str =
     (case strim_loop str 0 None of
        (buf, None) \<Rightarrow> c_string 0 buf
      | (buf, Some st) \<Rightarrow> c_string st buf)"

definition char_num :: "string \<Rightarrow> char \<Rightarrow> nat" where
  "char_num str ch = length (filter (\<lambda>x. x = ch) str)"

text \<open>\<open>sscanf\<close> with \<open>%[^:]:%[^:]\<close>; a field that is not reached keeps its value.\<close>

definition scan_rule :: "string \<Rightarrow> string \<times> string \<Rightarrow> string \<times> string" where
  "scan_rule buf old =
     (let a = takeWhile (\<lambda>x. x \<noteq> CHR '':'') buf; rest = drop (length a) buf
      in if a = [] then old
         else if rest = [] then (a, snd old)
         else (let b = takeWhile (\<lambda>x. x \<noteq> CHR '':'') (tl rest) in if b = [] then (a, snd old) else (a, b)))"

text \<open>\<open>sscanf\<close> with a literal prefix and \<open>%[^}]\<close>: the field and the text behind it.\<close>

definition scan_braces :: "string \<Rightarrow> string \<Rightarrow> (string \<times> string) option" where
  "scan_braces pre s =
     (if \<not> is_prefix pre s then None
      else (let t = drop (length pre) s; a = takeWhile (\<lambda>x. x \<noteq> CHR ''}'') t
            in if a = [] then None else Some (a, drop (length a) t)))"

definition scan_into :: "string \<Rightarrow> string \<Rightarrow> string \<Rightarrow> string" where
  "scan_into pre s old = (case scan_braces pre s of None \<Rightarrow> old | Some (a, _) \<Rightarrow> a)"

section \<open>Kernel module\<close>

definition mod_ctrl :: "shell \<Rightarrow> bool \<Rightarrow> cli \<Rightarrow> int \<times> cli" where
  "mod_ctrl sh enable c =
     (case fs c system_modules of
        None \<Rightarrow> (- 1, c)
      | Some content \<Rightarrow>
          (let has_ko = list_ex (\<lambda>l. strstr l ''sysak'' \<noteq> None) (read_lines 510 content)
           in if enable then
                (if has_ko then (0, c)
                 else run_system sh (snprintf 256 (''insmod '' @ module_path c @ kern_version c @ module_ko)) c)
              else if has_ko then
                run_system sh (snprintf 256 (''rmmod '' @ module_path c @ kern_version c @ module_ko)) c
              else (- 1, c)))"

section \<open>Installing components\<close>

definition get_server_addr :: "cli \<Rightarrow> bool \<times> cli" where
  "get_server_addr c =
     (case fs c (sysak_root_path @ ''/sysak_server.conf'') of
        None \<Rightarrow> (False, c)
      | Some content \<Rightarrow>
          (let line = (case read_lines 510 content of [] \<Rightarrow> components_server c | l # _ \<Rightarrow> l);
               server = strim line; c1 = c\<lparr>components_server := server\<rparr>
           in (server \<noteq> [], c1)))"

fun find_tag :: "string list \<Rightarrow> string option" where
  "find_tag [] = None"
| "find_tag (buf # bufs) =
     (case strstr buf ''sysak_module_tag='' of
        None \<Rightarrow> find_tag bufs
      | Some p \<Rightarrow> Some (strim (drop (length ''sysak_module_tag='') p)))"

definition get_module_tag :: "cli \<Rightarrow> bool \<times> cli" where
  "get_module_tag c =
     (case fs c (module_path c @ ''/.sysak.rules'') of
        None \<Rightarrow> (False, c)
      | Some content \<Rightarrow>
          (case find_tag (read_lines 1022 content) of
             None \<Rightarrow> (False, c)
           | Some tag \<Rightarrow> (tag \<noteq> [], c\<lparr>module_tag := tag\<rparr>)))"

text \<open>
  The loop over the downloaded rule: the last target and the last information line. The buffer of
  the target starts with the path of the rule file, the other one with whatever the stack held.
\<close>

fun scan_ext_rule :: "string list \<Rightarrow> string \<times> string \<Rightarrow> string \<times> string" where
  "scan_ext_rule [] fr = fr"
| "scan_ext_rule (buf # bufs) (filename, rule) =
     (case strstr buf ''target='' of
        Some p \<Rightarrow> scan_ext_rule bufs (drop (length ''target='') p, rule)
      | None \<Rightarrow>
          (case strstr buf ''info='' of
             Some p \<Rightarrow> scan_ext_rule bufs (filename, drop (length ''info='') p)
           | None \<Rightarrow> scan_ext_rule bufs (filename, rule)))"

definition append_file :: "string \<Rightarrow> string \<Rightarrow> cli \<Rightarrow> cli" where
  "append_file path text_arg c =
     c\<lparr>fs := (fs c)(path := Some ((case fs c path of None \<Rightarrow> [] | Some old \<Rightarrow> old) @ text_arg))\<rparr>"

text \<open>\<open>can_append\<close> says whether the rule file can be opened for appending.\<close>

definition down_install_ext_tools :: "shell \<Rightarrow> bool \<Rightarrow> string \<Rightarrow> string \<Rightarrow> cli \<Rightarrow> int \<times> cli" where
  "down_install_ext_tools sh can_append garbage tool c =
     (let dir = components_server c @ ''/sysak/ext_tools/'' @ machine c @ ''/'' @ tool @ ''/''
      in case run_system sh (''wget '' @ dir @ ''rule -P '' @ tools_path c @ '' &>/dev/null'') c of (ret, c1) \<Rightarrow>
         if ret < 0 then (ret, c1)
         else (let path = tools_path c @ ''/rule''
               in case fs c1 path of
                    None \<Rightarrow> (- 1, c1)
                  | Some content \<Rightarrow>
                      (case scan_ext_rule (read_lines 1022 content) (path, garbage) of (target, rule) \<Rightarrow>
                         (let filename = strim target
                          in if filename = [] then (- 1, c1)
                             else case run_system sh (''wget '' @ dir @ filename @ '' -P '' @ tools_path c @ '' &>/dev/null'') c1 of (ret2, c2) \<Rightarrow>
                               if ret2 < 0 then (ret2, c2)
                               else (case (if strstr filename ''.zip'' \<noteq> None then
                                             run_system sh (''unzip '' @ tools_path c @ ''/'' @ filename @ '' -d '' @ tools_path c @ [CHR 0x0A]) c2
                                           else if strstr filename ''.tar'' \<noteq> None then
                                             run_system sh (''tar xf '' @ tools_path c @ ''/'' @ filename @ '' -C '' @ tools_path c @ [CHR 0x0A]) c2
                                           else (0, c2)) of (ret3, c3) \<Rightarrow>
                                       if ret3 < 0 then (ret3, c3)
                                       else if \<not> can_append then (- 1, c3)
                                       else (0, append_file (sysak_rule c) rule c3))))))"

definition down_install :: "shell \<Rightarrow> bool \<Rightarrow> string \<Rightarrow> string \<Rightarrow> cli \<Rightarrow> int \<times> cli" where
  "down_install sh can_append garbage component_name c =
     (case get_server_addr c of (ok, c1) \<Rightarrow>
        if \<not> ok then (- 1, c1)
        else if component_name = ''sysak_modules'' then
          (case get_module_tag c1 of (ok2, c2) \<Rightarrow>
             if \<not> ok2 then (- 1, c2)
             else (let ko_path = module_path c2 @ ''/'' @ kern_version c2; ko_file = ko_path @ ''/sysak.ko'';
                       c3 = (if exists ko_path c2 then c2 else c2\<lparr>fs := (fs c2)(ko_path := Some [])\<rparr>)
                   in case run_system sh (''wget '' @ components_server c3 @ ''/sysak/modules/'' @ machine c3 @ ''/sysak-'' @
                             kern_version c3 @ ''.ko -O '' @ ko_file @ '' &>/dev/null'') c3 of (ret, c4) \<Rightarrow>
                        (if exists ko_file c4 then 0 else ret, c4)))
        else if component_name = ''btf'' then
          (let btf_file = tools_path c1 @ ''/'' @ kern_version c1 @ ''/vmlinux-'' @ kern_version c1
           in case run_system sh (''wget '' @ components_server c1 @ ''/coolbpf/btf/'' @ machine c1 @ ''/vmlinux-'' @
                     kern_version c1 @ '' -P '' @ tools_path c1 @ '' &>/dev/null'') c1 of (ret, c2) \<Rightarrow>
                (if exists btf_file c2 then 0 else ret, c2))
        else down_install_ext_tools sh can_append garbage component_name c1)"

definition pre_down_install ::
  "shell \<Rightarrow> bool \<Rightarrow> string \<Rightarrow> bool \<Rightarrow> bool \<Rightarrow> string option \<Rightarrow> cli \<Rightarrow> int \<times> cli" where
  "pre_down_install sh can_append garbage need_module need_btf compents c =
     (case (if auto_get_components c then (True, c)
            else (answers c \<noteq> [] \<and> (hd (answers c) = CHR ''y'' \<or> hd (answers c) = CHR ''Y''), c\<lparr>answers := tl (answers c)\<rparr>))
      of (download, c0) \<Rightarrow>
        if \<not> download then (- EEXIST, c0)
        else
          (case (if need_module then down_install sh can_append garbage ''sysak_modules'' c0 else (0, c0)) of (ret1, c1) \<Rightarrow>
           case (if need_btf then down_install sh can_append garbage ''btf'' c1 else (ret1, c1)) of (ret2, c2) \<Rightarrow>
           case (case compents of Some name \<Rightarrow> down_install sh can_append garbage name c2 | None \<Rightarrow> (ret2, c2)) of (ret3, c3) \<Rightarrow>
             (if ret3 < 0 then - EEXIST else ret3, c3)))"

text \<open>
  The paths that are not needed stay uninitialised in the source; testing them can only clear a
  pointer that is null already.
\<close>

definition check_or_install_components :: "shell \<Rightarrow> bool \<Rightarrow> string \<Rightarrow> string \<Rightarrow> cli \<Rightarrow> int \<times> cli" where
  "check_or_install_components sh can_append garbage name c =
     (let wants_module = (strstr name ''sysak_modules'' \<noteq> None); wants_btf = (strstr name ''btf'' \<noteq> None);
          need_compents = (\<not> wants_module \<and> \<not> wants_btf);
          need_module = (wants_module \<and> \<not> exists (module_path c @ kern_version c @ module_ko) c);
          need_btf = (wants_btf \<and> \<not> exists (tools_path c @ ''/vmlinux-'' @ kern_version c) c)
      in if need_module \<and> need_btf then pre_down_install sh can_append garbage True True None c
         else if need_module then pre_down_install sh can_append garbage True False None c
         else if need_btf then pre_down_install sh can_append garbage False True None c
         else if need_compents then pre_down_install sh can_append garbage False False (Some name) c
         else (0, c))"

section \<open>Running a tool\<close>

definition do_prev_depend :: "shell \<Rightarrow> bool \<Rightarrow> string \<Rightarrow> cli \<Rightarrow> int \<times> cli" where
  "do_prev_depend sh can_append garbage c =
     (if pre_module c \<and> btf_depend c then
        check_or_install_components sh can_append garbage ''sysak_modules and btf'' c
      else if pre_module c then
        (case check_or_install_components sh can_append garbage ''sysak_modules'' c of (ret, c1) \<Rightarrow>
           if ret = 0 then mod_ctrl sh True c1 else (- 1, c1))
      else if btf_depend c then check_or_install_components sh can_append garbage ''btf'' c
      else (0, c))"

definition add_python_depend :: "string \<Rightarrow> string \<Rightarrow> cli \<Rightarrow> cli" where
  "add_python_depend depend cmd c =
     (if depend = ''all'' then
        (if exists ''/usr/bin/python'' c then c\<lparr>tools_exec := snprintf 512 (''python '' @ cmd)\<rparr>
         else if exists ''/usr/bin/python2'' c then c\<lparr>tools_exec := snprintf 512 (''python2 '' @ cmd)\<rparr>
         else if exists ''/usr/bin/python3'' c then c\<lparr>tools_exec := snprintf 512 (''python3 '' @ cmd)\<rparr>
         else c)
      else if depend = ''python3'' then c\<lparr>tools_exec := snprintf 512 (''python3 '' @ cmd)\<rparr>
      else if depend = ''python2'' then c\<lparr>tools_exec := snprintf 512 (''python2 '' @ cmd)\<rparr>
      else c)"

text \<open>Installing a handler for the three signals named does not fail, so the child is remembered.\<close>

definition register_sig_handler :: "int \<Rightarrow> cli \<Rightarrow> cli" where
  "register_sig_handler pid c = c\<lparr>child_pid := pid\<rparr>"

text \<open>\<open>pid\<close> is the result of \<open>fork\<close>; the status of the child is not looked at.\<close>

definition my_system :: "shell \<Rightarrow> int \<Rightarrow> string \<Rightarrow> cli \<Rightarrow> int \<times> cli" where
  "my_system sh pid cmd c =
     (if pid < 0 then (- 1, c) else (0, snd (run_system sh cmd (register_sig_handler pid c))))"

definition sig_handler :: "shell \<Rightarrow> int \<Rightarrow> cli \<Rightarrow> (int \<times> int) option \<times> cli" where
  "sig_handler sh sig c =
     ((if child_pid c > 0 then Some (- child_pid c, sig) else None),
      (if post_module c then snd (mod_ctrl sh False c) else c))"

definition subcmd_args :: "string list \<Rightarrow> string" where
  "subcmd_args argv = concat (map (\<lambda>a. snprintf 512 ('' \"'' @ a @ ''\"'')) argv)"

definition exectue :: "shell \<Rightarrow> bool \<Rightarrow> string \<Rightarrow> int \<Rightarrow> string list \<Rightarrow> cli \<Rightarrow> int \<times> cli" where
  "exectue sh can_append garbage pid argv c =
     (case do_prev_depend sh can_append garbage c of (ret, c1) \<Rightarrow>
        if ret < 0 then (- 1, c1)
        else
          (let name0 = snprintf 576 (tools_path c1 @ hd argv);
               name1 = (if exists name0 c1 then name0 else snprintf 576 (tools_path c1 @ kern_version c1 @ hd argv));
               subcmd_name = name1 @ subcmd_args (tl argv);
               c2 = (if run_depend c1 \<noteq> [] then add_python_depend (run_depend c1) subcmd_name c1
                     else c1\<lparr>tools_exec := subcmd_name @ drop (length subcmd_name) (tools_exec c1)\<rparr>)
           in case my_system sh pid (snprintf 576 (sysak_work_path c2 @ '';'' @ tools_exec c2)) c2 of (ret2, c3) \<Rightarrow>
                if ret2 < 0 then (ret2, c3)
                else (ret2, if post_module c3 then snd (mod_ctrl sh False c3) else c3)))"

section \<open>Listing the tools\<close>

abbreviation (input) USER_TOOL :: nat where "USER_TOOL \<equiv> 0"
abbreviation (input) EXPERT_TOOL :: nat where "EXPERT_TOOL \<equiv> 1"
abbreviation (input) MONITOR_TOOL :: nat where "MONITOR_TOOL \<equiv> 2"
abbreviation (input) BCLINUX_TOOL :: nat where "BCLINUX_TOOL \<equiv> 3"

text \<open>The list a class belongs to and the module shown for it.\<close>

definition classify :: "string \<Rightarrow> (nat \<times> string) option" where
  "classify class =
     (if class = ''combine'' then Some (USER_TOOL, [])
      else if is_prefix ''detect'' class then
        (if char_num class (CHR ''/'') \<ge> 2 then None
         else Some (EXPERT_TOOL,
           if is_prefix ''detect/'' class then takeWhile (\<lambda>x. x \<noteq> CHR '':'') (drop 7 class) else []))
      else if is_prefix ''monitor'' class then Some (MONITOR_TOOL, [])
      else if is_prefix ''bclinux'' class then Some (BCLINUX_TOOL, [])
      else None)"

text \<open>\<open>alloc k\<close> says whether the \<open>k\<close>-th allocation succeeds.\<close>

fun build_loop ::
  "(nat \<Rightarrow> bool) \<Rightarrow> nat \<Rightarrow> bool \<Rightarrow> string list \<Rightarrow> string \<times> string \<Rightarrow> tool_info list list \<Rightarrow> int \<Rightarrow> int \<times> tool_info list list" where
  "build_loop alloc k show_all [] old tls ret = (ret, tls)"
| "build_loop alloc k show_all (buf # bufs) old tls ret =
     (case scan_rule buf old of (class, name) \<Rightarrow>
        if \<not> show_all \<and> class \<noteq> ''combine'' then build_loop alloc k show_all bufs (class, name) tls ret
        else if \<not> alloc k then (- 1, tls)
        else (case classify class of
                None \<Rightarrow> build_loop alloc (k + 1) show_all bufs (class, name) tls ret
              | Some (ty, m) \<Rightarrow>
                  (let node = \<lparr>ti_module = m, ti_name = name,
                         ti_help = (case strstr buf '':help{'' of None \<Rightarrow> [] | Some p \<Rightarrow> scan_into '':help{'' p [])\<rparr>
                   in build_loop alloc (k + 1) show_all bufs (class, name) (tls[ty := node # tls ! ty]) (ret + 1))))"

definition build_subcmd_info_from_file ::
  "(nat \<Rightarrow> bool) \<Rightarrow> string \<times> string \<Rightarrow> bool \<Rightarrow> string \<Rightarrow> cli \<Rightarrow> int \<times> cli" where
  "build_subcmd_info_from_file alloc garbage show_all content c =
     (case build_loop alloc 0 show_all (read_lines 574 content) garbage (tool_lists c) 0 of (ret, tls) \<Rightarrow>
        (ret, c\<lparr>tool_lists := tls\<rparr>))"

definition build_subcmd_info :: "(nat \<Rightarrow> bool) \<Rightarrow> string \<times> string \<Rightarrow> bool \<Rightarrow> cli \<Rightarrow> int \<times> cli" where
  "build_subcmd_info alloc garbage show_all c =
     (case (case fs c (sysak_rule c) of
              None \<Rightarrow> (0, c) | Some content \<Rightarrow> build_subcmd_info_from_file alloc garbage show_all content c) of (r1, c1) \<Rightarrow>
      case (case fs c1 (sysak_other_rule c1) of
              None \<Rightarrow> (0, c1) | Some content \<Rightarrow> build_subcmd_info_from_file alloc garbage show_all content c1) of (r2, c2) \<Rightarrow>
        (r1 + r2, c2))"

datatype list_row = Type_row nat | Module_row string | Tool_row string string | Blank_row | Hint_row

fun print_tools :: "tool_info list \<Rightarrow> string \<Rightarrow> list_row list \<times> string" where
  "print_tools [] last_module = ([], last_module)"
| "print_tools (t # ts) last_module =
     (if ti_module t \<noteq> [] \<and> ti_module t \<noteq> last_module
      then (case print_tools ts (ti_module t) of (rows, lm) \<Rightarrow>
              (Module_row (ti_module t) # Tool_row (ti_name t) (ti_help t) # rows, lm))
      else (case print_tools ts last_module of (rows, lm) \<Rightarrow> (Tool_row (ti_name t) (ti_help t) # rows, lm)))"

fun print_lists :: "(nat \<times> tool_info list) list \<Rightarrow> string \<Rightarrow> list_row list" where
  "print_lists [] last_module = []"
| "print_lists ((i, ts) # ls) last_module =
     (if ts = [] then print_lists ls last_module
      else (case print_tools ts last_module of (rows, lm) \<Rightarrow> Type_row i # rows @ Blank_row # print_lists ls lm))"

definition print_each_tool :: "bool \<Rightarrow> cli \<Rightarrow> list_row list" where
  "print_each_tool show_all c =
     print_lists (take (if show_all then BCLINUX_TOOL + 1 else USER_TOOL + 1) (enumerate 0 (tool_lists c))) [] @
     (if show_all then [] else [Hint_row])"

definition subcmd_list :: "(nat \<Rightarrow> bool) \<Rightarrow> string \<times> string \<Rightarrow> bool \<Rightarrow> cli \<Rightarrow> list_row list \<times> cli" where
  "subcmd_list alloc garbage show_all c =
     (case build_subcmd_info alloc garbage show_all c of (ret, c1) \<Rightarrow>
        if ret \<le> 0 then ([], c1) else (print_each_tool show_all c1, c1))"

section \<open>Looking a tool up\<close>

text \<open>What a matching line sets.\<close>

definition apply_rule :: "string \<Rightarrow> cli \<Rightarrow> cli" where
  "apply_rule buf c =
     (let c1 = (case strstr buf '':prev{'' of
                  None \<Rightarrow> c
                | Some p \<Rightarrow>
                    (case scan_braces '':prev{'' p of
                       None \<Rightarrow> c
                     | Some (a, rest) \<Rightarrow> c\<lparr>prev_dep := a, post_dep := scan_into ''};post{'' rest (post_dep c)\<rparr>));
          c2 = (case strstr buf '':python-dep{'' of
                  None \<Rightarrow> c1
                | Some p \<Rightarrow> c1\<lparr>run_depend := scan_into '':python-dep{'' p (run_depend c1)\<rparr>)
      in if strstr buf ''bpf'' \<noteq> None then c2\<lparr>btf_depend := True\<rparr> else c2)"

fun rule_loop :: "string list \<Rightarrow> string \<Rightarrow> string \<times> string \<Rightarrow> cli \<Rightarrow> bool \<times> cli" where
  "rule_loop [] tool old c = (False, c)"
| "rule_loop (buf # bufs) tool old c =
     (case scan_rule buf old of (class, name) \<Rightarrow>
        if strstr class ''combine'' \<noteq> None \<and> strstr class ''/'' \<noteq> None then rule_loop bufs tool (class, name) c
        else if name \<noteq> tool then rule_loop bufs tool (class, name) c
        else (True, apply_rule buf c))"

definition tool_rule_parse :: "string \<times> string \<Rightarrow> string \<Rightarrow> string \<Rightarrow> cli \<Rightarrow> bool \<times> cli" where
  "tool_rule_parse garbage path tool c =
     (case fs c path of
        None \<Rightarrow> (False, c)
      | Some content \<Rightarrow> rule_loop (read_lines 574 content) tool garbage c)"

text \<open>The inputs from outside: the shell, allocation, \<open>fork\<close>, and the contents of uninitialised buffers.\<close>

record outside =
  o_shell :: shell
  o_alloc :: "nat \<Rightarrow> bool"
  o_append :: bool
  o_fork :: int
  o_rule :: string
  o_names :: "string \<times> string"

definition tool_lookup :: "outside \<Rightarrow> string \<Rightarrow> cli \<Rightarrow> bool \<times> cli" where
  "tool_lookup w tool c =
     (let exec1 = snprintf 512 (tools_path c @ kern_version c @ tool); exec2 = snprintf 512 (tools_path c @ tool)
      in case (if exists exec1 c \<or> exists exec2 c then (0, c)
               else check_or_install_components (o_shell w) (o_append w) (o_rule w) tool c) of (ret, c1) \<Rightarrow>
           if ret < 0 then (False, c1)
           else (case tool_rule_parse (o_names w) (sysak_other_rule c1) tool c1 of (ok, c2) \<Rightarrow>
                   if ok then (True, c2) else tool_rule_parse (o_names w) (sysak_rule c2) tool c2))"

fun arg_depend :: "string list \<Rightarrow> cli \<Rightarrow> cli" where
  "arg_depend [] c = c"
| "arg_depend (a # as) c =
     (if strstr (prev_dep c) a \<noteq> None then c\<lparr>pre_module := True\<rparr>
      else if strstr (post_dep c) a \<noteq> None then c\<lparr>post_module := True\<rparr>
      else arg_depend as c)"

definition subcmd_parse :: "outside \<Rightarrow> string list \<Rightarrow> cli \<Rightarrow> int \<times> cli" where
  "subcmd_parse w argv c =
     (case tool_lookup w (hd argv) c of (ok, c1) \<Rightarrow>
        if \<not> ok then (- ERR_NOSUBTOOL, c1)
        else exectue (o_shell w) (o_append w) (o_rule w) (o_fork w) argv
          (if strstr (prev_dep c1) ''btf'' \<noteq> None then c1\<lparr>btf_depend := True\<rparr>
           else if strstr (prev_dep c1) ''default'' \<noteq> None \<or> strstr (post_dep c1) ''default'' \<noteq> None then
             c1\<lparr>pre_module := True, post_module := True\<rparr>
           else arg_depend (tl argv) c1))"

definition parse_arg :: "outside \<Rightarrow> string list \<Rightarrow> cli \<Rightarrow> int \<times> list_row list \<times> cli" where
  "parse_arg w argv c =
     (if length argv < 2 then (- ERR_MISSARG, [], c)
      else if argv ! 1 = ''list'' then
        (case subcmd_list (o_alloc w) (o_names w) (length argv = 3 \<and> argv ! 2 = ''-a'') c of (rows, c1) \<Rightarrow> (0, rows, c1))
      else if argv ! 1 = ''help'' \<or> argv ! 1 = ''-h'' then (0, [], c)
      else if argv ! 1 = ''-g'' then
        (if length argv < 3 then (- ERR_MISSARG, [], c)
         else (case subcmd_parse w (drop 2 argv) (c\<lparr>auto_get_components := True\<rparr>) of (ret, c1) \<Rightarrow> (ret, [], c1)))
      else (case subcmd_parse w (drop 1 argv) c of (ret, c1) \<Rightarrow> (ret, [], c1)))"

section \<open>Start\<close>

text \<open>The search for the suffix that equals the one from the last slash on; \<open>None\<close> without a slash.\<close>

fun strrchr :: "string \<Rightarrow> char \<Rightarrow> string option" where
  "strrchr [] ch = None"
| "strrchr (x # s) ch = (case strrchr s ch of Some t \<Rightarrow> Some t | None \<Rightarrow> if x = ch then Some (x # s) else None)"

fun dirpath_loop :: "string \<Rightarrow> string \<Rightarrow> string" where
  "dirpath_loop sub [] = []"
| "dirpath_loop sub (x # ptr) = (if sub = x # ptr then [] else x # dirpath_loop sub ptr)"

definition dirpath :: "string \<Rightarrow> string option" where
  "dirpath fullpath = map_option (\<lambda>sub. dirpath_loop sub fullpath) (strrchr fullpath (CHR ''/''))"

definition set_path :: "string \<Rightarrow> cli \<Rightarrow> cli option" where
  "set_path real c =
     (case dirpath real of
        None \<Rightarrow> None
      | Some current_path \<Rightarrow>
          (let path1 = snprintf 512 (current_path @ ''/.sysak_components'');
               components_path = (if exists path1 c then path1 else snprintf 512 (sysak_root_path @ ''/.sysak_components''))
           in Some (c\<lparr>tools_path := snprintf 512 (components_path @ ''/tools/''),
                      module_path := snprintf 512 (components_path @ ''/lib/''),
                      sysak_rule := snprintf 512 (components_path @ ''/tools/.sysak.rules''),
                      sysak_other_rule := snprintf 512 (components_path @ ''/tools/'' @ kern_version c @ ''/.sysak.rules''),
                      sysak_work_path := snprintf 512 (''export SYSAK_WORK_PATH='' @ components_path)\<rparr>)))"

definition kern_release :: "(string \<times> string) option \<Rightarrow> cli \<Rightarrow> cli" where
  "kern_release uname c = (case uname of None \<Rightarrow> c | Some (r, m) \<Rightarrow> c\<lparr>kern_version := r, machine := m\<rparr>)"

definition cli_start :: "files \<Rightarrow> string \<Rightarrow> cli" where
  "cli_start files typed =
     \<lparr>kern_version = [], machine = [], prev_dep = [], post_dep = [], run_depend = [], tools_path = [], tools_exec = [],
      sysak_rule = [], module_path = [], module_tag = [], sysak_work_path = [], sysak_other_rule = [],
      components_server = [], pre_module = False, post_module = False, btf_depend = False,
      auto_get_components = False, child_pid = 0, tool_lists = [[], [], [], []], fs = files, cmds = [], answers = typed\<rparr>"

text \<open>\<open>real\<close> is the resolved path of the program; \<open>None\<close> where it has no slash.\<close>

definition sysak_main ::
  "outside \<Rightarrow> (string \<times> string) option \<Rightarrow> string \<Rightarrow> string list \<Rightarrow> cli \<Rightarrow> (int \<times> list_row list \<times> cli) option" where
  "sysak_main w uname real argv c =
     (let c1 = (if exists log_path c then c else c\<lparr>fs := (fs c)(log_path := Some [])\<rparr>)
      in map_option (parse_arg w argv) (set_path real (kern_release uname c1)))"

end
