(* ===== verification/Cli_Theorems.thy ===== *)
theory Cli_Theorems
  imports Sysak_Cli
begin

text \<open>
  Properties of the front end: trimming, the list of tools, and what happens when a dependency of a
  tool cannot be installed.
\<close>

section \<open>Trimming\<close>

lemma strim_loop_eq:
  "strim_loop s i start =
     (map (\<lambda>x. if is_blank x then NUL else x) s,
      case start of Some j \<Rightarrow> Some j
      | None \<Rightarrow> if list_all is_blank s then None else Some (i + length (takeWhile is_blank s)))"
  by (induction s arbitrary: i start) (auto split: option.split)

lemma blanks_cut:
  "NUL \<notin> set s \<Longrightarrow>
   takeWhile (\<lambda>x. x \<noteq> NUL) (map (\<lambda>x. if is_blank x then NUL else x) s) = takeWhile (\<lambda>x. \<not> is_blank x) s"
  by (induction s) auto

section \<open>Counting listed tools\<close>

definition listed :: "tool_info list list \<Rightarrow> int" where
  "listed tls = int (sum_list (map length tls))"

lemma listed_update: "k < length tls \<Longrightarrow> listed (tls[k := t # tls ! k]) = listed tls + 1"
  unfolding listed_def by (induction tls arbitrary: k) (auto split: nat.split)

lemma classify_bound: "classify cls = Some (ty, m) \<Longrightarrow> ty < 4"
  by (auto simp: classify_def split: if_splits)

lemma classify_user: "classify cls = Some (ty, m) \<Longrightarrow> ty = 0 \<longleftrightarrow> cls = ''combine''"
  by (auto simp: classify_def split: if_splits)

lemma build_loop_counts:
  "length tls = 4 \<Longrightarrow> build_loop (\<lambda>_. True) k sa bufs old tls ret = (ret', tls') \<Longrightarrow>
    length tls' = 4 \<and> ret' = ret + (listed tls' - listed tls) \<and>
    (\<not> sa \<longrightarrow> (\<forall>i. 0 < i \<and> i < 4 \<longrightarrow> tls' ! i = tls ! i))"
proof (induction bufs arbitrary: k old tls ret)
  case (Cons buf bufs)
  obtain cls name where sc: "scan_rule buf old = (cls, name)" by fastforce
  show ?case
  proof (cases "(\<not> sa \<and> cls \<noteq> ''combine'') \<or> classify cls = None")
    case True
    then show ?thesis using Cons by (auto simp: sc split: if_splits)
  next
    case False
    then obtain ty m where cl: "classify cls = Some (ty, m)" by auto
    note b = classify_bound [OF cl]
    define node where "node = \<lparr>ti_module = m, ti_name = name,
      ti_help = (case strstr buf '':help{'' of None \<Rightarrow> [] | Some p \<Rightarrow> scan_into '':help{'' p [])\<rparr>"
    have "build_loop (\<lambda>_. True) (k + 1) sa bufs (cls, name) (tls[ty := node # tls ! ty]) (ret + 1) = (ret', tls')"
      using Cons.prems(2) False by (auto simp: sc cl node_def Let_def split: if_splits)
    from Cons.IH [OF _ this] have ih: "length tls' = 4" "ret' = ret + 1 + (listed tls' - listed (tls[ty := node # tls ! ty]))"
      "\<not> sa \<longrightarrow> (\<forall>i. 0 < i \<and> i < 4 \<longrightarrow> tls' ! i = (tls[ty := node # tls ! ty]) ! i)"
      using Cons.prems(1) by auto
    moreover have "ty = 0" if "\<not> sa" using that False classify_user [OF cl] by auto
    ultimately show ?thesis using listed_update [of ty tls node] b Cons.prems(1) by auto
  qed
qed simp

section \<open>Properties\<close>

text \<open>C23: strim reduces a string to its first word: the characters between the leading white space and
  the next white space.\<close>

theorem strim_first_word:
  assumes "NUL \<notin> set s"
  shows "strim s = takeWhile (\<lambda>x. \<not> is_blank x) (dropWhile is_blank s)"
proof (cases "list_all is_blank s")
  case True
  then have "strim s = takeWhile (\<lambda>x. \<not> is_blank x) s"
    using blanks_cut [OF assms] by (simp add: strim_def strim_loop_eq c_string_def)
  moreover have "takeWhile (\<lambda>x. \<not> is_blank x) s = []" "dropWhile is_blank s = []"
    using True by (cases s; auto simp: list_all_iff)+
  ultimately show ?thesis by (simp only: takeWhile.simps)
next
  case False
  have d: "drop (length (takeWhile is_blank s)) s = dropWhile is_blank s" by (simp add: dropWhile_eq_drop)
  have "NUL \<notin> set (dropWhile is_blank s)" using assms set_dropWhileD by fastforce
  from blanks_cut [OF this] False show ?thesis
    by (simp add: strim_def strim_loop_eq c_string_def drop_map d)
qed

theorem strim_first_word_witness:
  "strim ''  10.0.0.1 x'' = takeWhile (\<lambda>x. \<not> is_blank x) (dropWhile is_blank ''  10.0.0.1 x'')"
  by (rule strim_first_word) simp

text \<open>C24: Reading a rule file for the list returns the number of tools it added to the four lists, and
  without the option for all tools only the first list grows.\<close>

theorem build_subcmd_info_counts:
  assumes "\<forall>k. alloc k" "length (tool_lists c) = 4"
    and "build_subcmd_info_from_file alloc garbage sa content c = (ret, c')"
  shows "length (tool_lists c') = 4 \<and>
    ret = int (sum_list (map length (tool_lists c'))) - int (sum_list (map length (tool_lists c))) \<and>
    (\<not> sa \<longrightarrow> tl (tool_lists c') = tl (tool_lists c))"
proof -
  have al: "alloc = (\<lambda>_. True)" using assms(1) by auto
  obtain tls' where b: "build_loop (\<lambda>_. True) 0 sa (read_lines 574 content) garbage (tool_lists c) 0 = (ret, tls')"
    and c': "tool_lists c' = tls'"
    using assms(3) unfolding al by (auto simp: build_subcmd_info_from_file_def split: prod.splits)
  note r = build_loop_counts [OF assms(2) b]
  have "tl tls' = tl (tool_lists c)" if "\<not> sa"
    using r that assms(2) by (intro nth_equalityI) (auto simp: nth_tl)
  with r show ?thesis by (simp add: c' listed_def)
qed

theorem build_subcmd_info_counts_witness:
  "let r = build_subcmd_info_from_file (\<lambda>_. True) ([], []) False ''combine:iotop:help{io}'' (cli_start Map.empty [])
   in length (tool_lists (snd r)) = 4 \<and>
      fst r = int (sum_list (map length (tool_lists (snd r)))) - int (sum_list (map length [[], [], [], [] :: tool_info list])) \<and>
      tl (tool_lists (snd r)) = [[], [], []]"
  using build_subcmd_info_counts [of "\<lambda>_. True" "cli_start Map.empty []", OF _ _ prod.collapse [symmetric],
      of "([], [])" False "''combine:iotop:help{io}''"]
  by (simp add: cli_start_def Let_def)

text \<open>C29: A download that fails is taken for a success: when wget ends with an error and the type
  information is still missing, the dependencies count as met and the tool is run.\<close>

theorem sysak_failed_download:
  assumes "btf_depend c" "\<not> pre_module c" "\<not> post_module c" "auto_get_components c" "0 < status" "0 \<le> pid"
    and "fs c (tools_path c @ ''/vmlinux-'' @ kern_version c) = None"
    and "fs c (tools_path c @ ''/'' @ kern_version c @ ''/vmlinux-'' @ kern_version c) = None"
    and "fs c ''/usr/local/sysak/sysak_server.conf'' = Some content" "strim (hd (read_lines 510 content)) \<noteq> []" "content \<noteq> []"
  shows "let sh = (\<lambda>cmd f. (status, f)); c1 = snd (do_prev_depend sh ap g c); c2 = snd (exectue sh ap g pid argv c)
         in fst (do_prev_depend sh ap g c) = status \<and> fs c1 = fs c \<and>
            fst (exectue sh ap g pid argv c) = 0 \<and> length (cmds c2) = length (cmds c) + 2"
proof -
  define sh :: shell where "sh = (\<lambda>cmd f. (status, f))"
  have sh: "sh cmd f = (status, f)" for cmd f by (simp add: sh_def)
  obtain l ls where l: "read_lines 510 content = l # ls"
    using assms(11) read_lines.simps [of 510 content] by (simp split: prod.splits)
  obtain cmd where d: "do_prev_depend sh ap g c =
      (status, c\<lparr>components_server := strim l, cmds := cmds c @ [cmd]\<rparr>)"
    using assms l
    by (simp add: do_prev_depend_def check_or_install_components_def pre_down_install_def down_install_def
        get_server_addr_def exists_def run_system_def sh Let_def)
  have "fst (exectue sh ap g pid argv c) = 0 \<and> length (cmds (snd (exectue sh ap g pid argv c))) = length (cmds c) + 2"
    using assms(3,5,6)
    by (simp add: exectue_def d my_system_def register_sig_handler_def run_system_def sh add_python_depend_def Let_def)
  with d show ?thesis by (simp add: sh_def Let_def)
qed

theorem sysak_failed_download_witness:
  "let c = (cli_start [''/usr/local/sysak/sysak_server.conf'' \<mapsto> ''s''] [])\<lparr>btf_depend := True, auto_get_components := True\<rparr>;
       sh = (\<lambda>cmd f. (256, f)); c1 = snd (do_prev_depend sh True [] c); c2 = snd (exectue sh True [] 9 [''t''] c)
   in fst (do_prev_depend sh True [] c) = 256 \<and> fs c1 = fs c \<and>
      fst (exectue sh True [] 9 [''t''] c) = 0 \<and> length (cmds c2) = length (cmds c) + 2"
proof -
  let ?c = "(cli_start [''/usr/local/sysak/sysak_server.conf'' \<mapsto> ''s''] [])\<lparr>btf_depend := True, auto_get_components := True\<rparr>"
  have n: "fgets n [] = ([], [])" for n by (cases n) simp_all
  have "fgets (Suc 510) ''s'' = (''s'', [])" by (simp only: fgets.simps n) simp
  then have r: "read_lines 510 ''s'' = [''s'']" using read_lines.simps [of 510 "''s''"] by (simp add: read_lines.simps [of 510 "[]"])
  have t: "strim ''s'' \<noteq> []" by (simp add: strim_def is_blank_def c_string_def)
  show ?thesis unfolding Let_def
    by (rule sysak_failed_download [where content = "''s''", unfolded Let_def])
      (simp_all add: cli_start_def r t)
qed

text \<open>C30: For a tool that needs both the kernel module and type information, with both files in place,
  nothing is done before the tool runs: the module is not loaded, although it would be for a tool that
  needs the module alone.\<close>

theorem sysak_module_left_out:
  assumes "pre_module c" "exists (module_path c @ kern_version c @ ''/sysak.ko'') c"
    and "exists (tools_path c @ ''/vmlinux-'' @ kern_version c) c"
  shows "do_prev_depend sh ap g (c\<lparr>btf_depend := True\<rparr>) = (0, c\<lparr>btf_depend := True\<rparr>) \<and>
         do_prev_depend sh ap g (c\<lparr>btf_depend := False\<rparr>) = mod_ctrl sh True (c\<lparr>btf_depend := False\<rparr>)"
  using assms by (simp add: do_prev_depend_def check_or_install_components_def exists_def Let_def)

theorem sysak_module_left_out_witness:
  "let c = (cli_start [''/lib/5.10/sysak.ko'' \<mapsto> [], ''/tools//vmlinux-5.10'' \<mapsto> []] [])
         \<lparr>pre_module := True, module_path := ''/lib/'', tools_path := ''/tools/'', kern_version := ''5.10''\<rparr>
   in do_prev_depend (\<lambda>_ f. (0, f)) True [] (c\<lparr>btf_depend := True\<rparr>) = (0, c\<lparr>btf_depend := True\<rparr>) \<and>
      do_prev_depend (\<lambda>_ f. (0, f)) True [] (c\<lparr>btf_depend := False\<rparr>) = mod_ctrl (\<lambda>_ f. (0, f)) True (c\<lparr>btf_depend := False\<rparr>)"
  unfolding Let_def by (rule sysak_module_left_out) (simp_all add: cli_start_def exists_def)

end
