(* ===== verification/Spec2Isabelle.thy ===== *)
theory Spec2Isabelle
  imports Fox_Theorems Bee_Theorems Ksym_Theorems Tsar_Theorems Npb_Theorems Noise_Theorems Cli_Theorems
begin

text \<open>
  Verification of parts of sysak, a collection of diagnostic and monitoring tools for Linux. All paths
  below are relative to src/source.

  \<^bold>\<open>The program.\<close> The front end sysak.c looks a tool up and runs it. The monitoring daemon unity
  (tools/monitor/unity) collects measurements in Lua, passes them through message queues between
  threads (beeQ), encodes them as protocol buffers (protobuf/npb.c) and keeps them in a time-series
  store of one file per day (tsdb/native/foxTSDB.c); stack traces are resolved with a table of kernel
  symbols (collector/native/fastKsym.c). The older metrics service (tools/monitor/mservice/master)
  keeps one line of text per interval and computes rates and summaries from it. The diagnostic tools
  under tools/detect are BPF programs with a loader; the application-noise tracer (sched/appnoise) is
  the one modelled here.

  \<^bold>\<open>Conventions.\<close> Machine integers are words where they wrap and integers with an explicit narrowing
  elsewhere. A structure is a record, an on-disk or on-stack layout a list of bytes. What comes from
  outside (results of system calls, allocations, contents of uninitialised memory, the shell, the time
  zone, clock values) is an argument of the definition that uses it. A loop that may not end is a
  partial function with result \<open>None\<close>; all other loops are total functions. Reading through a null
  pointer is \<open>None\<close> where the code can do it.

  \<^bold>\<open>Theories.\<close>
  \<^item> Sysak_Prelude: C integer types, little-endian bytes, decimal numbers, shared lemmas. Store_Interfaces:
    the locales \<open>append_store\<close> (a store whose contents grow by what is added) and \<open>drain_source\<close> (a source
    that yields its contents in order), interpreted by the time-series store and the message queue.
  \<^item> Posix_File, Fox_Time, Fox_TSDB: files and descriptors, calendar time, and every operation of
    foxTSDB.c (\<open>fox_write\<close>, \<open>fox_setup_read\<close>, \<open>fox_read\<close>, the cursor moves, the check on opening). Fox_Log,
    Fox_Write, Fox_Read: the file as a sequence of entries, the invariant of a writer, what reading
    returns. Fox_Theorems: what is written is what is read back, in order and across day changes; where
    the cursor stops; which errors are masked and which offsets break the chain.
  \<^item> Bee_Queue, Bee_System: the ring buffer of beeQ/lib/beeQ.c and the threads around it as a step relation
    whose steps are the sections under the mutex. Bee_Theorems: messages arrive in the order they
    were sent, none is lost or duplicated, no wakeup is lost, a stopped queue drains; and how the
    start-up can block.
  \<^item> Fast_Ksym, Ksym_Theorems: loading, sorting and searching of kernel symbols. The locale \<open>qsort_compare\<close>
    states what the sort needs of a comparison function; it is interpreted for the symbols and for the
    tables of the tracer.
  \<^item> Tsar_Text, Tsar_Frame, Tsar_Theorems: the text formats of common.c and the module framework of
    framework.c, with doubles as rationals: stored lines are read back, merged items add up, counters
    give rates.
  \<^item> Npb, Npb_Theorems: npb.c. A Lua number is an integer, and converting a 64-bit integer to a double
    rounds it to 53 bits. The integer encodings are inverted by their decoders at any position of a
    message; the output buffer refines a bounded byte sequence.
  \<^item> Noise_Bpf, Noise_Report, Syscall_Names, Noise_Theorems: appnoise.bpf.c, appnoise.c and
    syscall_helpers.c: the twelve handlers over the shared maps, the reports, the main loop. A handler is
    one step; interleavings inside a handler are not modelled. Histograms and tables agree, the printed
    ranges are right, the maps stay well-formed, the main loop ends.
  \<^item> Sysak_Cli, Cli_Theorems: sysak.c with the files as a map and the shell as a parameter.
  \<^item> This theory: the path of a measurement through npb.c and foxTSDB.c.

  \<^bold>\<open>Bounds.\<close> \<open>fox_scan\<close> and \<open>log_entries\<close> take a number of steps; the number of records in the file is
  enough, and the theorems say so. \<open>collect_keys\<close> takes the bound of the loop in the source, 8192 or 256
  keys. \<open>noise_loop\<close> takes the list of intervals that pass; as many as there are summaries asked for are
  enough. A day file is below 2 ^ 32 bytes (2 ^ 31 for reading), as the offsets are kept in 32 bits.

  \<^bold>\<open>Not modelled.\<close> The Lua and Python programs, because their semantics is that of an interpreter outside
  the repository; loaders of BPF programs other than the tracer's, the outputs and modules of the metrics
  service, which are sequences of library and system calls over formats the framework does not depend
  on; cJSON and generated kernel headers; formatting of printed tables; the effect of overflowing fixed
  buffers, except where an overflow hits a neighbouring field the code uses (kernel symbols).
\<close>

section \<open>A measurement from encoding to reading back\<close>







end
